(* ===== verification/Srt_Prelude.thy ===== *)
theory Srt_Prelude
  imports Main "HOL-Library.Word"
begin

unbundle bit_operations_syntax

text \<open>
  Shared vocabulary of the development: names for Go's fixed-width integers, Go's truncating
  division, the big-endian accessors of \<^verbatim>\<open>encoding/binary\<close>, and generic facts about words, lists
  and bytes. The components import this theory; nothing here depends on the program.
\<close>

section \<open>Go's integer types\<close>

text \<open>
  \<^verbatim>\<open>uint8\<close>, \<^verbatim>\<open>uint16\<close>, \<^verbatim>\<open>uint32\<close> and \<^verbatim>\<open>uint64\<close> are words of that width, so arithmetic on them wraps
  as it does in Go. \<^verbatim>\<open>int\<close> and \<^verbatim>\<open>int64\<close> values (lengths, counters, microsecond clocks) are
  mathematical integers; a conversion \<^verbatim>\<open>uint32(x)\<close> of such a value is \<^term>\<open>word_of_int x :: 32 word\<close>,
  the reduction modulo $2^{32}$ that Go performs.
\<close>

type_synonym u8 = "8 word"
type_synonym u16 = "16 word"
type_synonym u32 = "32 word"
type_synonym u64 = "64 word"
type_synonym bytes = "8 word list"

named_theorems wire_simps \<open>round-trip and length facts of the wire codecs\<close>
named_theorems seq_simps \<open>offset arithmetic on the circle of sequence numbers\<close>

section \<open>Truncating division\<close>

text \<open>Go's \<^verbatim>\<open>/\<close> and \<^verbatim>\<open>%\<close> on signed integers truncate towards zero.\<close>

definition go_div :: "int \<Rightarrow> int \<Rightarrow> int" where
  "go_div a b = sgn a * sgn b * (\<bar>a\<bar> div \<bar>b\<bar>)"

definition go_mod :: "int \<Rightarrow> int \<Rightarrow> int" where
  "go_mod a b = a - b * go_div a b"

lemma go_div_nonneg: "0 \<le> a \<Longrightarrow> 0 < b \<Longrightarrow> go_div a b = a div b"
  by (cases "a = 0") (simp_all add: go_div_def)

lemma go_mod_nonneg: "0 \<le> a \<Longrightarrow> 0 < b \<Longrightarrow> go_mod a b = a mod b"
  by (simp add: go_mod_def go_div_nonneg minus_mult_div_eq_mod)

lemma go_div_neg: "0 \<le> a \<Longrightarrow> 0 < b \<Longrightarrow> go_div (- a) b = - (a div b)"
  by (cases "a = 0") (simp_all add: go_div_def)

lemma go_div_abs_le: "0 < b \<Longrightarrow> \<bar>go_div a b\<bar> \<le> \<bar>a\<bar>"
proof -
  assume b: "0 < b"
  then have "\<bar>a\<bar> div b \<le> \<bar>a\<bar>" by (simp add: zdiv_mono2 [of "\<bar>a\<bar>" 1 b, simplified])
  moreover from b have "0 \<le> \<bar>a\<bar> div b" by (simp add: pos_imp_zdiv_nonneg_iff)
  ultimately show ?thesis
    using b by (cases "a = 0") (simp_all add: go_div_def abs_mult abs_sgn_eq)
qed

section \<open>Big-endian integers\<close>

text \<open>
  \<^verbatim>\<open>binary.BigEndian.PutUintN(buf[k:], v)\<close> stores the bytes of \<open>v\<close> at offset \<open>k\<close>; \<^verbatim>\<open>UintN(buf[k:])\<close>
  reads them back. A marshaller that fills a freshly made slice field by field is modelled by the
  concatenation of the fields; a read at offset \<open>k\<close> is the accessor on \<open>drop k buf\<close>. The accessors
  are used behind the source's own length checks; a too short slice, where Go panics, reads as 0.
\<close>

definition put_be16 :: "u16 \<Rightarrow> bytes" where
  "put_be16 v = [ucast (drop_bit 8 v), ucast v]"

definition put_be32 :: "u32 \<Rightarrow> bytes" where
  "put_be32 v = [ucast (drop_bit 24 v), ucast (drop_bit 16 v), ucast (drop_bit 8 v), ucast v]"

definition put_be64 :: "u64 \<Rightarrow> bytes" where
  "put_be64 v = put_be32 (ucast (drop_bit 32 v)) @ put_be32 (ucast v)"

fun get_be16 :: "bytes \<Rightarrow> u16" where
  "get_be16 (a # b # _) = push_bit 8 (ucast a) OR ucast b"
| "get_be16 _ = 0"

fun get_be32 :: "bytes \<Rightarrow> u32" where
  "get_be32 (a # b # c # d # _) =
     push_bit 24 (ucast a) OR push_bit 16 (ucast b) OR push_bit 8 (ucast c) OR ucast d"
| "get_be32 _ = 0"

definition get_be64 :: "bytes \<Rightarrow> u64" where
  "get_be64 bs = push_bit 32 (ucast (get_be32 bs)) OR ucast (get_be32 (drop 4 bs))"

text \<open>
  Go's \<^verbatim>\<open>copy(dst[off:], src)\<close>: as many bytes as fit. Go strings are byte sequences; a character is
  the byte with its code.
\<close>

definition go_copy :: "bytes \<Rightarrow> nat \<Rightarrow> bytes \<Rightarrow> bytes" where
  "go_copy dst off src = take off dst @ take (length dst - off) src @ drop (off + length src) dst"

definition byte_of_char :: "char \<Rightarrow> u8" where
  "byte_of_char c = of_nat (of_char c)"

definition char_of_byte :: "u8 \<Rightarrow> char" where
  "char_of_byte b = char_of (unat b)"

lemma char_of_byte_of_char [simp]: "char_of_byte (byte_of_char c) = c"
proof -
  have "(of_char c :: nat) < 256" using nat_of_char_less_256 [of c] by simp
  then show ?thesis by (simp add: char_of_byte_def byte_of_char_def unat_of_nat)
qed

lemma length_put_be [simp, wire_simps]:
  "length (put_be16 v) = 2" "length (put_be32 w) = 4" "length (put_be64 x) = 8"
  by (simp_all add: put_be16_def put_be32_def put_be64_def)

lemma get_put_be16 [simp, wire_simps]: "get_be16 (put_be16 v @ r) = v"
proof (rule bit_word_eqI)
  fix n :: nat assume "n < LENGTH(16)"
  then consider "n < 8" | "8 \<le> n" "n < 16" by fastforce
  then show "bit (get_be16 (put_be16 v @ r)) n = bit v n"
    by cases (auto simp: put_be16_def bit_simps)
qed

lemma get_put_be32 [simp, wire_simps]: "get_be32 (put_be32 v @ r) = v"
proof (rule bit_word_eqI)
  fix n :: nat assume "n < LENGTH(32)"
  then consider "n < 8" | "8 \<le> n" "n < 16" | "16 \<le> n" "n < 24" | "24 \<le> n" "n < 32"
    by fastforce
  then show "bit (get_be32 (put_be32 v @ r)) n = bit v n"
    by cases (auto simp: put_be32_def bit_simps)
qed

lemma get_put_be16_Nil [simp, wire_simps]: "get_be16 (put_be16 v) = v"
  using get_put_be16 [of v "[]"] by simp

lemma get_put_be32_Nil [simp, wire_simps]: "get_be32 (put_be32 v) = v"
  using get_put_be32 [of v "[]"] by simp

lemma get_put_be64 [simp, wire_simps]: "get_be64 (put_be64 v @ r) = v"
proof (rule bit_word_eqI)
  fix n :: nat assume "n < LENGTH(64)"
  then consider "n < 32" | "32 \<le> n" "n < 64" by fastforce
  then show "bit (get_be64 (put_be64 v @ r)) n = bit v n"
    by cases (auto simp: put_be64_def get_be64_def bit_simps)
qed

text \<open>The other direction: the bytes of a slice are the encoding of the word they spell.\<close>

lemma bit_byte_ge [simp]: "8 \<le> n \<Longrightarrow> \<not> bit (b :: 8 word) n"
  using bit_imp_le_length [of b n] by auto

lemma put_get_be32: "put_be32 (get_be32 [a, b, c, d]) = [a, b, c, d]"
  by (auto simp: put_be32_def bit_simps intro!: bit_word_eqI)

lemma put_get_be16: "put_be16 (get_be16 [a, b]) = [a, b]"
  by (auto simp: put_be16_def bit_simps intro!: bit_word_eqI)

lemma put_get_be32_take: "4 \<le> length xs \<Longrightarrow> put_be32 (get_be32 xs) = take 4 xs"
  by (cases xs rule: get_be32.cases) (simp_all add: put_get_be32 [simplified])

lemma put_get_be16_take: "2 \<le> length xs \<Longrightarrow> put_be16 (get_be16 xs) = take 2 xs"
  by (cases xs rule: get_be16.cases) (simp_all add: put_get_be16 [simplified])

lemma get_put_be64_Nil [simp, wire_simps]: "get_be64 (put_be64 v) = v"
  using get_put_be64 [of v "[]"] by simp

lemma put_get_be64_take: "8 \<le> length xs \<Longrightarrow> put_be64 (get_be64 xs) = take 8 xs"
proof -
  assume l: "8 \<le> length xs"
  have z: "\<not> bit w (32 + n)" for w :: u32 and n using bit_imp_le_length [of w "32 + n"] by auto
  have "ucast (drop_bit 32 (get_be64 xs)) = get_be32 xs" "ucast (get_be64 xs) = get_be32 (drop 4 xs)"
    by (auto simp: get_be64_def bit_simps z intro!: bit_word_eqI)
  then have "put_be64 (get_be64 xs) = take 4 xs @ take 4 (drop 4 xs)"
    using l by (simp add: put_be64_def put_get_be32_take)
  also have "\<dots> = take 8 xs" by (simp flip: take_add)
  finally show ?thesis .
qed

lemma put_be32_inj: "put_be32 v = put_be32 w \<longleftrightarrow> v = w"
  by (metis get_put_be32_Nil)

section \<open>Words and bits\<close>

lemma mask_nat_eq: "(n::nat) AND (2 ^ k - 1) = n mod 2 ^ k"
  using take_bit_eq_mask [of k n] by (simp add: mask_eq_exp_minus_1 take_bit_eq_mod)

lemma word_and_mask_eq_iff_lt:
  "k < LENGTH('a::len) \<Longrightarrow> (w :: 'a word) AND mask k = w \<longleftrightarrow> unat w < 2 ^ k"
  by (metis take_bit_eq_mask take_bit_nat_eq_self_iff unsigned_take_bit_eq word_unat_eq_iff)

section \<open>Lists\<close>

lemma take_drop_chain: "k = n + m \<Longrightarrow> take m (drop n xs) @ drop k xs = drop n xs"
  by (simp add: add.commute flip: drop_drop)

text \<open>A sequence of operations on a state, with their results.\<close>

fun run_ops :: "('op \<Rightarrow> 'b \<Rightarrow> 'b \<times> 'out) \<Rightarrow> 'op list \<Rightarrow> 'b \<Rightarrow> 'b \<times> 'out list" where
  "run_ops step [] b = (b, [])"
| "run_ops step (op # ops) b =
     (case step op b of (b', out) \<Rightarrow> case run_ops step ops b' of (b'', outs) \<Rightarrow> (b'', out # outs))"

lemma nth_list_update_If:
  "j < length xs \<Longrightarrow> xs[i := x] ! j = (if i = j then x else xs ! j)"
  by (simp add: nth_list_update)

lemma update_middle:
  assumes "b + k < length q" and "q1 = take b q @ map f (take k (drop b q)) @ drop (b + k) q"
  shows "q1[b + k := f (q1 ! (b + k))] = take b q @ map f (take (Suc k) (drop b q)) @ drop (b + Suc k) q"
proof -
  define x where "x = take b q @ map f (take k (drop b q))"
  have l: "b + k = length x" using assms(1) by (simp add: x_def)
  have "drop (b + k) q = q ! (b + k) # drop (b + Suc k) q" using assms(1) by (simp add: Cons_nth_drop_Suc)
  then have q1: "q1 = x @ q ! (b + k) # drop (b + Suc k) q" by (simp add: assms(2) x_def)
  have "take (Suc k) (drop b q) = take k (drop b q) @ [q ! (b + k)]"
    using assms(1) by (simp add: take_Suc_conv_app_nth)
  moreover have "q1[b + k := f (q1 ! (b + k))] = x @ f (q ! (b + k)) # drop (b + Suc k) q"
    unfolding q1 by (subst (1 2 3) l) simp
  ultimately show ?thesis by (simp add: x_def)
qed

fun ops_ok :: "('op \<Rightarrow> 'b \<Rightarrow> bool) \<Rightarrow> ('op \<Rightarrow> 'b \<Rightarrow> 'b \<times> 'out) \<Rightarrow> 'op list \<Rightarrow> 'b \<Rightarrow> bool" where
  "ops_ok ok step [] b = True"
| "ops_ok ok step (opn # ops) b = (ok opn b \<and> ops_ok ok step ops (fst (step opn b)))"

lemma length_filter_update:
  "i < length xs \<Longrightarrow>
   length (filter P (xs[i := e])) + (if P (xs ! i) then 1 else 0) = length (filter P xs) + (if P e then 1 else 0)"
proof (induction xs arbitrary: i)
  case (Cons x xs)
  then show ?case by (cases i) (auto split: if_splits)
qed simp

end
