(* ===== verification/Go_Strings.thy ===== *)
theory Go_Strings
  imports Srt_Prelude "HOL-Library.Char_ord"
begin

text \<open>
  The functions of Go's standard library on strings that the code uses: splitting, cutting, prefixes,
  decimal conversion. Strings are lists of characters.
\<close>

section \<open>Splitting\<close>

text \<open>\<^verbatim>\<open>strings.Split(s, sep)\<close> for a separator of one character.\<close>

fun split_on :: "char \<Rightarrow> string \<Rightarrow> string list" where
  "split_on sep [] = [[]]"
| "split_on sep (c # cs) =
     (if c = sep then [] # split_on sep cs
      else case split_on sep cs of [] \<Rightarrow> [[c]] | w # ws \<Rightarrow> (c # w) # ws)"

text \<open>\<^verbatim>\<open>strings.Join(words, sep)\<close> for a separator of one character.\<close>

fun join_with :: "char \<Rightarrow> string list \<Rightarrow> string" where
  "join_with sep [] = []"
| "join_with sep [w] = w"
| "join_with sep (w # ws) = w @ sep # join_with sep ws"

text \<open>\<^verbatim>\<open>strings.Cut(s, sep)\<close>: the parts around the first separator, and whether there is one.\<close>

definition cut :: "char \<Rightarrow> string \<Rightarrow> string \<times> string \<times> bool" where
  "cut sep s =
     (case dropWhile (\<lambda>c. c \<noteq> sep) s of
        [] \<Rightarrow> (s, [], False)
      | _ # rest \<Rightarrow> (takeWhile (\<lambda>c. c \<noteq> sep) s, rest, True))"

section \<open>Decimal numbers\<close>

definition is_digit :: "char \<Rightarrow> bool" where
  "is_digit c = (CHR ''0'' \<le> c \<and> c \<le> CHR ''9'')"

definition digit_val :: "char \<Rightarrow> nat" where
  "digit_val c = of_char c - 48"

definition digit_char :: "nat \<Rightarrow> char" where
  "digit_char d = char_of (48 + d)"

fun parse_digits :: "nat \<Rightarrow> string \<Rightarrow> nat option" where
  "parse_digits acc [] = Some acc"
| "parse_digits acc (c # cs) = (if is_digit c then parse_digits (10 * acc + digit_val c) cs else None)"

text \<open>\<^verbatim>\<open>strconv.Atoi\<close> on a 64-bit platform: an optional sign, decimal digits, and the range of \<^verbatim>\<open>int64\<close>.\<close>

definition Atoi :: "string \<Rightarrow> int option" where
  "Atoi s =
     (let (neg, ds) = (case s of
            c # cs \<Rightarrow> if c = CHR ''-'' then (True, cs) else if c = CHR ''+'' then (False, cs) else (False, s)
          | [] \<Rightarrow> (False, []))
      in if ds = [] then None
         else case parse_digits 0 ds of
                None \<Rightarrow> None
              | Some n \<Rightarrow>
                  let v = (if neg then - int n else int n) in
                  if - (2 ^ 63) \<le> v \<and> v < 2 ^ 63 then Some v else None)"

text \<open>The verb \<^verbatim>\<open>%d\<close>.\<close>

fun show_nat :: "nat \<Rightarrow> string" where
  "show_nat n = (if n < 10 then [digit_char n] else show_nat (n div 10) @ [digit_char (n mod 10)])"

declare show_nat.simps [simp del]

definition show_int :: "int \<Rightarrow> string" where
  "show_int i = (if i < 0 then CHR ''-'' # show_nat (nat (- i)) else show_nat (nat i))"

section \<open>Laws\<close>

lemma split_on_ne [simp]: "split_on sep s \<noteq> []"
  by (induction s) (auto split: list.splits)

lemma split_on_word: "sep \<notin> set w \<Longrightarrow> split_on sep w = [w]"
  by (induction w) (auto split: list.splits)

lemma split_on_append: "sep \<notin> set w \<Longrightarrow> split_on sep (w @ sep # s) = w # split_on sep s"
  by (induction w) (auto split: list.splits)

lemma split_on_no_sep: "w \<in> set (split_on sep s) \<Longrightarrow> sep \<notin> set w"
  by (induction s arbitrary: w) (auto split: list.splits if_splits)

lemma split_join: "ws \<noteq> [] \<Longrightarrow> (\<And>w. w \<in> set ws \<Longrightarrow> sep \<notin> set w) \<Longrightarrow> split_on sep (join_with sep ws) = ws"
proof (induction ws rule: join_with.induct [of _ sep, case_names Nil Single More])
  case (More sep' w v ws)
  then show ?case by (simp add: split_on_append)
qed (simp_all add: split_on_word)

lemma join_split: "join_with sep (split_on sep s) = s"
proof (induction s)
  case (Cons c cs)
  obtain w ws where w: "split_on sep cs = w # ws" by (cases "split_on sep cs") auto
  then show ?case using Cons by (cases ws) auto
qed simp

lemma cut_found: "sep \<notin> set w \<Longrightarrow> cut sep (w @ sep # s) = (w, s, True)"
proof -
  assume w: "sep \<notin> set w"
  then have "\<And>c. c \<in> set w \<Longrightarrow> c \<noteq> sep" by auto
  then have "dropWhile (\<lambda>c. c \<noteq> sep) (w @ sep # s) = sep # s" "takeWhile (\<lambda>c. c \<noteq> sep) (w @ sep # s) = w"
    by (simp_all add: dropWhile_append2 takeWhile_append2)
  then show ?thesis by (simp add: cut_def)
qed

lemma cut_not_found: "sep \<notin> set s \<Longrightarrow> cut sep s = (s, [], False)"
proof -
  assume "sep \<notin> set s"
  then have "dropWhile (\<lambda>c. c \<noteq> sep) s = []" by (auto simp: dropWhile_eq_Nil_conv)
  then show ?thesis unfolding cut_def by (simp only: list.case)
qed

lemma digit_char_facts:
  assumes "d < 10"
  shows "is_digit (digit_char d)" "digit_val (digit_char d) = d"
proof -
  have "\<forall>d < 10. is_digit (digit_char d) \<and> digit_val (digit_char d) = d" by code_simp
  then show "is_digit (digit_char d)" "digit_val (digit_char d) = d" using assms by auto
qed

lemma parse_digits_append:
  "parse_digits acc (xs @ ys) = (case parse_digits acc xs of None \<Rightarrow> None | Some a \<Rightarrow> parse_digits a ys)"
  by (induction xs arbitrary: acc) auto

lemma parse_show_nat: "parse_digits 0 (show_nat n) = Some n"
proof (induction n rule: show_nat.induct)
  case (1 n)
  show ?case
  proof (cases "n < 10")
    case True
    then show ?thesis by (subst show_nat.simps) (simp add: digit_char_facts)
  next
    case False
    then show ?thesis using 1 by (subst show_nat.simps) (simp add: parse_digits_append digit_char_facts)
  qed
qed

lemma show_nat_digits: "c \<in> set (show_nat n) \<Longrightarrow> is_digit c"
proof (induction n rule: show_nat.induct)
  case (1 n)
  then show ?case
    by (subst (asm) (2) show_nat.simps) (auto simp: digit_char_facts split: if_splits)
qed

lemma show_nat_ne: "show_nat n \<noteq> []"
  by (subst show_nat.simps) simp

lemma Atoi_show_int:
  assumes "0 \<le> v" "v < 2 ^ 63"
  shows "Atoi (show_int v) = Some v"
proof -
  obtain c cs where c: "show_nat (nat v) = c # cs" using show_nat_ne by (cases "show_nat (nat v)") auto
  have "is_digit c" using show_nat_digits [of c "nat v"] c by simp
  then have "c \<noteq> CHR ''-''" "c \<noteq> CHR ''+''" by (auto simp: is_digit_def less_eq_char_def)
  then show ?thesis using assms parse_show_nat [of "nat v"] c by (simp add: Atoi_def show_int_def Let_def)
qed

lemma show_int_chars: "0 \<le> v \<Longrightarrow> c \<in> set (show_int v) \<Longrightarrow> is_digit c"
  using show_nat_digits by (simp add: show_int_def)

end
