(* ===== verification/Stream_Id.thy ===== *)
theory Stream_Id
  imports Go_Strings
begin

text \<open>
  The structured stream identifiers of \<^verbatim>\<open>streamid.go\<close>. The map of non-standard keys is a partial function;
  Go's \<^verbatim>\<open>nil\<close> map and an empty one read the same.
\<close>

section \<open>Parsing\<close>

definition StreamTypeStream :: string where "StreamTypeStream = ''stream''"
definition StreamTypeFile :: string where "StreamTypeFile = ''file''"
definition StreamTypeAuth :: string where "StreamTypeAuth = ''auth''"

definition StreamModeRequest :: string where "StreamModeRequest = ''request''"
definition StreamModePublish :: string where "StreamModePublish = ''publish''"
definition StreamModeBidirectional :: string where "StreamModeBidirectional = ''bidirectional''"

definition streamIDPrefix :: string where "streamIDPrefix = ''#!::''"

record StreamIDInfo =
  UserName :: string
  ResourceName :: string
  HostName :: string
  SessionID :: string
  si_Type :: string
  si_Mode :: string
  si_Extra :: "string \<Rightarrow> string option"

definition zero_StreamIDInfo :: StreamIDInfo where
  "zero_StreamIDInfo = \<lparr>UserName = [], ResourceName = [], HostName = [], SessionID = [],
     si_Type = [], si_Mode = [], si_Extra = Map.empty\<rparr>"

definition set_field :: "string \<Rightarrow> string \<Rightarrow> StreamIDInfo \<Rightarrow> StreamIDInfo" where
  "set_field k v info =
     (if k = ''u'' then info\<lparr>UserName := v\<rparr>
      else if k = ''r'' then info\<lparr>ResourceName := v\<rparr>
      else if k = ''h'' then info\<lparr>HostName := v\<rparr>
      else if k = ''s'' then info\<lparr>SessionID := v\<rparr>
      else if k = ''t'' then info\<lparr>si_Type := v\<rparr>
      else if k = ''m'' then info\<lparr>si_Mode := v\<rparr>
      else info\<lparr>si_Extra := (si_Extra info)(k \<mapsto> v)\<rparr>)"

fun parse_fields :: "string list \<Rightarrow> StreamIDInfo \<Rightarrow> nat \<Rightarrow> StreamIDInfo \<times> nat" where
  "parse_fields [] info parsed = (info, parsed)"
| "parse_fields (field # rest) info parsed =
     (case cut (CHR ''='') field of
        (k, v, ok) \<Rightarrow>
          if \<not> ok \<or> k = [] then parse_fields rest info parsed
          else parse_fields rest (set_field k v info) (parsed + 1))"

definition ParseStreamID :: "string \<Rightarrow> StreamIDInfo \<times> bool" where
  "ParseStreamID raw =
     (if take (length streamIDPrefix) raw \<noteq> streamIDPrefix
      then (zero_StreamIDInfo\<lparr>ResourceName := raw\<rparr>, True)
      else
        let body = drop (length streamIDPrefix) raw in
        if body = [] then (zero_StreamIDInfo, False)
        else case parse_fields (split_on (CHR '','') body) zero_StreamIDInfo 0 of
               (info, parsed) \<Rightarrow> if parsed = 0 then (info, False) else (info, True))"

text \<open>A well-formed pair, its text, and the field an identifier has for a key.\<close>

fun pair_ok :: "string \<times> string \<Rightarrow> bool" where
  "pair_ok (k, v) = (k \<noteq> [] \<and> CHR ''='' \<notin> set k \<and> CHR '','' \<notin> set k \<and> CHR '','' \<notin> set v)"

fun pair_text :: "string \<times> string \<Rightarrow> string" where
  "pair_text (k, v) = k @ CHR ''='' # v"

definition field_of :: "StreamIDInfo \<Rightarrow> string \<Rightarrow> string option" where
  "field_of info k =
     (if k = ''u'' then Some (UserName info) else if k = ''r'' then Some (ResourceName info)
      else if k = ''h'' then Some (HostName info) else if k = ''s'' then Some (SessionID info)
      else if k = ''t'' then Some (si_Type info) else if k = ''m'' then Some (si_Mode info)
      else si_Extra info k)"

section \<open>Properties\<close>

lemma field_of_set: "field_of (set_field k v info) = (field_of info)(k \<mapsto> v)"
  by (auto simp: field_of_def set_field_def fun_eq_iff)

lemma parse_fields_pairs:
  "list_all pair_ok ps \<Longrightarrow>
   parse_fields (map pair_text ps) info n = (fold (\<lambda>(k, v). set_field k v) ps info, n + length ps)"
proof (induction ps arbitrary: info n)
  case (Cons p ps)
  obtain k v where p: "p = (k, v)" by (cases p)
  have "cut (CHR ''='') (k @ CHR ''='' # v) = (k, v, True)" using Cons.prems p by (intro cut_found) simp
  then show ?case using Cons p by simp
qed simp

lemma field_of_fold:
  "field_of (fold (\<lambda>(k, v). set_field k v) ps info) = field_of info ++ map_of (rev ps)"
  by (induction ps arbitrary: info) (auto simp: field_of_set map_add_def fun_eq_iff split: option.splits)

text \<open>
  C22. A structured stream identifier built from key-value pairs parses to exactly these pairs: every
  key has the value it was last given, and keys that do not occur keep the empty default. A string
  without the prefix is taken as the resource name as it is.
\<close>

theorem ParseStreamID_pairs:
  assumes "ps \<noteq> []" and "list_all pair_ok ps"
  shows "snd (ParseStreamID (streamIDPrefix @ join_with (CHR '','') (map pair_text ps))) \<and>
    field_of (fst (ParseStreamID (streamIDPrefix @ join_with (CHR '','') (map pair_text ps)))) k
      = (field_of zero_StreamIDInfo ++ map_of (rev ps)) k \<and>
    (take 4 raw \<noteq> streamIDPrefix \<longrightarrow> ParseStreamID raw = (zero_StreamIDInfo\<lparr>ResourceName := raw\<rparr>, True))"
proof -
  let ?ts = "map pair_text ps"
  have len: "length streamIDPrefix = 4" by (simp add: streamIDPrefix_def)
  have sep: "CHR '','' \<notin> set w" if "w \<in> set ?ts" for w
    using that assms(2) by (auto simp: list_all_iff)
  have split: "split_on (CHR '','') (join_with (CHR '','') ?ts) = ?ts"
    using split_join [of ?ts "CHR '',''"] assms(1) sep by blast
  have ne: "pair_text p \<noteq> []" for p by (cases p) simp
  have "join_with (CHR '','') ?ts \<noteq> []"
  proof
    assume "join_with (CHR '','') ?ts = []"
    with split have "?ts = [[]]" by simp
    then have "[] \<in> set ?ts" by simp
    with ne show False by auto
  qed
  then have "ParseStreamID (streamIDPrefix @ join_with (CHR '','') ?ts) =
      (fold (\<lambda>(k, v). set_field k v) ps zero_StreamIDInfo, True)"
    using parse_fields_pairs [OF assms(2)] assms(1)
    by (simp add: ParseStreamID_def Let_def split)
  moreover have "take 4 raw \<noteq> streamIDPrefix \<longrightarrow> ParseStreamID raw = (zero_StreamIDInfo\<lparr>ResourceName := raw\<rparr>, True)"
    by (simp add: ParseStreamID_def len)
  ultimately show ?thesis by (simp add: field_of_fold)
qed

theorem ParseStreamID_pairs_witness:
  "snd (ParseStreamID (streamIDPrefix @ join_with (CHR '','') (map pair_text [(''u'', ''admin''), (''x'', ''a=b''), (''m'', ''publish'')]))) \<and>
   field_of (fst (ParseStreamID (streamIDPrefix @ join_with (CHR '','') (map pair_text [(''u'', ''admin''), (''x'', ''a=b''), (''m'', ''publish'')])))) ''x''
     = Some ''a=b'' \<and>
   ParseStreamID ''live/stream'' = (zero_StreamIDInfo\<lparr>ResourceName := ''live/stream''\<rparr>, True)"
  using ParseStreamID_pairs [of "[(''u'', ''admin''), (''x'', ''a=b''), (''m'', ''publish'')]" "''x''" "''live/stream''"]
  by (simp add: streamIDPrefix_def)

end
