(* ===== verification/Go_Float.thy ===== *)
theory Go_Float
  imports Complex_Main "HOL-Library.Log_Nat"
begin

text \<open>
  Go's \<^verbatim>\<open>float64\<close> arithmetic on the range the program uses (no overflow, no subnormal numbers, no
  NaN): a value is the rational number it stands for, and every operation rounds the exact result
  to 53 significant bits, ties to even. The functions of package \<^verbatim>\<open>math\<close> the program calls are given on
  these values. Fused multiply-add, which Go permits on some processors, is not modelled.
\<close>

type_synonym f64 = rat

section \<open>Rounding\<close>

definition pow2 :: "int \<Rightarrow> rat" where
  "pow2 k = (if 0 \<le> k then 2 ^ nat k else 1 / 2 ^ nat (- k))"

text \<open>The exponent of the leading bit of a positive number.\<close>

definition ilog2 :: "rat \<Rightarrow> int" where
  "ilog2 x = (case quotient_of x of (p, q) \<Rightarrow>
     let k = bitlen p - bitlen q in if pow2 k \<le> x then k else k - 1)"

definition round_even :: "rat \<Rightarrow> int" where
  "round_even x =
     (let n = \<lfloor>x\<rfloor>; r = x - of_int n in
      if r < 1 / 2 then n else if r > 1 / 2 then n + 1 else if even n then n else n + 1)"

definition f64 :: "rat \<Rightarrow> f64" where
  "f64 x = (if x = 0 then 0 else let u = pow2 (ilog2 \<bar>x\<bar> - 52) in of_int (round_even (x / u)) * u)"

section \<open>Operations\<close>

definition fadd :: "f64 \<Rightarrow> f64 \<Rightarrow> f64" where "fadd x y = f64 (x + y)"
definition fsub :: "f64 \<Rightarrow> f64 \<Rightarrow> f64" where "fsub x y = f64 (x - y)"
definition fmul :: "f64 \<Rightarrow> f64 \<Rightarrow> f64" where "fmul x y = f64 (x * y)"
definition fdiv :: "f64 \<Rightarrow> f64 \<Rightarrow> f64" where "fdiv x y = f64 (x / y)"

text \<open>The conversion \<^verbatim>\<open>float64(n)\<close> of an integer, and \<^verbatim>\<open>int64(x)\<close>, which drops the fraction.\<close>

definition f_of_int :: "int \<Rightarrow> f64" where "f_of_int n = f64 (of_int n)"

definition f_to_int :: "f64 \<Rightarrow> int" where
  "f_to_int x = (if 0 \<le> x then \<lfloor>x\<rfloor> else - \<lfloor>- x\<rfloor>)"

definition math_Ceil :: "f64 \<Rightarrow> f64" where "math_Ceil x = of_int \<lceil>x\<rceil>"

text \<open>
  \<^verbatim>\<open>math.Ceil(math.Log10(x))\<close> for positive \<open>x\<close>, the least \<open>k\<close> with \<open>x \<le> 10\<^sup>k\<close>, taking the logarithm
  to be exact at powers of ten; and \<^verbatim>\<open>math.Pow(10, k)\<close> for an integer \<open>k\<close>.
\<close>

definition ceil_log10 :: "f64 \<Rightarrow> int" where
  "ceil_log10 x =
     (if 1 \<le> x then int (floorlog 10 (nat (\<lceil>x\<rceil> - 1))) else 1 - int (floorlog 10 (nat \<lfloor>1 / x\<rfloor>)))"

definition pow10 :: "int \<Rightarrow> f64" where
  "pow10 k = f64 (if 0 \<le> k then 10 ^ nat k else 1 / 10 ^ nat (- k))"

lemmas f_ops = fadd_def fsub_def fmul_def fdiv_def

section \<open>Rounding keeps the sign, and keeps integers below $2^{53}$\<close>

lemma pow2_pos [simp]: "0 < pow2 k"
  by (simp add: pow2_def)

lemma pow2_add: "pow2 (j + k) = pow2 j * pow2 k"
proof -
  have eq: "pow2 i = (of_nat 2 :: rat) powi i" for i
    by (simp add: pow2_def power_int_def inverse_eq_divide power_one_over)
  show ?thesis unfolding eq by (rule power_int_add) simp
qed

lemma pow2_nat [simp]: "pow2 (int n) = 2 ^ n"
  by (simp add: pow2_def)

lemma bitlen_bounds_rat:
  assumes "0 < (p::int)"
  shows "pow2 (bitlen p - 1) \<le> of_int p" and "of_int p < pow2 (bitlen p)"
proof -
  have b: "2 ^ nat (bitlen p - 1) \<le> p" "p < 2 ^ nat (bitlen p)" using bitlen_bounds [OF assms] by simp_all
  have n: "0 < bitlen p"
  proof (rule ccontr)
    assume "\<not> 0 < bitlen p"
    then show False using b(2) assms by simp
  qed
  have "(of_int (2 ^ nat (bitlen p - 1)) :: rat) \<le> of_int p" using b(1) by (simp only: of_int_le_iff)
  then show "pow2 (bitlen p - 1) \<le> of_int p" using n by (simp add: pow2_def)
  have "(of_int p :: rat) < of_int (2 ^ nat (bitlen p))" using b(2) by (simp only: of_int_less_iff)
  then show "of_int p < pow2 (bitlen p)" using n by (simp add: pow2_def)
qed

lemma ilog2_le: "0 < x \<Longrightarrow> pow2 (ilog2 x) \<le> x"
proof -
  assume x: "0 < x"
  obtain p q where pq: "quotient_of x = (p, q)" by fastforce
  have q: "0 < q" by (rule quotient_of_denom_pos [OF pq])
  have xe: "x = of_int p / of_int q" by (rule quotient_of_div [OF pq])
  then have p: "0 < p" using x q by (simp add: zero_less_divide_iff)
  let ?k = "bitlen p - bitlen q"
  have "pow2 (?k - 1) * of_int q \<le> pow2 (?k - 1) * pow2 (bitlen q)"
    using bitlen_bounds_rat(2) [OF q] by (simp add: mult_left_mono less_imp_le)
  also have "\<dots> = pow2 (bitlen p - 1)" by (simp flip: pow2_add)
  also have "\<dots> \<le> of_int p" by (rule bitlen_bounds_rat(1) [OF p])
  finally have "pow2 (?k - 1) \<le> x" using q by (simp add: xe pos_le_divide_eq)
  then show ?thesis by (simp add: ilog2_def pq Let_def)
qed

lemma round_even_mono_nat: "of_int n \<le> x \<Longrightarrow> n \<le> round_even x"
proof -
  assume "of_int n \<le> x"
  then have "n \<le> \<lfloor>x\<rfloor>" by (simp add: le_floor_iff)
  moreover have "\<lfloor>x\<rfloor> \<le> round_even x" by (simp add: round_even_def Let_def)
  ultimately show ?thesis by simp
qed

lemma round_even_int [simp]: "round_even (of_int n) = n"
  by (simp add: round_even_def)

lemma f64_pos: "0 < x \<Longrightarrow> 0 < f64 x"
proof -
  assume x: "0 < x"
  let ?u = "pow2 (ilog2 x - 52)"
  have "2 ^ 52 * ?u = pow2 (ilog2 x)" using pow2_add [of 52 "ilog2 x - 52"] pow2_nat [of 52] by simp
  then have "2 ^ 52 * ?u \<le> x" using ilog2_le [OF x] by simp
  then have "of_int 1 * ?u \<le> x" by (rule order_trans [rotated]) simp
  then have "1 \<le> round_even (x / ?u)" by (intro round_even_mono_nat) (simp add: pos_le_divide_eq)
  then have "0 < (of_int (round_even (x / ?u)) :: rat)" by simp
  then have "0 < of_int (round_even (x / ?u)) * ?u" by (rule mult_pos_pos) simp
  then show ?thesis using x by (simp add: f64_def Let_def)
qed

lemma f64_0 [simp]: "f64 0 = 0"
  by (simp add: f64_def)

lemma f64_nonneg: "0 \<le> x \<Longrightarrow> 0 \<le> f64 x"
  using f64_pos [of x] by (cases "x = 0") auto

lemma f_pos:
  "0 < x \<Longrightarrow> 0 < y \<Longrightarrow> 0 < fadd x y" "0 < x \<Longrightarrow> 0 < y \<Longrightarrow> 0 < fmul x y"
  "0 < x \<Longrightarrow> 0 < y \<Longrightarrow> 0 < fdiv x y" "0 < n \<Longrightarrow> 0 < f_of_int n"
  by (simp_all add: f_ops f_of_int_def f64_pos)

lemma f_nonneg:
  "0 \<le> x \<Longrightarrow> 0 \<le> y \<Longrightarrow> 0 \<le> fadd x y" "0 \<le> x \<Longrightarrow> 0 \<le> y \<Longrightarrow> 0 \<le> fmul x y"
  "0 \<le> x \<Longrightarrow> 0 \<le> y \<Longrightarrow> 0 \<le> fdiv x y" "0 \<le> n \<Longrightarrow> 0 \<le> f_of_int n"
  by (simp_all add: f_ops f_of_int_def f64_nonneg)

lemma pow10_pos: "0 < pow10 k"
  by (simp add: pow10_def f64_pos)

lemma math_Ceil_ge: "x \<le> math_Ceil x"
  by (simp add: math_Ceil_def)

end
