(* ===== verification/Clock.thy ===== *)
theory Clock
  imports Srt_Prelude
begin

text \<open>
  The time types of \<^verbatim>\<open>internal/clock/timestamp.go\<close> and the mock clock of \<^verbatim>\<open>internal/clock/clock.go\<close>.
  Go's \<^verbatim>\<open>int64\<close> microsecond values are integers (a connection that overflows them runs for 292000
  years); the 32-bit wire timestamp is a word, so its wrap-around is part of the model.
\<close>

type_synonym Microseconds = int
type_synonym Timestamp = int

section \<open>Durations and timestamps\<close>

definition Millisecond :: Microseconds where "Millisecond = 1000"

definition Second :: Microseconds where "Second = 1000 * Millisecond"

definition Minute :: Microseconds where "Minute = 60 * Second"

definition Microseconds_Duration :: "Microseconds \<Rightarrow> int" where
  "Microseconds_Duration d = d * 1000"

definition FromDuration :: "int \<Rightarrow> Microseconds" where
  "FromDuration d = go_div d 1000"

definition Microseconds_Abs :: "Microseconds \<Rightarrow> Microseconds" where
  "Microseconds_Abs d = (if d < 0 then - d else d)"

definition Timestamp_Add :: "Timestamp \<Rightarrow> Microseconds \<Rightarrow> Timestamp" where
  "Timestamp_Add t d = t + d"

definition Timestamp_Sub :: "Timestamp \<Rightarrow> Timestamp \<Rightarrow> Microseconds" where
  "Timestamp_Sub t other = t - other"

definition Before :: "Timestamp \<Rightarrow> Timestamp \<Rightarrow> bool" where
  "Before t other = (t < other)"

definition After :: "Timestamp \<Rightarrow> Timestamp \<Rightarrow> bool" where
  "After t other = (t > other)"

definition IsZero :: "Timestamp \<Rightarrow> bool" where
  "IsZero t = (t = 0)"

definition SRTTimestamp :: "Timestamp \<Rightarrow> u32" where
  "SRTTimestamp t = word_of_int t"

definition srtTimestampWrapPeriod :: Microseconds where
  "srtTimestampWrapPeriod = 4294967296"

definition SRTTimestampWrapPeriod :: Microseconds where
  "SRTTimestampWrapPeriod = srtTimestampWrapPeriod"

definition FromSRTTimestamp :: "u32 \<Rightarrow> Timestamp \<Rightarrow> Timestamp" where
  "FromSRTTimestamp srtTS reference =
     (let refLow = (word_of_int reference :: u32);
          base = reference - uint refLow;
          candidate = base + uint srtTS;
          diff = Timestamp_Sub candidate reference in
      if diff > go_div srtTimestampWrapPeriod 2
        then base - srtTimestampWrapPeriod + uint srtTS
      else if diff < go_div (- srtTimestampWrapPeriod) 2
        then base + srtTimestampWrapPeriod + uint srtTS
      else candidate)"

section \<open>The mock clock\<close>

record MockClock =
  mock_now :: Timestamp

definition NewMockClock :: MockClock where
  "NewMockClock = \<lparr>mock_now = 0\<rparr>"

definition MockClock_Now :: "MockClock \<Rightarrow> Timestamp" where
  "MockClock_Now c = mock_now c"

definition MockClock_Set :: "MockClock \<Rightarrow> Timestamp \<Rightarrow> MockClock" where
  "MockClock_Set c t = c\<lparr>mock_now := t\<rparr>"

definition MockClock_Advance :: "MockClock \<Rightarrow> Microseconds \<Rightarrow> MockClock" where
  "MockClock_Advance c d = c\<lparr>mock_now := Timestamp_Add (mock_now c) d\<rparr>"

lemmas clock_defs = Timestamp_Add_def Timestamp_Sub_def Before_def After_def IsZero_def
  Microseconds_Abs_def srtTimestampWrapPeriod_def SRTTimestampWrapPeriod_def
  Millisecond_def Second_def Minute_def

section \<open>Reconstruction of wire timestamps\<close>

lemma uint_u32_bounds: "0 \<le> uint (w :: u32)" "uint (w :: u32) < 4294967296"
  using unsigned_less [of w, where ?'a = int] by simp_all

lemma uint_SRTTimestamp: "uint (SRTTimestamp t) = t mod 2 ^ 32"
  by (simp add: SRTTimestamp_def uint_word_of_int)

lemma FromSRTTimestamp_eq:
  "FromSRTTimestamp w r =
     (let c = r - r mod 4294967296 + uint w in
      if c - r > 2147483648 then c - 4294967296
      else if c - r < - 2147483648 then c + 4294967296 else c)"
  by (simp add: FromSRTTimestamp_def clock_defs go_div_def uint_word_of_int Let_def)

text \<open>The reconstruction always lies within half a period of the reference and has the given low bits.\<close>

lemma FromSRTTimestamp_near: "\<bar>FromSRTTimestamp w r - r\<bar> \<le> 2147483648"
proof -
  define m where "m = r mod 4294967296"
  define u where "u = uint w"
  have "0 \<le> m" "m < 4294967296" "0 \<le> u" "u < 4294967296"
    using uint_u32_bounds [of w] by (simp_all add: m_def u_def)
  then show ?thesis
    by (auto simp: FromSRTTimestamp_eq Let_def m_def [symmetric] u_def [symmetric] abs_if)
qed

lemma FromSRTTimestamp_low: "SRTTimestamp (FromSRTTimestamp w r) = w"
proof -
  define q where "q = r - r mod 4294967296"
  have q: "q mod 4294967296 = 0" by (simp add: q_def)
  have w: "uint w mod 4294967296 = uint w" using uint_u32_bounds [of w] by simp
  have "FromSRTTimestamp w r mod 4294967296 = uint w"
    using q w unfolding FromSRTTimestamp_eq q_def [symmetric] Let_def
    by (auto simp: mod_add_eq [of q, symmetric] mod_diff_left_eq [symmetric])
  then show ?thesis by (simp add: word_uint_eq_iff uint_SRTTimestamp)
qed

text \<open>
  C4. A wire timestamp is reconstructed exactly: if the receiver's reference is less than half a wrap
  period away from the full timestamp, \<^verbatim>\<open>FromSRTTimestamp\<close> undoes \<^verbatim>\<open>SRTTimestamp\<close>, however often
  the 32-bit counter has wrapped.
\<close>

theorem FromSRTTimestamp_inverse:
  assumes "\<bar>t - reference\<bar> < 2 ^ 31"
  shows "FromSRTTimestamp (SRTTimestamp t) reference = t"
proof -
  have "FromSRTTimestamp (SRTTimestamp t) reference mod 2 ^ 32 = t mod 2 ^ 32"
    using FromSRTTimestamp_low [of "SRTTimestamp t" reference] by (metis uint_SRTTimestamp)
  then obtain k where k: "FromSRTTimestamp (SRTTimestamp t) reference - t = 4294967296 * k"
    by (auto simp: mod_eq_dvd_iff dvd_def)
  moreover have "\<bar>FromSRTTimestamp (SRTTimestamp t) reference - t\<bar> < 4294967296"
    using FromSRTTimestamp_near [of "SRTTimestamp t" reference] assms by simp
  ultimately have "k = 0" by simp
  with k show ?thesis by simp
qed

theorem FromSRTTimestamp_inverse_witness:
  "FromSRTTimestamp (SRTTimestamp 8589934600) 8589934590 = 8589934600"
  by (rule FromSRTTimestamp_inverse) simp

end
