(* ===== verification/Seq.thy ===== *)
theory Seq
  imports Srt_Prelude
begin

text \<open>
  The 31-bit wrapping sequence numbers of \<^verbatim>\<open>internal/seq/seq.go\<close>. A \<^verbatim>\<open>Number\<close> is a \<^verbatim>\<open>uint32\<close> that is
  meant to stay below $2^{31}$; the operations are transcribed on 32-bit words, so their behaviour on
  the values above \<open>Max\<close> that can arrive from the wire is part of the model. The lemmas relate them to
  the offset \<open>seq_off a b\<close>, the number of steps from \<open>a\<close> forward to \<open>b\<close> on the circle of $2^{31}$
  numbers, in which the buffers' proofs are carried out.
\<close>

type_synonym Number = u32

section \<open>Operations\<close>

definition Max :: Number where "Max = 0x7FFFFFFF"

definition Threshold :: Number where "Threshold = 0x3FFFFFFF"

definition Value :: "Number \<Rightarrow> u32" where "Value a = a"

definition Inc :: "Number \<Rightarrow> Number" where
  "Inc a = (if a \<ge> Max then 0 else a + 1)"

definition Dec :: "Number \<Rightarrow> Number" where
  "Dec a = (if a = 0 then Max else a - 1)"

definition Add :: "Number \<Rightarrow> u32 \<Rightarrow> Number" where
  "Add a n = (let sum = a + n in if sum > Max then sum - (Max + 1) else sum)"

definition Sub :: "Number \<Rightarrow> u32 \<Rightarrow> Number" where
  "Sub a n = (if a \<ge> n then a - n else Max + 1 - (n - a))"

text \<open>\<^verbatim>\<open>Distance\<close> returns an \<^verbatim>\<open>int32\<close>: the unsigned differences are converted with \<open>sint\<close>.\<close>

definition Distance :: "Number \<Rightarrow> Number \<Rightarrow> int" where
  "Distance a b =
     (if a = b then 0
      else let d = (if b > a then b - a else a - b) in
        if d \<le> Threshold then (if b > a then sint d else sint (- d))
        else let wrapped = Max - d + 1 in
          if b > a then sint (- wrapped) else sint wrapped)"

definition LessThan :: "Number \<Rightarrow> Number \<Rightarrow> bool" where
  "LessThan a b =
     (if a = b then False
      else let (d, aLessNumerically) = (if a > b then (a - b, False) else (b - a, True)) in
        if d \<le> Threshold then aLessNumerically else \<not> aLessNumerically)"

definition LessThanOrEqual :: "Number \<Rightarrow> Number \<Rightarrow> bool" where
  "LessThanOrEqual a b = (a = b \<or> LessThan a b)"

definition GreaterThan :: "Number \<Rightarrow> Number \<Rightarrow> bool" where
  "GreaterThan a b = (if a = b then False else \<not> LessThan a b)"

definition GreaterThanOrEqual :: "Number \<Rightarrow> Number \<Rightarrow> bool" where
  "GreaterThanOrEqual a b = (a = b \<or> GreaterThan a b)"

section \<open>Valid numbers and offsets\<close>

text \<open>\<open>M31\<close> numbers sit on the circle; \<open>seq_off a b\<close> counts the steps from \<open>a\<close> forward to \<open>b\<close>.\<close>

abbreviation M31 :: nat where "M31 \<equiv> 2147483648"

abbreviation H31 :: nat where "H31 \<equiv> 1073741824"

definition valid_seq :: "Number \<Rightarrow> bool" where
  "valid_seq a \<longleftrightarrow> unat a < M31"

definition seq_off :: "Number \<Rightarrow> Number \<Rightarrow> nat" where
  "seq_off a b = (unat b + M31 - unat a) mod M31"

text \<open>\<open>seq_nth a k\<close> is the number \<open>k\<close> steps after \<open>a\<close>.\<close>

definition seq_nth :: "Number \<Rightarrow> nat \<Rightarrow> Number" where
  "seq_nth a k = of_nat ((unat a + k) mod M31)"

text \<open>
  The loops of the buffers run \<^verbatim>\<open>for s.LessThan(a) { s = s.Inc() }\<close>. The measure \<open>seq_lag\<close> bounds
  their length for every pair of 32-bit values, also those outside the 31-bit range.
\<close>

definition seq_lag :: "Number \<Rightarrow> Number \<Rightarrow> nat" where
  "seq_lag s a =
     (if \<not> LessThan s a then 0
      else if \<not> valid_seq s then M31 + 1
      else if valid_seq a then seq_off s a
      else unat a - unat s)"

lemma unat_seq_consts [simp]: "unat Max = M31 - 1" "unat Threshold = H31 - 1"
  by (simp_all add: Max_def Threshold_def)

lemma valid_seq_le_Max: "valid_seq a \<longleftrightarrow> a \<le> Max"
  by (simp add: valid_seq_def word_le_nat_alt) arith

lemma seq_eqI: "unat a = unat b \<Longrightarrow> a = (b :: u32)"
  by (simp add: word_unat_eq_iff)

lemma unat_of_nat_M31 [simp]: "k < M31 \<Longrightarrow> unat (of_nat k :: u32) = k"
  by (simp add: unat_of_nat)

lemma unat_seq_nth [simp]: "unat (seq_nth a k) = (unat a + k) mod M31"
  by (simp add: seq_nth_def)

lemma valid_seq_nth [simp, intro]: "valid_seq (seq_nth a k)"
  by (simp add: valid_seq_def)

lemma seq_off_lt [simp]: "seq_off a b < M31"
  by (simp add: seq_off_def)

lemma seq_off_self [simp]: "seq_off a a = 0"
  by (simp add: seq_off_def)

lemma seq_nth_0 [simp]: "valid_seq a \<Longrightarrow> seq_nth a 0 = a"
  by (simp add: seq_nth_def valid_seq_def)

lemma seq_nth_off [simp]:
  assumes "valid_seq a" "valid_seq b"
  shows "seq_nth a (seq_off a b) = b"
proof (rule seq_eqI)
  have "unat (seq_nth a (seq_off a b)) = (unat a + (unat b + M31 - unat a)) mod M31"
    by (simp add: seq_off_def mod_add_right_eq)
  also have "unat a + (unat b + M31 - unat a) = unat b + M31"
    using assms(1) by (simp add: valid_seq_def)
  finally show "unat (seq_nth a (seq_off a b)) = unat b"
    using assms(2) by (simp add: valid_seq_def)
qed

lemma seq_off_nth: 
  assumes "valid_seq a"
  shows "seq_off a (seq_nth a k) = k mod M31"
proof -
  have "(unat a + k) mod M31 + M31 - unat a = (unat a + k) mod M31 + (M31 - unat a)"
    using assms by (simp add: valid_seq_def)
  then have "seq_off a (seq_nth a k) = (unat a + k + (M31 - unat a)) mod M31"
    by (simp add: seq_off_def mod_add_left_eq)
  also have "unat a + k + (M31 - unat a) = k + M31"
    using assms by (simp add: valid_seq_def)
  finally show ?thesis by simp
qed

lemma seq_off_nth_lt [simp, seq_simps]: "valid_seq a \<Longrightarrow> k < M31 \<Longrightarrow> seq_off a (seq_nth a k) = k"
  by (simp add: seq_off_nth)

lemma seq_nth_nth [simp, seq_simps]: "seq_nth (seq_nth a j) k = seq_nth a (j + k)"
  by (rule seq_eqI) (simp add: mod_add_left_eq add.assoc)

lemma seq_nth_eq_iff:
  "valid_seq a \<Longrightarrow> j < M31 \<Longrightarrow> k < M31 \<Longrightarrow> seq_nth a j = seq_nth a k \<longleftrightarrow> j = k"
  by (metis seq_off_nth_lt)

lemma seq_off_eq_0_iff: "valid_seq a \<Longrightarrow> valid_seq b \<Longrightarrow> seq_off a b = 0 \<longleftrightarrow> a = b"
  by (metis seq_nth_0 seq_nth_off seq_off_self)

lemma seq_off_cases:
  "valid_seq a \<Longrightarrow> valid_seq b \<Longrightarrow>
   seq_off a b = (if a \<le> b then unat b - unat a else M31 + unat b - unat a)"
  by (auto simp: seq_off_def valid_seq_def word_le_nat_alt mod_if)

lemma seq_off_swap:
  "valid_seq a \<Longrightarrow> valid_seq b \<Longrightarrow> a \<noteq> b \<Longrightarrow> seq_off b a = M31 - seq_off a b"
  by (auto simp: seq_off_cases valid_seq_def word_le_nat_alt word_unat_eq_iff)

section \<open>The operations as steps on the circle\<close>

lemma valid_Inc [simp, intro]: "valid_seq (Inc a)"
  by (auto simp: Inc_def valid_seq_le_Max not_le inc_le)

lemma unat_u32_lt: "unat (a::u32) < 4294967296"
  using unsigned_less [of a] by simp

lemma unat_plus_lt: "unat a + unat b < 4294967296 \<Longrightarrow> unat (a + b :: u32) = unat a + unat b"
  by (simp add: unat_word_ariths)

lemma Inc_eq_nth: "valid_seq a \<Longrightarrow> Inc a = seq_nth a 1"
  by (rule seq_eqI)
    (cases "a = Max"; auto simp: Inc_def valid_seq_def word_le_nat_alt unat_plus_lt word_unat_eq_iff)

lemma sint_minus_small: "unat d \<le> M31 \<Longrightarrow> sint (- d :: u32) = - int (unat d)"
proof -
  assume d: "unat d \<le> M31"
  then have "int (unat d) \<le> int M31" by (simp only: zle_int)
  then have u: "uint d \<le> 2147483648" by simp
  have "- d = word_of_int (- uint d)" by simp
  then have "sint (- d) = signed_take_bit 31 (- uint d)"
    by (simp only: signed_of_int) simp
  also have "\<dots> = - uint d"
    by (rule signed_take_bit_int_eq_self) (use u in \<open>simp_all add: le_less_trans [of _ 0]\<close>)
  finally show ?thesis by simp
qed

lemma unat_minus_le: "unat b \<le> unat (a::u32) \<Longrightarrow> unat (a - b) = unat a - unat b"
  by (simp add: unat_sub word_le_nat_alt)

lemma seq_off_nat:
  "valid_seq a \<Longrightarrow> valid_seq b \<Longrightarrow>
   seq_off a b = (if unat a \<le> unat b then unat b - unat a else M31 + unat b - unat a)"
  by (simp add: seq_off_cases word_le_nat_alt)

lemma sint_small: "unat d < M31 \<Longrightarrow> sint (d :: u32) = int (unat d)"
proof -
  assume d: "unat d < M31"
  then have "int (unat d) < int M31" by (simp only: of_nat_less_iff)
  then have u: "uint d < 2147483648" by simp
  have "sint d = signed_take_bit 31 (uint d)" by (simp add: sint_uint)
  also have "\<dots> = uint d"
    by (rule signed_take_bit_int_eq_self) (use u in \<open>simp_all add: order_trans [of _ 0]\<close>)
  finally show ?thesis by simp
qed

lemma LessThan_nat:
  "LessThan a b \<longleftrightarrow> (if unat a < unat b then unat b - unat a \<le> 1073741823
     else unat b < unat a \<and> 1073741823 < unat a - unat b)"
  by (auto simp: LessThan_def word_le_nat_alt word_less_nat_alt unat_minus_le word_unat_eq_iff)

lemma LessThan_iff:
  "valid_seq a \<Longrightarrow> valid_seq b \<Longrightarrow>
   LessThan a b \<longleftrightarrow> 0 < seq_off a b \<and> (seq_off a b < H31 \<or> seq_off a b = H31 \<and> unat b < unat a)"
  by (auto simp: LessThan_nat seq_off_nat valid_seq_def)

lemma Dec_eq_nth: "valid_seq a \<Longrightarrow> Dec a = seq_nth a (M31 - 1)"
proof (rule seq_eqI)
  assume a: "valid_seq a"
  show "unat (Dec a) = unat (seq_nth a (M31 - 1))"
  proof (cases "a = 0")
    case False
    then have p: "0 < unat a" by (simp add: unat_gt_0)
    then have "unat a + (M31 - 1) = unat a - 1 + M31" by simp
    then have "(unat a + (M31 - 1)) mod M31 = unat a - 1"
      using a p by (simp only: mod_add_self2) (simp add: valid_seq_def)
    with p False show ?thesis
      by (simp add: Dec_def unat_minus_le)
  qed (simp add: Dec_def)
qed

lemma unat_Add: "unat (Add a n) = (unat a + unat n) mod M31"
proof -
  define s where "s = a + n"
  have "unat s mod M31 = (unat a + unat n) mod M31"
    by (simp add: s_def unat_word_ariths mod_mod_cancel)
  moreover have "unat (if s > Max then s - (Max + 1) else s) = unat s mod M31"
    using unat_u32_lt [of s]
    by (auto simp: word_less_nat_alt unat_minus_le Max_def le_mod_geq)
  ultimately show ?thesis by (simp add: Add_def s_def [symmetric] Let_def)
qed

lemma valid_Add [simp, intro]: "valid_seq (Add a n)"
  by (simp add: valid_seq_def unat_Add)

lemma Add_eq_nth: "Add a n = seq_nth a (unat n)"
  by (rule seq_eqI) (simp add: unat_Add)

lemma Sub_eq_nth:
  assumes "valid_seq a" "unat n \<le> M31"
  shows "Sub a n = seq_nth a (M31 - unat n)"
proof (rule seq_eqI)
  have M: "unat (Max + 1) = M31" by (simp add: Max_def)
  show "unat (Sub a n) = unat (seq_nth a (M31 - unat n))"
  proof (cases "unat n \<le> unat a")
    case True
    then have "unat a + (M31 - unat n) = unat a - unat n + M31" using assms by simp
    then have "(unat a + (M31 - unat n)) mod M31 = unat a - unat n"
      using assms by (simp only: mod_add_self2) (simp add: valid_seq_def)
    with True show ?thesis by (simp add: Sub_def word_le_nat_alt unat_minus_le)
  next
    case False
    then have "unat (Max + 1 - (n - a)) = M31 - (unat n - unat a)"
      using assms by (simp add: unat_minus_le M)
    with False assms show ?thesis by (simp add: Sub_def word_le_nat_alt)
  qed
qed

lemma unat_wrapped: "unat d \<le> 2147483647 \<Longrightarrow> unat (Max - d + 1) = M31 - unat d"
  by (simp add: unat_plus_lt unat_minus_le)

lemma Distance_eq:
  assumes a: "valid_seq a" and b: "valid_seq b"
  shows "Distance a b =
     (if a = b then 0 else if LessThan a b then int (seq_off a b) else int (seq_off a b) - int M31)"
proof -
  consider "a = b" | "unat a < unat b" | "unat b < unat a"
    by (metis nat_neq_iff word_unat_eq_iff)
  then show ?thesis
  proof cases
    case 2
    define w where "w = Max - (b - a) + 1"
    have d: "unat (b - a) = unat b - unat a" using 2 by (simp add: unat_minus_le)
    have w: "unat w = M31 - (unat b - unat a)"
      using b by (simp add: w_def d unat_wrapped valid_seq_def)
    have D: "Distance a b = (if unat b - unat a \<le> 1073741823 then sint (b - a) else sint (- w))"
      using 2 by (simp add: Distance_def Let_def w_def d word_less_nat_alt word_le_nat_alt
          word_unat_eq_iff)
    show ?thesis
      using 2 a b w
      by (simp add: D sint_small sint_minus_small d LessThan_nat seq_off_nat valid_seq_def
          of_nat_diff word_unat_eq_iff del: of_nat_unat)
  next
    case 3
    define w where "w = Max - (a - b) + 1"
    have d: "unat (a - b) = unat a - unat b" using 3 by (simp add: unat_minus_le)
    have w: "unat w = M31 - (unat a - unat b)"
      using a by (simp add: w_def d unat_wrapped valid_seq_def)
    have D: "Distance a b = (if unat a - unat b \<le> 1073741823 then sint (- (a - b)) else sint w)"
      using 3 by (simp add: Distance_def Let_def w_def d word_less_nat_alt word_le_nat_alt
          word_unat_eq_iff)
    have m: "unat a - unat b \<le> 1073741823 \<Longrightarrow> sint (- (a - b)) = - int (unat a - unat b)"
      by (simp only: sint_minus_small d) 
    show ?thesis
      using 3 a b w
      by (simp add: D sint_small m LessThan_nat seq_off_nat valid_seq_def
          of_nat_diff word_unat_eq_iff del: of_nat_unat minus_diff_eq)
  qed (simp add: Distance_def)
qed

lemma LessThan_irrefl [simp]: "\<not> LessThan a a"
  by (simp add: LessThan_def)

lemma GreaterThan_iff [simp]: "GreaterThan a b \<longleftrightarrow> LessThan b a"
  by (auto simp: GreaterThan_def LessThan_nat word_unat_eq_iff)

lemma LessThan_asym: "LessThan a b \<Longrightarrow> \<not> LessThan b a"
  by (auto simp: LessThan_nat split: if_splits)

lemma LessThan_linear: "LessThan a b \<or> a = b \<or> LessThan b a"
  by (auto simp: LessThan_nat word_unat_eq_iff)

lemma seq_off_nth_nth:
  assumes "valid_seq a" "j < M31" "k < M31"
  shows "seq_off (seq_nth a j) (seq_nth a k) = (if j \<le> k then k - j else M31 + k - j)"
proof (cases "j \<le> k")
  case True
  then have "seq_nth a k = seq_nth (seq_nth a j) (k - j)" by simp
  with True assms show ?thesis by (simp only: seq_off_nth_lt valid_seq_nth) (simp add: seq_off_nth_lt)
next
  case False
  have "seq_nth a k = seq_nth a (k + M31)" by (rule seq_eqI) (simp add: add.assoc [symmetric])
  also have "\<dots> = seq_nth (seq_nth a j) (M31 + k - j)" using False assms by (simp add: add.commute)
  finally show ?thesis using False assms by (simp only: seq_off_nth valid_seq_nth) simp
qed

lemma LessThan_window [seq_simps]:
  "valid_seq a \<Longrightarrow> j < H31 \<Longrightarrow> k < H31 \<Longrightarrow> LessThan (seq_nth a j) (seq_nth a k) \<longleftrightarrow> j < k"
  by (auto simp: LessThan_iff seq_off_nth_nth simp del: unat_seq_nth)

lemma LessThan_off_lt: "valid_seq a \<Longrightarrow> valid_seq b \<Longrightarrow> seq_off a b < H31 \<Longrightarrow> LessThan a b \<longleftrightarrow> a \<noteq> b"
  by (auto simp: LessThan_iff seq_off_eq_0_iff neq0_conv [symmetric])

lemma seq_off_Inc_left:
  "valid_seq a \<Longrightarrow> valid_seq b \<Longrightarrow> a \<noteq> b \<Longrightarrow> seq_off (Inc a) b = seq_off a b - 1"
proof -
  assume a: "valid_seq a" and b: "valid_seq b" and ne: "a \<noteq> b"
  define k where "k = seq_off a b"
  have "0 < k" using a b ne by (simp add: k_def seq_off_eq_0_iff neq0_conv [symmetric])
  moreover have "k < M31" by (simp add: k_def)
  moreover have "b = seq_nth a k" using a b by (simp add: k_def)
  ultimately show "seq_off (Inc a) b = seq_off a b - 1"
    using a by (simp add: Inc_eq_nth seq_off_nth_nth [where j = 1, simplified])
qed

lemma seq_lag_less: "LessThan s a \<Longrightarrow> seq_lag (Inc s) a < seq_lag s a"
proof -
  assume l: "LessThan s a"
  then have ne: "s \<noteq> a" by auto
  consider "\<not> valid_seq s" | "valid_seq s" "valid_seq a" | "valid_seq s" "\<not> valid_seq a" by blast
  then show ?thesis
  proof cases
    case 1
    have "seq_lag (Inc s) a < M31 + 1"
      using unat_u32_lt [of a] by (auto simp: seq_lag_def LessThan_nat less_Suc_eq intro: less_trans)
    with 1 l show ?thesis by (simp add: seq_lag_def)
  next
    case 2
    then have "0 < seq_off s a" using ne by (simp add: seq_off_eq_0_iff neq0_conv [symmetric])
    with 2 l ne show ?thesis by (simp add: seq_lag_def seq_off_Inc_left)
  next
    case 3
    then show ?thesis using l
      by (cases "s = Max")
        (auto simp: seq_lag_def LessThan_nat Inc_def word_le_nat_alt valid_seq_def unat_plus_lt word_unat_eq_iff
         split: if_splits)
  qed
qed

lemma seq_nth_M31 [simp]: "seq_nth a (k + M31) = seq_nth a k"
  by (rule seq_eqI) (simp only: unat_seq_nth add.assoc [symmetric] mod_add_self2)

lemma LessThan_far_behind:
  "valid_seq a \<Longrightarrow> valid_seq b \<Longrightarrow> H31 < seq_off a b \<Longrightarrow> LessThan b a"
proof -
  assume a: "valid_seq a" and b: "valid_seq b" and k: "H31 < seq_off a b"
  then have ne: "a \<noteq> b" by auto
  have "seq_off b a = M31 - seq_off a b" using a b ne by (rule seq_off_swap)
  moreover have "seq_off a b < M31" by (rule seq_off_lt)
  ultimately have "0 < seq_off b a \<and> seq_off b a < H31" using k by linarith
  then show ?thesis using a b by (simp only: LessThan_iff) blast
qed

lemma window_outside:
  assumes a: "valid_seq a" and b: "valid_seq b" and n: "n < H31" and k: "H31 \<le> seq_off a b"
  shows "LessThan b a \<or> LessThanOrEqual (seq_nth a n) b"
proof (cases "H31 < seq_off a b")
  case True
  then show ?thesis using LessThan_far_behind a b by blast
next
  case False
  then have k': "seq_off a b = H31" using k by simp
  show ?thesis
  proof (cases "n = 0")
    case True
    then show ?thesis using LessThan_linear [of b a] a k' by (auto simp: LessThanOrEqual_def)
  next
    case n0: False
    have "seq_off (seq_nth a n) (seq_nth a H31) = H31 - n" using a n by (subst seq_off_nth_nth) simp_all
    then have o: "seq_off (seq_nth a n) b = H31 - n" using a b k' by (metis seq_nth_off)
    then have "seq_nth a n \<noteq> b" using n by auto
    then have "LessThan (seq_nth a n) b" using LessThan_off_lt [of "seq_nth a n" b] b o n n0 by simp
    then show ?thesis by (simp add: LessThanOrEqual_def)
  qed
qed

lemma seq_off_add:
  assumes "valid_seq a" "valid_seq b" "valid_seq c" "seq_off a b + seq_off b c < M31"
  shows "seq_off a c = seq_off a b + seq_off b c"
proof -
  have "c = seq_nth a (seq_off a b + seq_off b c)"
    using assms seq_nth_nth [of a "seq_off a b" "seq_off b c"] by simp
  then show ?thesis using assms seq_off_nth_lt by metis
qed

lemma LessThan_neq: "LessThan a b \<Longrightarrow> a \<noteq> b"
  by auto

lemma seq_nth_Dec: "0 < k \<Longrightarrow> Dec (seq_nth a k) = seq_nth a (k - 1)"
proof -
  assume "0 < k"
  then obtain j where j: "k = Suc j" by (cases k) auto
  have "Dec (seq_nth a k) = seq_nth a (k + (M31 - 1))" by (simp only: Dec_eq_nth [OF valid_seq_nth] seq_nth_nth)
  also have "k + (M31 - 1) = j + M31" by (simp add: j)
  also have "seq_nth a (j + M31) = seq_nth a j" by (rule seq_nth_M31)
  finally show ?thesis by (simp add: j)
qed

lemma Distance_window:
  assumes "valid_seq a" "j < H31" "k < H31"
  shows "Distance (seq_nth a j) (seq_nth a k) = int k - int j"
proof -
  have L: "LessThan (seq_nth a j) (seq_nth a k) \<longleftrightarrow> j < k" using assms by (rule LessThan_window)
  have "seq_nth a j = seq_nth a k \<longleftrightarrow> j = k" using assms by (simp add: seq_nth_eq_iff)
  moreover have "seq_off (seq_nth a j) (seq_nth a k) = (if j \<le> k then k - j else M31 + k - j)"
    using assms by (simp add: seq_off_nth_nth)
  ultimately show ?thesis using L assms by (auto simp: Distance_eq of_nat_diff)
qed

section \<open>Properties\<close>

text \<open>
  C1. On every window of $2^{30}$ consecutive numbers the wrap-aware comparison is the order of the
  positions in the window, wherever the window lies on the circle, and \<^verbatim>\<open>Distance\<close> is the signed
  difference of the positions.
\<close>

theorem seq_order_on_window:
  fixes base :: Number and j k :: u32
  assumes "j \<le> Threshold" and "k \<le> Threshold"
  shows "(LessThan (Add base j) (Add base k) \<longleftrightarrow> j < k) \<and>
         Distance (Add base j) (Add base k) = int (unat k) - int (unat j)"
proof -
  define b where "b = seq_nth base 0"
  have b: "valid_seq b" by (simp add: b_def)
  have jk: "unat j < H31" "unat k < H31" using assms by (simp_all add: word_le_nat_alt)
  have A: "Add base j = seq_nth b (unat j)" "Add base k = seq_nth b (unat k)"
    by (simp_all add: b_def Add_eq_nth)
  have L: "LessThan (Add base j) (Add base k) \<longleftrightarrow> unat j < unat k"
    unfolding A using b jk by (rule LessThan_window)
  have "Add base j = Add base k \<longleftrightarrow> unat j = unat k"
    unfolding A using b jk by (simp add: seq_nth_eq_iff)
  moreover have "seq_off (Add base j) (Add base k) =
      (if unat j \<le> unat k then unat k - unat j else M31 + unat k - unat j)"
    unfolding A using b jk by (simp add: seq_off_nth_nth)
  ultimately show ?thesis
    using L jk by (auto simp: Distance_eq of_nat_diff word_less_nat_alt simp del: of_nat_unat)
qed

theorem seq_order_on_window_witness:
  "LessThan (Add 0x7FFFFFFE 1) (Add 0x7FFFFFFE 5) \<and>
   Distance (Add 0x7FFFFFFE 1) (Add 0x7FFFFFFE 5) = 4"
  using seq_order_on_window [of 1 5 "0x7FFFFFFE"] by (simp add: Threshold_def)

text \<open>
  C2. Any two 32-bit values are related by exactly one of before, equal and after, and for valid
  numbers the sign of \<^verbatim>\<open>Distance\<close> says which, with a magnitude of at most $2^{30}$.
\<close>

theorem seq_trichotomy:
  "(LessThan a b \<or> a = b \<or> GreaterThan a b) \<and>
   \<not> (LessThan a b \<and> GreaterThan a b) \<and> \<not> (LessThan a b \<and> a = b) \<and>
   \<not> (GreaterThan a b \<and> a = b) \<and>
   (a \<le> Max \<and> b \<le> Max \<longrightarrow>
     (0 < Distance a b \<longleftrightarrow> LessThan a b) \<and> (Distance a b < 0 \<longleftrightarrow> GreaterThan a b) \<and>
     \<bar>Distance a b\<bar> \<le> 2 ^ 30)"
proof -
  have "0 < Distance a b \<longleftrightarrow> LessThan a b" if v: "valid_seq a" "valid_seq b"
    using seq_off_lt [of a b] v
    by (auto simp: Distance_eq LessThan_iff simp del: seq_off_lt)
  moreover have "Distance a b < 0 \<longleftrightarrow> GreaterThan a b" if v: "valid_seq a" "valid_seq b"
    using seq_off_lt [of a b] v LessThan_linear [of a b] LessThan_asym [of a b]
    by (auto simp: Distance_eq simp del: seq_off_lt)
  moreover have "\<bar>Distance a b\<bar> \<le> 2 ^ 30" if v: "valid_seq a" "valid_seq b"
    using seq_off_lt [of a b] v LessThan_linear [of a b]
    by (auto simp: Distance_eq LessThan_iff seq_off_eq_0_iff seq_off_swap [of a b] simp del: seq_off_lt)
  ultimately show ?thesis
    using LessThan_linear [of a b] LessThan_asym [of a b] by (auto simp: valid_seq_le_Max)
qed

theorem seq_trichotomy_witness:
  "LessThan Max 3 \<and> \<not> GreaterThan Max 3 \<and> 0 < Distance Max 3 \<and> \<bar>Distance Max 3\<bar> \<le> 2 ^ 30"
proof -
  have "LessThan Max 3" "Max \<le> Max" "3 \<le> Max" by (simp_all add: LessThan_def Max_def Threshold_def)
  then show ?thesis using seq_trichotomy [of Max 3] by blast
qed

text \<open>
  C3. \<^verbatim>\<open>Inc\<close> and \<^verbatim>\<open>Dec\<close> undo each other, \<^verbatim>\<open>Sub\<close> undoes \<^verbatim>\<open>Add\<close>, adding in two steps is adding the sum,
  and every result is again a 31-bit number.
\<close>

theorem seq_group_laws:
  assumes "a \<le> Max" and "n \<le> Max" and "m \<le> Max"
  shows "Dec (Inc a) = a \<and> Inc (Dec a) = a \<and> Sub (Add a n) n = a \<and> Add (Sub a n) n = a \<and>
         Add (Add a n) m = Add a (n + m) \<and> Inc a = Add a 1 \<and>
         Inc a \<le> Max \<and> Dec a \<le> Max \<and> Add a n \<le> Max \<and> Sub a n \<le> Max"
proof -
  have v: "valid_seq a" "valid_seq n" "valid_seq m" using assms by (simp_all add: valid_seq_le_Max)
  have full: "seq_nth a M31 = a" using v by (intro seq_eqI) (simp add: valid_seq_def)
  have n: "unat n \<le> M31" using v by (simp add: valid_seq_def)
  have "unat (n + m) = unat n + unat m" using v by (simp add: unat_plus_lt valid_seq_def)
  then have "Add (Add a n) m = Add a (n + m)" by (simp add: Add_eq_nth)
  with v n full show ?thesis
    by (simp add: Add_eq_nth Sub_eq_nth Inc_eq_nth Dec_eq_nth valid_seq_le_Max [symmetric])
qed

theorem seq_group_laws_witness: "Dec (Inc Max) = Max \<and> Sub (Add Max 7) 7 = Max"
proof -
  have "Max \<le> Max" "7 \<le> Max" by (simp_all add: Max_def)
  then show ?thesis using seq_group_laws [of Max 7 7] by blast
qed

end
