(* ===== verification/Packet_Wire.thy ===== *)
theory Packet_Wire
  imports Seq
begin

text \<open>
  The packets of \<^verbatim>\<open>internal/packet\<close>: the 16-byte header (\<^verbatim>\<open>header.go\<close>), the packet with its payload
  (\<^verbatim>\<open>packet.go\<close>, \<^verbatim>\<open>owned.go\<close>) and the ACK, NAK, shutdown and drop-request control information fields.
  A method that fills its receiver from bytes takes the old receiver and returns the new one with the
  error it reports. The Go interface \<^verbatim>\<open>CIF\<close> is the locale \<open>cif_codec\<close>.
\<close>

section \<open>Header\<close>

type_synonym CtrlType = u16
type_synonym SubType = u16
type_synonym PacketPosition = u8
type_synonym PacketEncryption = u8

definition HeaderSize :: nat where "HeaderSize = 16"

definition CtrlTypeHandshake :: CtrlType where "CtrlTypeHandshake = 0x0000"
definition CtrlTypeKeepalive :: CtrlType where "CtrlTypeKeepalive = 0x0001"
definition CtrlTypeACK :: CtrlType where "CtrlTypeACK = 0x0002"
definition CtrlTypeNAK :: CtrlType where "CtrlTypeNAK = 0x0003"
definition CtrlTypeWarn :: CtrlType where "CtrlTypeWarn = 0x0004"
definition CtrlTypeShutdown :: CtrlType where "CtrlTypeShutdown = 0x0005"
definition CtrlTypeACKACK :: CtrlType where "CtrlTypeACKACK = 0x0006"
definition CtrlTypeDropReq :: CtrlType where "CtrlTypeDropReq = 0x0007"
definition CtrlTypePeerError :: CtrlType where "CtrlTypePeerError = 0x0008"
definition CtrlTypeUser :: CtrlType where "CtrlTypeUser = 0x7FFF"

definition PositionMiddle :: PacketPosition where "PositionMiddle = 0"
definition PositionLast :: PacketPosition where "PositionLast = 1"
definition PositionFirst :: PacketPosition where "PositionFirst = 2"
definition PositionSingle :: PacketPosition where "PositionSingle = 3"

definition EncryptionNone :: PacketEncryption where "EncryptionNone = 0"
definition EncryptionEven :: PacketEncryption where "EncryptionEven = 1"
definition EncryptionOdd :: PacketEncryption where "EncryptionOdd = 2"
definition EncryptionBoth :: PacketEncryption where "EncryptionBoth = 3"

text \<open>
  A \<^verbatim>\<open>net.Addr\<close> as the code tells them apart: UDP and TCP addresses with IP and port, or another
  implementation identified by its network and string.
\<close>

datatype net_Addr = UDPAddr bytes nat string | TCPAddr bytes nat string | OtherAddr string string

record Header =
  Addr :: "net_Addr option"
  IsControl :: bool
  ControlType :: CtrlType
  SubType :: SubType
  TypeSpecific :: u32
  SequenceNumber :: u32
  PacketPosition :: PacketPosition
  Order :: bool
  Encryption :: PacketEncryption
  Retransmitted :: bool
  MessageNumber :: u32
  Timestamp :: u32
  DestinationSocketID :: u32

definition zero_Header :: Header where
  "zero_Header = \<lparr>Addr = None, IsControl = False, ControlType = 0, SubType = 0, TypeSpecific = 0,
     SequenceNumber = 0, PacketPosition = 0, Order = False, Encryption = 0, Retransmitted = False,
     MessageNumber = 0, Timestamp = 0, DestinationSocketID = 0\<rparr>"

text \<open>The errors of the package; \<open>IndexPanic\<close> and \<open>NilPanic\<close> are Go's run-time panics.\<close>

datatype perr =
    HeaderTooShort nat | DataTooShort nat | BufferTooSmall nat nat
  | ACKTooShort nat | NAKRangeIncomplete nat | NAKTooLarge nat | DropReqTooShort nat
  | HandshakeTooShort nat | InvalidEncryptionField u16 | ExtensionTruncated u16 nat nat
  | DuplicateExtension u16 | HSWrongLength nat | HSExtensionTooShort nat | StreamIDTooLong nat
  | KMTooShort nat | KMVersion u8 | KMPacketType u8 | KMSignature u16 | KMNoKey | KMCipher u8
  | KMAuth u8 | KMEncapsulation u8 | KMKeyLength u16 | KMSaltLength u16 | KMShortSalt
  | KMShortKeys | KMLengthInconsistent nat nat
  | IndexPanic | NilPanic

text \<open>The flag word of a data packet.\<close>

definition data_field :: "Header \<Rightarrow> u32" where
  "data_field h =
     push_bit 30 (ucast (PacketPosition h AND 3))
     OR (if Order h then push_bit 29 1 else 0)
     OR push_bit 27 (ucast (Encryption h AND 3))
     OR (if Retransmitted h then push_bit 26 1 else 0)
     OR (MessageNumber h AND 0x03FFFFFF)"

definition Header_Marshal :: "Header \<Rightarrow> bytes \<Rightarrow> perr + bytes" where
  "Header_Marshal h buf =
     (if length buf < 16 then Inl IndexPanic
      else Inr
        ((if IsControl h
          then put_be16 (ControlType h OR 0x8000) @ put_be16 (SubType h) @ put_be32 (TypeSpecific h)
          else put_be32 (SequenceNumber h AND 0x7FFFFFFF) @ put_be32 (data_field h))
         @ put_be32 (Timestamp h) @ put_be32 (DestinationSocketID h) @ drop 16 buf))"

definition Header_Unmarshal :: "Header \<Rightarrow> bytes \<Rightarrow> Header \<times> perr option" where
  "Header_Unmarshal h buf =
     (if length buf < HeaderSize then (h, Some (HeaderTooShort (length buf)))
      else
        let h = h\<lparr>IsControl := (buf ! 0 AND 0x80 \<noteq> 0)\<rparr>;
            h = (if IsControl h
                 then h\<lparr>ControlType := get_be16 buf AND 0x7FFF,
                        SubType := get_be16 (drop 2 buf),
                        TypeSpecific := get_be32 (drop 4 buf)\<rparr>
                 else let field = get_be32 (drop 4 buf) in
                      h\<lparr>SequenceNumber := get_be32 buf AND 0x7FFFFFFF,
                        PacketPosition := ucast (drop_bit 30 field AND 3),
                        Order := (drop_bit 29 field AND 1 \<noteq> 0),
                        Encryption := ucast (drop_bit 27 field AND 3),
                        Retransmitted := (drop_bit 26 field AND 1 \<noteq> 0),
                        MessageNumber := field AND 0x03FFFFFF\<rparr>)
        in (h\<lparr>Timestamp := get_be32 (drop 8 buf),
              DestinationSocketID := get_be32 (drop 12 buf)\<rparr>, None))"

text \<open>
  A header \<^verbatim>\<open>Marshal\<close> represents exactly: the fields fit their bits and those of the other packet kind
  are zero.
\<close>

definition header_wf :: "Header \<Rightarrow> bool" where
  "header_wf h \<longleftrightarrow>
     (if IsControl h
      then ControlType h \<le> 0x7FFF \<and> SequenceNumber h = 0 \<and> PacketPosition h = 0 \<and> \<not> Order h \<and>
           Encryption h = 0 \<and> \<not> Retransmitted h \<and> MessageNumber h = 0
      else ControlType h = 0 \<and> SubType h = 0 \<and> TypeSpecific h = 0 \<and>
           SequenceNumber h \<le> 0x7FFFFFFF \<and> PacketPosition h \<le> 3 \<and> Encryption h \<le> 3 \<and>
           MessageNumber h \<le> 0x03FFFFFF)"

section \<open>Packet\<close>

definition WireHeaderSize :: nat where "WireHeaderSize = 44"

definition MaxPayloadSize :: nat where "MaxPayloadSize = 1456"

text \<open>\<open>pooled\<close> is the buffer that backs the payload when it came from the pool, \<open>None\<close> for nil.\<close>

record Packet =
  Header :: Header
  Data :: bytes
  pooled :: "bytes option"

definition zero_Packet :: Packet where
  "zero_Packet = \<lparr>Header = zero_Header, Data = [], pooled = None\<rparr>"

definition New :: "net_Addr option \<Rightarrow> Packet" where
  "New addr = \<lparr>Header = zero_Header\<lparr>Addr := addr\<rparr>, Data = [], pooled = Some []\<rparr>"

definition NewControl :: "net_Addr option \<Rightarrow> CtrlType \<Rightarrow> u32 \<Rightarrow> u32 \<Rightarrow> Packet" where
  "NewControl addr ctrlType destSocketID timestamp =
     (New addr)\<lparr>Header := (Header (New addr))\<lparr>IsControl := True, ControlType := ctrlType,
        DestinationSocketID := destSocketID, Timestamp := timestamp\<rparr>\<rparr>"

definition NewData :: "net_Addr option \<Rightarrow> u32 \<Rightarrow> u32 \<Rightarrow> u32 \<Rightarrow> bytes \<Rightarrow> Packet" where
  "NewData addr seqNo timestamp destSocketID payload =
     \<lparr>Header = zero_Header\<lparr>Addr := addr, SequenceNumber := seqNo, Timestamp := timestamp,
        DestinationSocketID := destSocketID, PacketPosition := PositionSingle, MessageNumber := 1\<rparr>,
      Data = payload, pooled = Some payload\<rparr>"

definition NewDataOwned :: "net_Addr option \<Rightarrow> u32 \<Rightarrow> u32 \<Rightarrow> u32 \<Rightarrow> bytes \<Rightarrow> Packet" where
  "NewDataOwned addr seqNo timestamp destSocketID owned =
     \<lparr>Header = zero_Header\<lparr>Addr := addr, SequenceNumber := seqNo, Timestamp := timestamp,
        DestinationSocketID := destSocketID, PacketPosition := PositionSingle, MessageNumber := 1\<rparr>,
      Data = owned, pooled = Some owned\<rparr>"

definition Parse :: "bytes \<Rightarrow> net_Addr option \<Rightarrow> perr + Packet" where
  "Parse rawdata addr =
     (if length rawdata < HeaderSize then Inl (DataTooShort (length rawdata))
      else
        let p = zero_Packet\<lparr>Header := zero_Header\<lparr>Addr := addr\<rparr>\<rparr> in
        case Header_Unmarshal (Header p) (take HeaderSize rawdata) of
          (_, Some err) \<Rightarrow> Inl err
        | (h, None) \<Rightarrow>
            let payload = drop HeaderSize rawdata in
            if length payload > 0
            then Inr (p\<lparr>Header := h, Data := payload, pooled := Some payload\<rparr>)
            else Inr (p\<lparr>Header := h\<rparr>))"

text \<open>\<^verbatim>\<open>Marshal\<close> returns the buffer it was given, overwritten, and the number of bytes written.\<close>

definition Packet_Marshal :: "Packet \<Rightarrow> bytes \<Rightarrow> perr + (bytes \<times> nat)" where
  "Packet_Marshal p buf =
     (let needed = HeaderSize + length (Data p) in
      if length buf < needed then Inl (BufferTooSmall (length buf) needed)
      else case Header_Marshal (Header p) (take HeaderSize buf) of
             Inl err \<Rightarrow> Inl err
           | Inr hdr \<Rightarrow> Inr (hdr @ Data p @ drop needed buf, needed))"

definition MarshalTo :: "Packet \<Rightarrow> perr + bytes" where
  "MarshalTo p =
     (case Packet_Marshal p (replicate (HeaderSize + length (Data p)) 0) of
        Inl err \<Rightarrow> Inl err | Inr (buf, _) \<Rightarrow> Inr buf)"

definition Release :: "Packet \<Rightarrow> Packet" where
  "Release p = (if pooled p \<noteq> None then p\<lparr>pooled := None, Data := []\<rparr> else p)"

definition Clone :: "Packet \<Rightarrow> Packet" where
  "Clone p = \<lparr>Header = Header p, Data = Data p, pooled = Some (Data p)\<rparr>"

definition SetData :: "Packet \<Rightarrow> bytes \<Rightarrow> Packet" where
  "SetData p data =
     (if pooled p \<noteq> None then p\<lparr>pooled := Some data, Data := data\<rparr>
      else p\<lparr>Data := data, pooled := Some data\<rparr>)"

definition Packet_Len :: "Packet \<Rightarrow> nat" where
  "Packet_Len p = length (Data p)"

text \<open>\<^verbatim>\<open>MarshalCIF\<close> and \<^verbatim>\<open>UnmarshalCIF\<close> take the methods of the interface value they are called with.\<close>

definition Packet_MarshalCIF :: "('c \<Rightarrow> perr + bytes) \<Rightarrow> Packet \<Rightarrow> 'c \<Rightarrow> perr + Packet" where
  "Packet_MarshalCIF enc p c = (case enc c of Inl err \<Rightarrow> Inl err | Inr data \<Rightarrow> Inr (SetData p data))"

definition Packet_UnmarshalCIF ::
    "('c \<Rightarrow> bytes \<Rightarrow> 'c \<times> perr option) \<Rightarrow> Packet \<Rightarrow> 'c \<Rightarrow> 'c \<times> perr option" where
  "Packet_UnmarshalCIF dec p c = dec c (Data p)"

section \<open>ACK\<close>

record CIFACK =
  LastACKPacketSequenceNumber :: u32
  RTT :: u32
  RTTVariance :: u32
  AvailableBufferSize :: u32
  PacketsReceivingRate :: u32
  EstimatedLinkCapacity :: u32
  ReceivingRate :: u32

definition zero_CIFACK :: CIFACK where
  "zero_CIFACK = \<lparr>LastACKPacketSequenceNumber = 0, RTT = 0, RTTVariance = 0, AvailableBufferSize = 0,
     PacketsReceivingRate = 0, EstimatedLinkCapacity = 0, ReceivingRate = 0\<rparr>"

definition CIFACK_MarshalCIF :: "CIFACK \<Rightarrow> perr + bytes" where
  "CIFACK_MarshalCIF c = Inr
     (put_be32 (LastACKPacketSequenceNumber c) @ put_be32 (RTT c) @ put_be32 (RTTVariance c)
      @ put_be32 (AvailableBufferSize c) @ put_be32 (PacketsReceivingRate c)
      @ put_be32 (EstimatedLinkCapacity c) @ put_be32 (ReceivingRate c))"

definition CIFACK_MarshalSmallCIF :: "CIFACK \<Rightarrow> perr + bytes" where
  "CIFACK_MarshalSmallCIF c = Inr
     (put_be32 (LastACKPacketSequenceNumber c) @ put_be32 (RTT c) @ put_be32 (RTTVariance c)
      @ put_be32 (AvailableBufferSize c))"

definition CIFACK_MarshalUDTBaseCIF :: "CIFACK \<Rightarrow> perr + bytes" where
  "CIFACK_MarshalUDTBaseCIF c = Inr
     (put_be32 (LastACKPacketSequenceNumber c) @ put_be32 (RTT c) @ put_be32 (RTTVariance c)
      @ put_be32 (AvailableBufferSize c) @ put_be32 (PacketsReceivingRate c)
      @ put_be32 (EstimatedLinkCapacity c))"

definition CIFACK_MarshalV102CIF :: "CIFACK \<Rightarrow> u32 \<Rightarrow> perr + bytes" where
  "CIFACK_MarshalV102CIF c xmRate = Inr
     (put_be32 (LastACKPacketSequenceNumber c) @ put_be32 (RTT c) @ put_be32 (RTTVariance c)
      @ put_be32 (AvailableBufferSize c) @ put_be32 (PacketsReceivingRate c)
      @ put_be32 (EstimatedLinkCapacity c) @ put_be32 (ReceivingRate c) @ put_be32 xmRate)"

definition CIFACK_UnmarshalCIF :: "CIFACK \<Rightarrow> bytes \<Rightarrow> CIFACK \<times> perr option" where
  "CIFACK_UnmarshalCIF c data =
     (if length data < 4 then (c, Some (ACKTooShort (length data)))
      else
        let c = c\<lparr>LastACKPacketSequenceNumber := get_be32 data\<rparr>;
            c = (if length data \<ge> 16
                 then c\<lparr>RTT := get_be32 (drop 4 data), RTTVariance := get_be32 (drop 8 data),
                        AvailableBufferSize := get_be32 (drop 12 data)\<rparr>
                 else c);
            c = (if length data \<ge> 28
                 then c\<lparr>PacketsReceivingRate := get_be32 (drop 16 data),
                        EstimatedLinkCapacity := get_be32 (drop 20 data),
                        ReceivingRate := get_be32 (drop 24 data)\<rparr>
                 else c)
        in (c, None))"

section \<open>NAK\<close>

record CIFNAK =
  LossList :: "u32 list"

text \<open>The inner loop of \<^verbatim>\<open>MarshalCIF\<close>: the end of the run of consecutive numbers and what follows it.\<close>

fun nak_run :: "u32 \<Rightarrow> u32 list \<Rightarrow> u32 \<times> u32 list" where
  "nak_run end' [] = (end', [])"
| "nak_run end' (x # xs) = (if x = end' + 1 then nak_run x xs else (end', x # xs))"

lemma nak_run_length: "length (snd (nak_run e xs)) \<le> length xs"
  by (induction e xs rule: nak_run.induct) auto

function (sequential) nak_encode :: "u32 list \<Rightarrow> u32 list" where
  "nak_encode [] = []"
| "nak_encode (start # xs) =
     (let (end', rest) = nak_run start xs in
      (if start = end' then [start AND 0x7FFFFFFF]
       else [start OR 0x80000000, end' AND 0x7FFFFFFF]) @ nak_encode rest)"
  by pat_completeness auto
termination
proof (relation "measure length")
  fix start :: u32 and xs x end' rest
  assume "x = nak_run start xs" and "(end', rest) = x"
  then show "(rest, start # xs) \<in> measure length"
    using nak_run_length [of start xs] by (cases "nak_run start xs") (auto simp: less_Suc_eq_le)
qed simp

definition CIFNAK_MarshalCIF :: "CIFNAK \<Rightarrow> perr + bytes" where
  "CIFNAK_MarshalCIF c =
     (if length (LossList c) = 0 then Inr []
      else Inr (concat (map put_be32 (nak_encode (LossList c)))))"

text \<open>The expansion of one range, capped at 8192 entries in the whole list.\<close>

function nak_range :: "u32 \<Rightarrow> u32 \<Rightarrow> u32 list \<Rightarrow> u32 list \<times> perr option" where
  "nak_range seq stop acc =
     (if seq = stop then (acc, None)
      else let acc = acc @ [seq] in
        if length acc > 8192 then (acc, Some (NAKTooLarge (length acc)))
        else nak_range ((seq + 1) AND 0x7FFFFFFF) stop acc)"
  by pat_completeness auto
termination
  by (relation "measure (\<lambda>(seq, stop, acc). 8193 - length acc)") auto

function nak_decode :: "nat \<Rightarrow> bytes \<Rightarrow> u32 list \<Rightarrow> u32 list \<times> perr option" where
  "nak_decode i data acc =
     (if length data < 4 then (acc, None)
      else let val = get_be32 data in
        if val AND 0x80000000 \<noteq> 0 then
          if length data < 8 then (acc, Some (NAKRangeIncomplete i))
          else
            let start = val AND 0x7FFFFFFF;
                end' = get_be32 (drop 4 data) AND 0x7FFFFFFF
            in case nak_range start ((end' + 1) AND 0x7FFFFFFF) acc of
                 (acc, Some err) \<Rightarrow> (acc, Some err)
               | (acc, None) \<Rightarrow> nak_decode (i + 8) (drop 8 data) acc
        else nak_decode (i + 4) (drop 4 data) (acc @ [val]))"
  by pat_completeness auto
termination
  by (relation "measure (\<lambda>(i, data, acc). length data)") auto

declare nak_range.simps [simp del] nak_decode.simps [simp del]

definition CIFNAK_UnmarshalCIF :: "CIFNAK \<Rightarrow> bytes \<Rightarrow> CIFNAK \<times> perr option" where
  "CIFNAK_UnmarshalCIF c data =
     (case nak_decode 0 data [] of (l, err) \<Rightarrow> (c\<lparr>LossList := l\<rparr>, err))"

section \<open>Shutdown and drop request\<close>

definition CIFShutdown_MarshalCIF :: "unit \<Rightarrow> perr + bytes" where
  "CIFShutdown_MarshalCIF c = Inr []"

definition CIFShutdown_UnmarshalCIF :: "unit \<Rightarrow> bytes \<Rightarrow> unit \<times> perr option" where
  "CIFShutdown_UnmarshalCIF c data = ((), None)"

record CIFDropReq =
  FirstSeqNo :: u32
  LastSeqNo :: u32

definition CIFDropReq_MarshalCIF :: "CIFDropReq \<Rightarrow> perr + bytes" where
  "CIFDropReq_MarshalCIF c = Inr (put_be32 (FirstSeqNo c) @ put_be32 (LastSeqNo c))"

definition CIFDropReq_UnmarshalCIF :: "CIFDropReq \<Rightarrow> bytes \<Rightarrow> CIFDropReq \<times> perr option" where
  "CIFDropReq_UnmarshalCIF c data =
     (if length data < 8 then (c, Some (DropReqTooShort (length data)))
      else (c\<lparr>FirstSeqNo := get_be32 data, LastSeqNo := get_be32 (drop 4 data)\<rparr>, None))"

section \<open>Header fields\<close>

lemma mask_numerals:
  "(3 :: u8) = mask 2" "(3 :: u32) = mask 2" "(0x03FFFFFF :: u32) = mask 26"
  "(0x7FFFFFFF :: u32) = mask 31" "(0x7FFF :: u16) = mask 15"
  by (simp_all add: mask_eq_exp_minus_1)

lemma bit_flags:
  "bit (536870912 :: int) i \<longleftrightarrow> i = 29" "bit (67108864 :: int) i \<longleftrightarrow> i = 26"
  "bit (32768 :: int) i \<longleftrightarrow> i = 15"
proof -
  have e: "(536870912 :: int) = 2 ^ 29" "(67108864 :: int) = 2 ^ 26" "(32768 :: int) = 2 ^ 15" by simp_all
  show "bit (536870912 :: int) i \<longleftrightarrow> i = 29" "bit (67108864 :: int) i \<longleftrightarrow> i = 26"
    "bit (32768 :: int) i \<longleftrightarrow> i = 15"
    unfolding e by (simp_all only: bit_exp_iff) auto
qed

lemma bit_data_field:
  "bit (data_field h) i \<longleftrightarrow>
     (i = 30 \<and> bit (PacketPosition h) 0 \<or> i = 31 \<and> bit (PacketPosition h) 1 \<or> i = 29 \<and> Order h \<or>
      i = 27 \<and> bit (Encryption h) 0 \<or> i = 28 \<and> bit (Encryption h) 1 \<or> i = 26 \<and> Retransmitted h \<or>
      i < 26 \<and> bit (MessageNumber h) i)"
proof (cases "i < 32")
  case True
  then consider "i < 26" | "i = 26" | "i = 27" | "i = 28" | "i = 29" | "i = 30" | "i = 31" by fastforce
  then show ?thesis
    by cases (auto simp: data_field_def bit_simps mask_numerals bit_flags)
next
  case False
  then show ?thesis using bit_imp_le_length [of "data_field h" i] by auto
qed

lemma data_field_extract:
  "ucast (drop_bit 30 (data_field h) AND 3) = (PacketPosition h AND 3)"
  "(drop_bit 29 (data_field h) AND 1 \<noteq> 0) = Order h"
  "ucast (drop_bit 27 (data_field h) AND 3) = (Encryption h AND 3)"
  "(drop_bit 26 (data_field h) AND 1 \<noteq> 0) = Retransmitted h"
  "data_field h AND 0x03FFFFFF = (MessageNumber h AND 0x03FFFFFF)"
proof -
  have two: "n < 2 \<longleftrightarrow> n = 0 \<or> n = 1" for n :: nat by auto
  show "ucast (drop_bit 30 (data_field h) AND 3) = (PacketPosition h AND 3)"
    "ucast (drop_bit 27 (data_field h) AND 3) = (Encryption h AND 3)"
    by (auto intro!: bit_word_eqI simp: bit_simps bit_data_field mask_numerals two)
  show "(drop_bit 29 (data_field h) AND 1 \<noteq> 0) = Order h" 
    "(drop_bit 26 (data_field h) AND 1 \<noteq> 0) = Retransmitted h"
    by (simp_all add: and_one_eq bit_data_field odd_iff_mod_2_eq_one [symmetric] bit_drop_bit_eq flip: bit_0)
  show "data_field h AND 0x03FFFFFF = (MessageNumber h AND 0x03FFFFFF)"
    by (rule bit_word_eqI) (auto simp: bit_simps bit_data_field mask_numerals)
qed

lemma first_byte_flag:
  "(put_be32 v @ r) ! 0 AND 0x80 \<noteq> 0 \<longleftrightarrow> bit v 31"
  "(put_be16 w @ r) ! 0 AND 0x80 \<noteq> 0 \<longleftrightarrow> bit w 15"
proof -
  have e: "(0x80 :: u8) = 2 ^ 7" by simp
  have *: "b AND 0x80 \<noteq> 0 \<longleftrightarrow> bit (b :: u8) 7" for b
    unfolding e by (simp only: and_exp_eq_0_iff_not_bit not_not)
  show "(put_be32 v @ r) ! 0 AND 0x80 \<noteq> 0 \<longleftrightarrow> bit v 31"
    "(put_be16 w @ r) ! 0 AND 0x80 \<noteq> 0 \<longleftrightarrow> bit w 15"
    unfolding * by (simp_all add: put_be32_def put_be16_def bit_simps)
qed

lemma ctrl_flag: "bit (v OR 0x8000 :: u16) 15" "(v OR 0x8000) AND 0x7FFF = (v AND 0x7FFF :: u16)"
proof -
  show "bit (v OR 0x8000 :: u16) 15" by (simp add: bit_or_iff bit_flags)
  show "(v OR 0x8000) AND 0x7FFF = (v AND 0x7FFF :: u16)"
    unfolding mask_numerals by (rule bit_word_eqI) (auto simp: bit_simps bit_flags)
qed

lemma masked_id:
  "(v :: u32) \<le> 0x7FFFFFFF \<Longrightarrow> v AND 0x7FFFFFFF = v"
  "(v :: u32) \<le> 0x03FFFFFF \<Longrightarrow> v AND 0x03FFFFFF = v"
  "(b :: u8) \<le> 3 \<Longrightarrow> b AND 3 = b"
  "(w :: u16) \<le> 0x7FFF \<Longrightarrow> w AND 0x7FFF = w"
  using word_and_mask_eq_iff_lt [of 31 v] word_and_mask_eq_iff_lt [of 26 v]
    word_and_mask_eq_iff_lt [of 2 b] word_and_mask_eq_iff_lt [of 15 w]
  by (simp_all add: word_le_nat_alt mask_eq_exp_minus_1)

lemma not_bit_31: "\<not> bit (v AND 0x7FFFFFFF :: u32) 31"
  by (simp add: bit_simps mask_numerals)

lemma Header_Unmarshal_Marshal:
  assumes "header_wf h" and "16 \<le> length buf"
  shows "\<exists>b. Header_Marshal h buf = Inr b \<and>
    Header_Unmarshal (zero_Header\<lparr>Addr := a\<rparr>) (take 16 b) = (h\<lparr>Addr := a\<rparr>, None)"
  using assms
  by (cases h)
    (auto simp: Header_Marshal_def Header_Unmarshal_def HeaderSize_def header_wf_def zero_Header_def Let_def
      first_byte_flag ctrl_flag masked_id not_bit_31 data_field_extract)

lemma first_byte_get:
  "4 \<le> length xs \<Longrightarrow> xs ! 0 AND 0x80 \<noteq> 0 \<longleftrightarrow> bit (get_be32 xs) 31"
  "2 \<le> length ys \<Longrightarrow> ys ! 0 AND 0x80 \<noteq> 0 \<longleftrightarrow> bit (get_be16 ys) 15"
  using first_byte_flag(1) [of "get_be32 xs" "drop 4 xs"] first_byte_flag(2) [of "get_be16 ys" "drop 2 ys"]
  by (simp_all add: put_get_be32_take put_get_be16_take)

lemma clear_top_bit: "\<not> bit (v :: u32) 31 \<Longrightarrow> v AND 0x7FFFFFFF = v"
  by (rule bit_word_eqI) (auto simp: mask_numerals bit_simps less_Suc_eq numeral_eq_Suc)

lemma set_top_bit: "bit (v :: u16) 15 \<Longrightarrow> (v AND 0x7FFF) OR 0x8000 = v"
  by (rule bit_word_eqI) (auto simp: mask_numerals bit_simps bit_flags less_Suc_eq numeral_eq_Suc)

lemma data_field_decoded:
  assumes "PacketPosition h = ucast (drop_bit 30 f AND 3)" "Order h = (drop_bit 29 f AND 1 \<noteq> 0)"
    "Encryption h = ucast (drop_bit 27 f AND 3)" "Retransmitted h = (drop_bit 26 f AND 1 \<noteq> 0)"
    "MessageNumber h = f AND 0x03FFFFFF"
  shows "data_field h = f"
proof (rule bit_word_eqI)
  fix i :: nat assume "i < LENGTH(32)"
  then consider "i < 26" | "i = 26" | "i = 27" | "i = 28" | "i = 29" | "i = 30" | "i = 31" by fastforce
  moreover have "x AND 1 \<noteq> 0 \<longleftrightarrow> bit x 0" for x :: u32
    by (simp add: and_one_eq bit_0 odd_iff_mod_2_eq_one)
  ultimately show "bit (data_field h) i = bit f i"
    by cases (auto simp: bit_data_field bit_simps mask_numerals assms)
qed

lemma Header_Marshal_Unmarshal:
  assumes "16 \<le> length buf" and "Header_Unmarshal h0 buf = (h, e)"
  shows "e = None \<and> Header_Marshal h buf = Inr buf"
proof (cases "buf ! 0 AND 0x80 \<noteq> 0")
  case True
  then show ?thesis using assms
   by (auto simp: Header_Marshal_def Header_Unmarshal_def HeaderSize_def Let_def put_get_be32_take
    put_get_be16_take first_byte_get(2) set_top_bit take_drop_chain) 
next
  case False
  then show ?thesis using assms
   by (auto simp: Header_Marshal_def Header_Unmarshal_def HeaderSize_def Let_def put_get_be32_take
    first_byte_get(1) clear_top_bit data_field_decoded [where f = "get_be32 (drop 4 buf)"] take_drop_chain) 
qed

lemma Parse_MarshalTo_eq:
  assumes "header_wf (Header p)"
  shows "\<exists>raw. MarshalTo p = Inr raw \<and> length raw = 16 + length (Data p) \<and>
     Parse raw a = Inr \<lparr>Header = (Header p)\<lparr>Addr := a\<rparr>, Data = Data p,
       pooled = (if Data p = [] then None else Some (Data p))\<rparr>"
proof -
  obtain b where b: "Header_Marshal (Header p) (replicate 16 0) = Inr b"
    and u: "Header_Unmarshal (zero_Header\<lparr>Addr := a\<rparr>) (take 16 b) = ((Header p)\<lparr>Addr := a\<rparr>, None)"
    using Header_Unmarshal_Marshal [OF assms, of "replicate 16 0" a] by auto
  then have "length b = 16" by (auto simp: Header_Marshal_def split: if_splits)
  with b u show ?thesis
    by (auto simp: MarshalTo_def Packet_Marshal_def Parse_def HeaderSize_def zero_Packet_def Let_def)
qed

lemma MarshalTo_Parse_eq:
  assumes "16 \<le> length raw"
  shows "\<exists>p. Parse raw a = Inr p \<and> MarshalTo p = Inr raw \<and> Addr (Header p) = a"
proof -
  define b where "b = take 16 raw"
  have lb: "length b = 16" using assms by (simp add: b_def)
  obtain h e where h: "Header_Unmarshal (zero_Header\<lparr>Addr := a\<rparr>) b = (h, e)" by fastforce
  have e: "e = None" and m: "Header_Marshal h b = Inr b"
    using Header_Marshal_Unmarshal [of b, OF _ h] lb by auto
  have "Header_Marshal h (replicate 16 0) = Inr b"
    using m lb by (auto simp: Header_Marshal_def)
  moreover have "Addr h = a"
    using h by (auto simp: Header_Unmarshal_def Let_def split: if_splits)
  moreover have "b @ drop 16 raw = raw" by (simp add: b_def)
  ultimately show ?thesis
    using assms h e lb
    by (auto simp: MarshalTo_def Packet_Marshal_def Parse_def HeaderSize_def zero_Packet_def Let_def b_def [symmetric])
qed

section \<open>Loss lists\<close>

lemma unat_and_Max: "unat (v AND 0x7FFFFFFF :: u32) = unat v mod M31"
proof -
  have "v AND 0x7FFFFFFF = take_bit 31 v" by (simp add: take_bit_eq_mask mask_numerals)
  then have "unat (v AND 0x7FFFFFFF) = take_bit 31 (unat v)" by (simp only: unsigned_take_bit_eq)
  then show ?thesis by (simp add: take_bit_eq_mod)
qed

lemma seq_step_masked: "(seq_nth s k + 1) AND 0x7FFFFFFF = seq_nth s (k + 1)"
  by (rule seq_eqI) (simp add: unat_and_Max unat_word_ariths mod_mod_cancel mod_add_left_eq mod_Suc_eq)

lemma nak_range_eq:
  assumes "valid_seq s" and "length acc + k \<le> 8192" and "j + k < M31"
  shows "nak_range (seq_nth s j) (seq_nth s (j + k)) acc = (acc @ map (seq_nth s) [j..<j + k], None)"
  using assms
proof (induction k arbitrary: j acc)
  case 0
  then show ?case by (simp add: nak_range.simps)
next
  case (Suc k)
  have "seq_nth s j \<noteq> seq_nth s (j + Suc k)" using Suc.prems by (simp add: seq_nth_eq_iff)
  moreover have "nak_range (seq_nth s (Suc j)) (seq_nth s (Suc j + k)) (acc @ [seq_nth s j]) =
      ((acc @ [seq_nth s j]) @ map (seq_nth s) [Suc j..<Suc j + k], None)"
    using Suc.prems by (intro Suc.IH) simp_all
  moreover have "[j..<j + Suc k] = j # [Suc j..<Suc j + k]" by (simp add: upt_conv_Cons)
  ultimately show ?case
    using Suc.prems seq_step_masked [of s j] by (simp add: nak_range.simps [of "seq_nth s j"])
qed

lemma nak_run_spec:
  "nak_run s xs = (e, rest) \<Longrightarrow> (\<forall>x \<in> set xs. unat x < M31) \<Longrightarrow> valid_seq s \<Longrightarrow>
   \<exists>k. e = seq_nth s k \<and> xs = map (seq_nth s) [1..<Suc k] @ rest \<and> unat s + k < M31"
proof (induction s xs rule: nak_run.induct)
  case (1 s)
  then show ?case by (intro exI [of _ 0]) (auto simp: valid_seq_def)
next
  case (2 s x xs)
  show ?case
  proof (cases "x = s + 1")
    case True
    have x: "valid_seq x" using 2 by (simp add: valid_seq_def)
    obtain k where k: "e = seq_nth x k" "xs = map (seq_nth x) [1..<Suc k] @ rest" "unat x + k < M31"
      using 2 True x by fastforce
    have ux: "unat x = unat s + 1" using True 2 by (simp add: valid_seq_def unat_plus_lt)
    then have sx: "x = seq_nth s 1" using x by (intro seq_eqI) (simp add: valid_seq_def)
    have "map (seq_nth s) [1..<Suc (Suc k)] = x # map (seq_nth x) [1..<Suc k]"
      by (rule nth_equalityI) (auto simp: nth_Cons' sx nth_append simp del: upt_Suc)
    then show ?thesis using k ux
      by (intro exI [of _ "Suc k"]) (simp add: sx del: upt_Suc)
  next
    case False
    with 2 show ?thesis by (intro exI [of _ 0]) (auto simp: valid_seq_def)
  qed
qed

lemma range_flag: "(v OR 0x80000000) AND 0x80000000 \<noteq> (0 :: u32)"
  "(v OR 0x80000000) AND 0x7FFFFFFF = (v AND 0x7FFFFFFF :: u32)"
  "(v AND 0x7FFFFFFF) AND 0x80000000 = (0 :: u32)"
proof -
  have m: "(0x80000000 :: u32) = NOT (mask 31)" by (simp add: mask_eq_exp_minus_1)
  show "(v OR 0x80000000) AND 0x80000000 \<noteq> (0 :: u32)" by (simp add: bit.conj_disj_distrib2)
  show "(v OR 0x80000000) AND 0x7FFFFFFF = (v AND 0x7FFFFFFF :: u32)"
    "(v AND 0x7FFFFFFF) AND 0x80000000 = (0 :: u32)"
    unfolding m mask_numerals by (auto intro!: bit_word_eqI simp: bit_simps)
qed

lemma nak_decode_single:
  "unat v < M31 \<Longrightarrow> nak_decode i (put_be32 (v AND 0x7FFFFFFF) @ r) acc = nak_decode (i + 4) r (acc @ [v])"
proof -
  assume "unat v < M31"
  then have m: "v AND 0x7FFFFFFF = v" by (simp add: masked_id word_le_nat_alt)
  with range_flag(3) [of v] have "v AND 0x80000000 = 0" by simp
  with m show ?thesis by (subst nak_decode.simps) (simp add: Let_def)
qed

lemma nak_decode_range:
  assumes "valid_seq s" and "unat s + k < M31" and "length acc + Suc k \<le> 8192"
  shows "nak_decode i (put_be32 (s OR 0x80000000) @ put_be32 (seq_nth s k AND 0x7FFFFFFF) @ r) acc =
     nak_decode (i + 8) r (acc @ map (seq_nth s) [0..<Suc k])"
proof -
  have "s AND 0x7FFFFFFF = s" using assms(1) by (intro seq_eqI) (simp add: unat_and_Max valid_seq_def)
  moreover have "seq_nth s k AND 0x7FFFFFFF = seq_nth s k" by (intro seq_eqI) (simp add: unat_and_Max)
  moreover have "nak_range s (seq_nth s (k + 1)) acc = (acc @ map (seq_nth s) [0..<Suc k], None)"
    using nak_range_eq [of s acc "Suc k" 0] assms by simp
  ultimately show ?thesis
    by (subst nak_decode.simps) (simp add: range_flag Let_def seq_step_masked [simplified] del: upt_Suc)
qed

lemma nak_decode_encode:
  "(\<forall>x \<in> set xs. unat x < M31) \<Longrightarrow> length acc + length xs \<le> 8192 \<Longrightarrow>
   nak_decode i (concat (map put_be32 (nak_encode xs))) acc = (acc @ xs, None)"
proof (induction xs arbitrary: i acc rule: nak_encode.induct)
  case 1
  then show ?case by (simp add: nak_decode.simps)
next
  case (2 s xs)
  obtain e rest where r: "nak_run s xs = (e, rest)" by fastforce
  have v: "valid_seq s" using 2 by (simp add: valid_seq_def)
  obtain k where k: "e = seq_nth s k" "xs = map (seq_nth s) [1..<Suc k] @ rest" "unat s + k < M31"
    using nak_run_spec [OF r _ v] 2 by auto
  have IH: "nak_decode j (concat (map put_be32 (nak_encode rest))) acc' = (acc' @ rest, None)"
    if "length acc' + length rest \<le> 8192" for j acc'
    using 2 r k that by (intro "2.IH") auto
  have m: "map (seq_nth s) [0..<Suc k] @ rest = s # xs"
    using v k(2) by (simp add: upt_conv_Cons del: upt_Suc)
  show ?case
  proof (cases "k = 0")
    case True
    then have "e = s" "rest = xs" using k v by simp_all
    then show ?thesis using IH [of "acc @ [s]"] 2 r v
      by (simp add: nak_decode_single valid_seq_def)
  next
    case False
    then have "e \<noteq> s" using k v seq_nth_eq_iff [of s k 0] by simp
    moreover have "length acc + Suc k + length rest \<le> 8192" using 2(3) k(2) by (simp del: upt_Suc)
    ultimately show ?thesis using IH [of "acc @ map (seq_nth s) [0..<Suc k]"] r k v m
      by (auto simp: nak_decode_range simp del: upt_Suc)
  qed
qed

lemma nak_range_length: "length (fst (nak_range s stop acc)) \<le> max (length acc + 1) 8193 \<and>
   (snd (nak_range s stop acc) = None \<longrightarrow> length (fst (nak_range s stop acc)) \<le> max (length acc) 8192)"
proof (induction s stop acc rule: nak_range.induct)
  case (1 s stop acc)
  show ?case
  proof (cases "s = stop \<or> length (acc @ [s]) > 8192")
    case True
    then show ?thesis by (subst (1 2 3) nak_range.simps) (auto simp: Let_def)
  next
    case False
    then have "nak_range s stop acc = nak_range ((s + 1) AND 0x7FFFFFFF) stop (acc @ [s])"
      by (subst nak_range.simps) (auto simp: Let_def)
    with False "1.IH" show ?thesis by auto
  qed
qed

lemma nak_decode_length:
  "length (fst (nak_decode i data acc)) \<le> max (length acc) 8192 + 1 + length data div 4"
proof (induction i data acc rule: nak_decode.induct)
  case (1 i data acc)
  define v where "v = get_be32 data"
  define r where "r = nak_range (v AND 0x7FFFFFFF) (((get_be32 (drop 4 data) AND 0x7FFFFFFF) + 1) AND 0x7FFFFFFF) acc"
  consider "length data < 4" | "4 \<le> length data" "v AND 0x80000000 = 0"
    | "4 \<le> length data" "length data < 8" "v AND 0x80000000 \<noteq> 0"
    | "8 \<le> length data" "v AND 0x80000000 \<noteq> 0" by linarith
  then show ?case
  proof cases
    case 2
    then have "nak_decode i data acc = nak_decode (i + 4) (drop 4 data) (acc @ [v])"
      by (subst nak_decode.simps) (simp add: v_def Let_def)
    moreover have "length (fst (nak_decode (i + 4) (drop 4 data) (acc @ [v])))
        \<le> max (length (acc @ [v])) 8192 + 1 + length (drop 4 data) div 4"
      using 2 1 by (simp add: v_def)
    ultimately show ?thesis using 2 by (simp add: le_div_geq)
  next
    case 4
    have l: "length (fst r) \<le> max (length acc + 1) 8193"
      "snd r = None \<Longrightarrow> length (fst r) \<le> max (length acc) 8192"
      using nak_range_length unfolding r_def by blast+
    have d: "nak_decode i data acc =
        (case r of (acc, Some err) \<Rightarrow> (acc, Some err) | (acc, None) \<Rightarrow> nak_decode (i + 8) (drop 8 data) acc)"
      using 4 by (subst nak_decode.simps) (simp add: v_def r_def Let_def)
    show ?thesis
    proof (cases "snd r")
      case None
      then have "length (fst (nak_decode (i + 8) (drop 8 data) (fst r)))
        \<le> max (length (fst r)) 8192 + 1 + length (drop 8 data) div 4"
        using 4 1(1) by (cases r) (auto simp: v_def r_def)
      with None l(2) d show ?thesis by (cases r) auto
    next
      case Some
      with l(1) d show ?thesis by (cases r) auto
    qed
  qed (auto simp: nak_decode.simps [of i data acc] v_def [symmetric] Let_def)
qed

section \<open>The interface CIF\<close>

text \<open>
  What the packet layer relies on in a control information field: the encoder of a well-formed value
  succeeds, and decoding its bytes into a zero value gives the value back, up to the fields \<open>norm\<close>
  resets. The round trip through a packet on the wire is proved once, for every such codec.
\<close>

locale cif_codec =
  fixes enc :: "'c \<Rightarrow> perr + bytes"
    and dec :: "'c \<Rightarrow> bytes \<Rightarrow> 'c \<times> perr option"
    and zero :: 'c
    and ok :: "'c \<Rightarrow> bool"
    and norm :: "'c \<Rightarrow> 'c"
  assumes dec_enc: "ok c \<Longrightarrow> \<exists>b. enc c = Inr b \<and> dec zero b = (norm c, None)"
begin

lemma packet_round_trip:
  assumes "ok c" and "header_wf (Header p)"
  shows "\<exists>p1 raw p2. Packet_MarshalCIF enc p c = Inr p1 \<and> MarshalTo p1 = Inr raw \<and>
     Parse raw a = Inr p2 \<and> Header p2 = (Header p)\<lparr>Addr := a\<rparr> \<and>
     Packet_UnmarshalCIF dec p2 zero = (norm c, None)"
proof -
  obtain b where b: "enc c = Inr b" "dec zero b = (norm c, None)" using dec_enc assms(1) by blast
  then have m: "Packet_MarshalCIF enc p c = Inr (SetData p b)" by (simp add: Packet_MarshalCIF_def)
  have "Header (SetData p b) = Header p" "Data (SetData p b) = b" by (simp_all add: SetData_def)
  then show ?thesis
    using Parse_MarshalTo_eq [of "SetData p b" a] assms(2) b m
    by (fastforce simp: Packet_UnmarshalCIF_def)
qed

end

interpretation ack: cif_codec CIFACK_MarshalCIF CIFACK_UnmarshalCIF zero_CIFACK "\<lambda>_. True" "\<lambda>c. c"
  by unfold_locales (auto simp: CIFACK_MarshalCIF_def CIFACK_UnmarshalCIF_def zero_CIFACK_def Let_def)

interpretation nak: cif_codec CIFNAK_MarshalCIF CIFNAK_UnmarshalCIF "\<lparr>LossList = []\<rparr>"
    "\<lambda>c. length (LossList c) \<le> 8192 \<and> (\<forall>x \<in> set (LossList c). x \<le> Max)" "\<lambda>c. c"
proof unfold_locales
  fix c :: CIFNAK
  assume c: "length (LossList c) \<le> 8192 \<and> (\<forall>x \<in> set (LossList c). x \<le> Max)"
  then have "nak_decode 0 (concat (map put_be32 (nak_encode (LossList c)))) [] = (LossList c, None)"
    using nak_decode_encode [of "LossList c" "[]" 0] by (simp add: valid_seq_le_Max [symmetric] valid_seq_def)
  then show "\<exists>b. CIFNAK_MarshalCIF c = Inr b \<and> CIFNAK_UnmarshalCIF \<lparr>LossList = []\<rparr> b = (c, None)"
    by (cases "LossList c = []") (auto simp: CIFNAK_MarshalCIF_def CIFNAK_UnmarshalCIF_def)
qed

interpretation shutdown: cif_codec CIFShutdown_MarshalCIF CIFShutdown_UnmarshalCIF "()" "\<lambda>_. True" "\<lambda>c. c"
  by unfold_locales (simp add: CIFShutdown_MarshalCIF_def CIFShutdown_UnmarshalCIF_def)

interpretation dropreq: cif_codec CIFDropReq_MarshalCIF CIFDropReq_UnmarshalCIF
    "\<lparr>FirstSeqNo = 0, LastSeqNo = 0\<rparr>" "\<lambda>_. True" "\<lambda>c. c"
  by unfold_locales (auto simp: CIFDropReq_MarshalCIF_def CIFDropReq_UnmarshalCIF_def)

section \<open>Properties\<close>

text \<open>
  C5. Every packet with a well-formed header survives the wire: \<^verbatim>\<open>Parse\<close> of the bytes \<^verbatim>\<open>MarshalTo\<close>
  produces has the same header (with the sender's address filled in) and the same payload.
\<close>

theorem Parse_MarshalTo:
  assumes "header_wf (Header p)"
  shows "\<exists>raw p'. MarshalTo p = Inr raw \<and> Parse raw addr = Inr p' \<and>
     Header p' = (Header p)\<lparr>Addr := addr\<rparr> \<and> Data p' = Data p \<and> length raw = HeaderSize + length (Data p)"
  using Parse_MarshalTo_eq [OF assms, of addr] by (auto simp: HeaderSize_def)

theorem Parse_MarshalTo_witness:
  "\<exists>raw p'. MarshalTo (NewData None 0x7FFFFFFF 9 7 [1, 2, 3]) = Inr raw \<and> Parse raw None = Inr p' \<and>
     Data p' = [1, 2, 3]"
  using Parse_MarshalTo [of "NewData None 0x7FFFFFFF 9 7 [1, 2, 3]" None]
  by (auto simp: NewData_def header_wf_def zero_Header_def PositionSingle_def)

text \<open>
  C6. Parsing loses nothing: any datagram of at least 16 bytes is parsed without error, and
  marshalling the parsed packet gives exactly the received bytes; a shorter one is rejected.
\<close>

theorem MarshalTo_Parse:
  "if HeaderSize \<le> length raw
   then \<exists>p. Parse raw addr = Inr p \<and> MarshalTo p = Inr raw \<and> Addr (Header p) = addr
   else Parse raw addr = Inl (DataTooShort (length raw))"
  using MarshalTo_Parse_eq [of raw addr] by (simp add: HeaderSize_def Parse_def)

text \<open>
  C7. A NAK packet carries its loss list through range compression, packet marshalling, parsing and
  range expansion unchanged, for every list of at most 8192 sequence numbers.
\<close>

theorem NAK_round_trip:
  assumes "header_wf (Header p)" and "length l \<le> 8192" and "\<forall>x \<in> set l. x \<le> Max"
  shows "\<exists>p1 raw p2. Packet_MarshalCIF CIFNAK_MarshalCIF p \<lparr>LossList = l\<rparr> = Inr p1 \<and>
     MarshalTo p1 = Inr raw \<and> Parse raw addr = Inr p2 \<and>
     Packet_UnmarshalCIF CIFNAK_UnmarshalCIF p2 \<lparr>LossList = []\<rparr> = (\<lparr>LossList = l\<rparr>, None)"
  using nak.packet_round_trip [of "\<lparr>LossList = l\<rparr>" p addr] assms by auto

theorem NAK_round_trip_witness:
  "\<exists>p1 raw p2. Packet_MarshalCIF CIFNAK_MarshalCIF (NewControl None CtrlTypeNAK 7 9)
       \<lparr>LossList = [5, 6, 7, 9, 0x7FFFFFFF, 0]\<rparr> = Inr p1 \<and>
     MarshalTo p1 = Inr raw \<and> Parse raw None = Inr p2 \<and>
     Packet_UnmarshalCIF CIFNAK_UnmarshalCIF p2 \<lparr>LossList = []\<rparr> =
       (\<lparr>LossList = [5, 6, 7, 9, 0x7FFFFFFF, 0]\<rparr>, None)"
  by (rule NAK_round_trip)
    (auto simp: NewControl_def New_def header_wf_def zero_Header_def CtrlTypeNAK_def Max_def)

text \<open>
  C8. The loss list a NAK expands to is bounded, whatever the peer sends: it never holds more than 8193
  entries plus one for each 4-byte word of the packet, although a range can name $2^{31}$ numbers.
\<close>

theorem NAK_decode_bounded:
  "length (LossList (fst (CIFNAK_UnmarshalCIF c data))) \<le> 8193 + length data div 4"
  using nak_decode_length [of 0 data "[]"] by (auto simp: CIFNAK_UnmarshalCIF_def split: prod.splits)

text \<open>
  C9. The three ACK formats agree with the decoder: a full ACK restores every field; a small ACK
  restores the first four and leaves the rates of the receiver's structure alone; a 4-byte
  lite ACK changes the sequence number only.
\<close>

theorem ACK_formats:
  "(\<exists>b. CIFACK_MarshalCIF c = Inr b \<and> CIFACK_UnmarshalCIF c0 b = (c, None)) \<and>
   (\<exists>b. CIFACK_MarshalSmallCIF c = Inr b \<and>
     CIFACK_UnmarshalCIF c0 b =
       (c\<lparr>PacketsReceivingRate := PacketsReceivingRate c0,
          EstimatedLinkCapacity := EstimatedLinkCapacity c0, ReceivingRate := ReceivingRate c0\<rparr>, None)) \<and>
   CIFACK_UnmarshalCIF c0 (put_be32 s) = (c0\<lparr>LastACKPacketSequenceNumber := s\<rparr>, None)"
  by (cases c; cases c0)
    (auto simp: CIFACK_MarshalCIF_def CIFACK_MarshalSmallCIF_def CIFACK_UnmarshalCIF_def Let_def)

end
