(* ===== verification/Live_Cc.thy ===== *)
theory Live_Cc
  imports Go_Float Clock Packet_Wire
begin

text \<open>
  The bandwidth estimators of package \<^verbatim>\<open>congestion\<close> (\<^verbatim>\<open>probe.go\<close>, \<^verbatim>\<open>delivery.go\<close>) and the fixed-rate pacer
  of live mode (\<^verbatim>\<open>live.go\<close>). The atomics and the mutex of the source guard single fields; a method is
  one step on the record. The scratch buffer of the median filter is not part of the state.
\<close>

section \<open>Constants\<close>

definition DefaultMaxBW :: int where "DefaultMaxBW = 125000000"
definition DefaultOverhead :: int where "DefaultOverhead = 25"
definition DefaultPacketSize :: int where "DefaultPacketSize = 1316"
definition ProbeInterval :: u32 where "ProbeInterval = 16"
definition probeWindowSize :: nat where "probeWindowSize = 16"
definition deliveryWindowSize :: nat where "deliveryWindowSize = 16"
definition MaxInt64 :: int where "MaxInt64 = 9223372036854775807"

section \<open>Probe pairs\<close>

record probeEstimator =
  pe_lastSentSeq :: u32
  pe_maxPayloadSize :: int
  pe_probe1Time :: Timestamp
  pe_probe1Seq :: u32
  pe_probe1Valid :: bool
  pe_probeWindow :: "int list"
  pe_probePtr :: nat
  pe_initialized :: bool

definition initProbeWindow :: "int \<Rightarrow> probeEstimator" where
  "initProbeWindow maxPayload =
     \<lparr> pe_lastSentSeq = 0, pe_maxPayloadSize = maxPayload, pe_probe1Time = 0, pe_probe1Seq = 0,
       pe_probe1Valid = False, pe_probeWindow = replicate probeWindowSize 1000, pe_probePtr = 0,
       pe_initialized = False \<rparr>"

definition probe_onPacketSent :: "probeEstimator \<Rightarrow> u32 \<Rightarrow> probeEstimator" where
  "probe_onPacketSent pe seqNo = pe\<lparr>pe_lastSentSeq := seqNo\<rparr>"

definition isProbePacket :: "probeEstimator \<Rightarrow> bool" where
  "isProbePacket pe \<longleftrightarrow> pe_lastSentSeq pe mod ProbeInterval = 0"

definition probe_normalized :: "probeEstimator \<Rightarrow> int \<Rightarrow> int \<Rightarrow> int" where
  "probe_normalized pe timediff sz =
     (if 0 < pe_maxPayloadSize pe \<and> 0 < sz \<and> sz \<noteq> pe_maxPayloadSize pe
      then go_div (timediff * pe_maxPayloadSize pe) sz else timediff)"

definition probe_record :: "probeEstimator \<Rightarrow> int \<Rightarrow> probeEstimator" where
  "probe_record pe v =
     (let pe = pe\<lparr>pe_probeWindow := (pe_probeWindow pe)[pe_probePtr pe := v], pe_probePtr := pe_probePtr pe + 1\<rparr>
      in if probeWindowSize \<le> pe_probePtr pe then pe\<lparr>pe_probePtr := 0, pe_initialized := True\<rparr> else pe)"

definition probe_onPacketReceived :: "probeEstimator \<Rightarrow> u32 \<Rightarrow> int \<Rightarrow> Timestamp \<Rightarrow> probeEstimator" where
  "probe_onPacketReceived pe seqNo sz arrivalTime =
     (let inorder16 = seqNo mod ProbeInterval in
      if inorder16 = 0 then pe\<lparr>pe_probe1Time := arrivalTime, pe_probe1Seq := seqNo, pe_probe1Valid := True\<rparr>
      else if inorder16 = 1 then
        if \<not> pe_probe1Valid pe then pe
        else let expectedSeq = (if pe_probe1Seq pe = 0x7FFFFFFF then 0 else pe_probe1Seq pe + 1) in
          if seqNo \<noteq> expectedSeq then pe
          else let pe = pe\<lparr>pe_probe1Valid := False\<rparr>;
                   timediff = Timestamp_Sub arrivalTime (pe_probe1Time pe) in
            if timediff \<le> 0 then pe else probe_record pe (probe_normalized pe timediff sz)
      else pe)"

definition peakRangeFilter :: "int list \<Rightarrow> f64" where
  "peakRangeFilter window =
     (if window = [] then 0
      else let median = sort window ! (length window div 2) in
        if median \<le> 0 then 0
        else let kept = filter (\<lambda>v. median div 8 < v \<and> v < median * 8) window in
          fdiv (f_of_int (sum_list kept + median)) (f_of_int (int (length kept) + 1)))"

definition estimatedBandwidth :: "probeEstimator \<Rightarrow> u32" where
  "estimatedBandwidth pe =
     (let avg = peakRangeFilter (pe_probeWindow pe) in
      if avg \<le> 0 then 0 else word_of_int (f_to_int (math_Ceil (fdiv 1000000 avg))))"

section \<open>Delivery rate\<close>

record deliveryEstimator =
  de_maxPayloadSize :: int
  de_lastArrivalTime :: Timestamp
  de_hasLastArrival :: bool
  de_pktWindow :: "int list"
  de_bytesWindow :: "int list"
  de_pktPtr :: nat
  de_initialized :: bool

definition initDeliveryWindow :: "int \<Rightarrow> deliveryEstimator" where
  "initDeliveryWindow maxPayload =
     \<lparr> de_maxPayloadSize = maxPayload, de_lastArrivalTime = 0, de_hasLastArrival = False,
       de_pktWindow = replicate deliveryWindowSize 1000000,
       de_bytesWindow = replicate deliveryWindowSize maxPayload, de_pktPtr = 0, de_initialized = False \<rparr>"

definition delivery_onPktArrival :: "deliveryEstimator \<Rightarrow> int \<Rightarrow> Timestamp \<Rightarrow> deliveryEstimator" where
  "delivery_onPktArrival de sz arrivalTime =
     (if \<not> de_hasLastArrival de then de\<lparr>de_lastArrivalTime := arrivalTime, de_hasLastArrival := True\<rparr>
      else let interval = Timestamp_Sub arrivalTime (de_lastArrivalTime de);
               de = de\<lparr>de_lastArrivalTime := arrivalTime,
                       de_pktWindow := (de_pktWindow de)[de_pktPtr de := interval],
                       de_bytesWindow := (de_bytesWindow de)[de_pktPtr de := sz],
                       de_pktPtr := de_pktPtr de + 1\<rparr> in
        if deliveryWindowSize \<le> de_pktPtr de then de\<lparr>de_pktPtr := 0, de_initialized := True\<rparr> else de)"

definition deliveryRateFilter :: "int list \<Rightarrow> int list \<Rightarrow> u32 \<times> u32" where
  "deliveryRateFilter timeWindow bytesWindow =
     (let n = length timeWindow in
      if n = 0 then (0, 0)
      else let median = sort timeWindow ! (n div 2) in
        if median \<le> 0 then (0, 0)
        else let kept = filter (\<lambda>(v, _). median div 8 < v \<and> v < median * 8) (zip timeWindow bytesWindow);
                 total = sum_list (map fst kept); count = length kept in
          if count \<le> n div 2 then (0, 0)
          else let totalBytes = sum_list (map snd kept) + int WireHeaderSize * int count;
                   avgInterval = fdiv (f_of_int total) (f_of_int (int count)) in
            if avgInterval \<le> 0 then (0, 0)
            else (word_of_int (f_to_int (math_Ceil (fdiv 1000000 avgInterval))),
                  word_of_int (f_to_int (math_Ceil
                    (fdiv (fmul 1000000 (f_of_int totalBytes)) (f_of_int total))))))"

definition getPktRcvSpeed :: "deliveryEstimator \<Rightarrow> u32 \<times> u32" where
  "getPktRcvSpeed de =
     (if \<not> de_initialized de then (0, 0) else deliveryRateFilter (de_pktWindow de) (de_bytesWindow de))"

section \<open>LiveCC\<close>

record LiveCC =
  lc_maxBW :: int
  lc_avgPayloadSize :: int
  lc_lastSentSeq :: u32
  lc_overhead :: int
  lc_packetSize :: int
  lc_probe :: probeEstimator
  lc_delivery :: deliveryEstimator

datatype cc_err = PayloadTooLarge int int

definition NewLiveCC :: "int \<Rightarrow> int \<Rightarrow> LiveCC" where
  "NewLiveCC maxBW packetSize =
     (let maxBW = (if maxBW \<le> 0 then DefaultMaxBW else maxBW);
          packetSize = (if packetSize \<le> 0 then DefaultPacketSize else packetSize) in
      \<lparr> lc_maxBW = maxBW, lc_avgPayloadSize = packetSize, lc_lastSentSeq = 0, lc_overhead = DefaultOverhead,
        lc_packetSize = packetSize, lc_probe = initProbeWindow packetSize,
        lc_delivery = initDeliveryWindow packetSize \<rparr>)"

definition Live_PacketInterval :: "LiveCC \<Rightarrow> Microseconds" where
  "Live_PacketInterval cc =
     (if lc_maxBW cc \<le> 0 then Millisecond
      else let pktSize = lc_avgPayloadSize cc + int WireHeaderSize;
               interval = go_div (Second * pktSize) (lc_maxBW cc) in
        if interval \<le> 0 then 1 else interval)"

definition Live_OnACK ::
    "LiveCC \<Rightarrow> Timestamp \<Rightarrow> u32 \<Rightarrow> Microseconds \<Rightarrow> u32 \<Rightarrow> u32 \<Rightarrow> LiveCC" where
  "Live_OnACK cc now ackSeqNo rtt bandwidth rate = cc"

definition Live_OnNAK :: "LiveCC \<Rightarrow> u32 list \<Rightarrow> LiveCC" where
  "Live_OnNAK cc lossSeqs = cc"

definition Live_OnTimeout :: "LiveCC \<Rightarrow> LiveCC" where
  "Live_OnTimeout cc = cc"

definition Live_OnPacketSent :: "LiveCC \<Rightarrow> u32 \<Rightarrow> int \<Rightarrow> LiveCC" where
  "Live_OnPacketSent cc seqNo sz =
     (let cc = cc\<lparr>lc_lastSentSeq := seqNo\<rparr> in
      if 0 < sz then cc\<lparr>lc_avgPayloadSize := go_div (lc_avgPayloadSize cc * 127 + sz) 128\<rparr> else cc)"

definition Live_IsProbePacket :: "LiveCC \<Rightarrow> bool" where
  "Live_IsProbePacket cc \<longleftrightarrow> lc_lastSentSeq cc mod ProbeInterval = 0"

definition Live_OnPacketReceived :: "LiveCC \<Rightarrow> u32 \<Rightarrow> int \<Rightarrow> Timestamp \<Rightarrow> LiveCC" where
  "Live_OnPacketReceived cc seqNo sz t = cc\<lparr>lc_probe := probe_onPacketReceived (lc_probe cc) seqNo sz t\<rparr>"

definition Live_OnPktArrival :: "LiveCC \<Rightarrow> int \<Rightarrow> Timestamp \<Rightarrow> LiveCC" where
  "Live_OnPktArrival cc sz t = cc\<lparr>lc_delivery := delivery_onPktArrival (lc_delivery cc) sz t\<rparr>"

definition Live_EstimatedBandwidth :: "LiveCC \<Rightarrow> u32" where
  "Live_EstimatedBandwidth cc = estimatedBandwidth (lc_probe cc)"

definition Live_DeliveryRate :: "LiveCC \<Rightarrow> u32 \<times> u32" where
  "Live_DeliveryRate cc = getPktRcvSpeed (lc_delivery cc)"

definition Live_SetMaxBandwidth :: "LiveCC \<Rightarrow> int \<Rightarrow> LiveCC" where
  "Live_SetMaxBandwidth cc bw = cc\<lparr>lc_maxBW := bw\<rparr>"

definition Live_UpdateBandwidth :: "LiveCC \<Rightarrow> int \<Rightarrow> int \<Rightarrow> LiveCC" where
  "Live_UpdateBandwidth cc maxBW inputBW =
     (if 0 < maxBW then cc\<lparr>lc_maxBW := maxBW\<rparr>
      else if 0 < inputBW then
        let ohead = lc_overhead cc;
            extra = go_div inputBW 100 * ohead + go_div (go_mod inputBW 100 * ohead) 100 in
        if MaxInt64 - extra < inputBW then cc\<lparr>lc_maxBW := MaxInt64\<rparr> else cc\<lparr>lc_maxBW := inputBW + extra\<rparr>
      else cc)"

definition clamp_pct :: "int \<Rightarrow> int" where
  "clamp_pct pct = (let pct = (if pct < 0 then 0 else pct) in if 100 < pct then 100 else pct)"

definition Live_SetOverhead :: "LiveCC \<Rightarrow> int \<Rightarrow> LiveCC" where
  "Live_SetOverhead cc pct = cc\<lparr>lc_overhead := clamp_pct pct\<rparr>"

definition Live_MaxBandwidth :: "LiveCC \<Rightarrow> int" where "Live_MaxBandwidth cc = lc_maxBW cc"

definition Live_CongestionWindow :: "LiveCC \<Rightarrow> int" where "Live_CongestionWindow cc = MaxInt64"

definition Live_MinNAKInterval :: "LiveCC \<Rightarrow> Microseconds" where "Live_MinNAKInterval cc = 20000"

definition Live_UpdateNAKInterval :: "LiveCC \<Rightarrow> int \<Rightarrow> int \<Rightarrow> int \<Rightarrow> int" where
  "Live_UpdateNAKInterval cc nakInt rcvSpeed lossLength = go_div nakInt 2"

definition Live_CheckTransArgs :: "LiveCC \<Rightarrow> bool \<Rightarrow> int \<Rightarrow> bool \<Rightarrow> cc_err option" where
  "Live_CheckTransArgs cc msgAPI sz isWrite =
     (if isWrite \<and> msgAPI \<and> lc_packetSize cc < sz then Some (PayloadTooLarge sz (lc_packetSize cc)) else None)"

definition Live_ACKMaxPackets :: "LiveCC \<Rightarrow> int" where "Live_ACKMaxPackets cc = 0"

definition Live_ACKTimeoutUS :: "LiveCC \<Rightarrow> int" where "Live_ACKTimeoutUS cc = 0"

section \<open>Pacing\<close>

text \<open>
  The input rate is scaled by the overhead without an intermediate overflow, and saturates.
\<close>

lemma overhead_split:
  assumes "0 \<le> (x::int)" "0 \<le> p"
  shows "go_div x 100 * p + go_div (go_mod x 100 * p) 100 = x * p div 100"
proof -
  have "x * p = (x div 100 * p) * 100 + x mod 100 * p"
    by (metis div_mult_mod_eq distrib_right mult.assoc mult.commute)
  then have "x * p div 100 = x div 100 * p + (x mod 100 * p) div 100" by simp
  then show ?thesis using assms by (simp add: go_div_nonneg go_mod_nonneg)
qed

lemma UpdateBandwidth_rate:
  assumes "0 < inputBW" "0 \<le> lc_overhead cc"
  shows "lc_maxBW (Live_UpdateBandwidth cc 0 inputBW)
           = min MaxInt64 (inputBW + inputBW * lc_overhead cc div 100)"
  using assms by (simp add: Live_UpdateBandwidth_def Let_def overhead_split min_def)

end
