(* ===== verification/File_Cc.thy ===== *)
theory File_Cc
  imports Live_Cc Seq
begin

text \<open>
  The window-based controller of file mode (\<^verbatim>\<open>file.go\<close>). Its floating-point state is held as the
  rational values of the doubles, with the rounding of every operation; the decimal constants of the
  source are the doubles nearest to them. \<^verbatim>\<open>rand.Intn\<close> is an argument of the one method that draws a number.
\<close>

section \<open>Constants and state\<close>

definition fileCCInitialCWND :: f64 where "fileCCInitialCWND = 16"
definition fileCCInitialPeriod :: f64 where "fileCCInitialPeriod = 1"
definition fileCCRCInterval :: int where "fileCCRCInterval = 10000"
definition fileCCLossIncrease :: f64 where "fileCCLossIncrease = f64 (103 / 100)"
definition fileCCBeta :: f64 where "fileCCBeta = f64 (15 / 10000000)"
definition fileCCMaxDecCount :: int where "fileCCMaxDecCount = 5"
definition fileCCLossThreshold :: f64 where "fileCCLossThreshold = 20"
definition fileCCShareFactor :: rat where "fileCCShareFactor = 3 / 100"

record FileCC =
  fcc_cwnd :: f64
  fcc_maxCWND :: f64
  fcc_sndPeriod :: f64
  fcc_slowStart :: bool
  fcc_lastAck :: u32
  fcc_lastRCTime :: Timestamp
  fcc_rcInit :: bool
  fcc_loss :: bool
  fcc_lastDecSeq :: u32
  fcc_lastDecPeriod :: f64
  fcc_nakCount :: int
  fcc_avgNAKNum :: int
  fcc_decCount :: int
  fcc_decRandom :: int
  fcc_deliveryRate :: f64
  fcc_bwEstimate :: f64
  fcc_rtt :: f64
  fcc_lastSentSeq :: u32
  fcc_sndLossLength :: int
  fcc_maxBW :: int
  fcc_overhead :: int
  fcc_packetSize :: int
  fcc_probe :: probeEstimator
  fcc_delivery :: deliveryEstimator

definition NewFileCC :: "int \<Rightarrow> int \<Rightarrow> int \<Rightarrow> u32 \<Rightarrow> FileCC" where
  "NewFileCC maxBW packetSize fc isn =
     (let packetSize = (if packetSize \<le> 0 then DefaultPacketSize else packetSize);
          fc = (if fc \<le> 0 then 8192 else fc) in
      \<lparr> fcc_cwnd = fileCCInitialCWND, fcc_maxCWND = f_of_int fc, fcc_sndPeriod = fileCCInitialPeriod,
        fcc_slowStart = True, fcc_lastAck = Value (Dec isn), fcc_lastRCTime = 0, fcc_rcInit = False,
        fcc_loss = False, fcc_lastDecSeq = Value (Dec (Dec isn)), fcc_lastDecPeriod = fileCCInitialPeriod,
        fcc_nakCount = 0, fcc_avgNAKNum = 0, fcc_decCount = 0, fcc_decRandom = 1,
        fcc_deliveryRate = 0, fcc_bwEstimate = 0, fcc_rtt = 0, fcc_lastSentSeq = 0, fcc_sndLossLength = 0,
        fcc_maxBW = maxBW, fcc_overhead = DefaultOverhead, fcc_packetSize = packetSize,
        fcc_probe = initProbeWindow packetSize, fcc_delivery = initDeliveryWindow packetSize \<rparr>)"

section \<open>Sequence helpers\<close>

definition seqLen :: "u32 \<Rightarrow> u32 \<Rightarrow> int" where
  "seqLen seq1 seq2 = uint ((seq2 - seq1 + 0x80000000) AND 0x7FFFFFFF)"

text \<open>\<^verbatim>\<open>int(int32(a) - int32(b))\<close>: the difference wraps at 32 bits before it is widened.\<close>

definition seqCmp :: "u32 \<Rightarrow> u32 \<Rightarrow> int" where
  "seqCmp a b = sint (a - b)"

section \<open>Rate control\<close>

definition File_PacketInterval :: "FileCC \<Rightarrow> Microseconds" where
  "File_PacketInterval cc =
     (let period = (if fcc_sndPeriod cc < 1 then 1 else fcc_sndPeriod cc) in f_to_int period)"

definition exitSlowStart :: "FileCC \<Rightarrow> FileCC" where
  "exitSlowStart cc =
     (if 0 < fcc_deliveryRate cc then cc\<lparr>fcc_sndPeriod := fdiv 1000000 (fcc_deliveryRate cc)\<rparr>
      else if 0 < fcc_rtt cc
      then cc\<lparr>fcc_sndPeriod := fdiv (fcc_cwnd cc) (fadd (fcc_rtt cc) (of_int fileCCRCInterval))\<rparr>
      else cc)"

definition wire_mss :: "FileCC \<Rightarrow> f64" where
  "wire_mss cc =
     (let mss = fadd (f_of_int (fcc_packetSize cc)) (of_nat WireHeaderSize) in
      if mss \<le> of_nat WireHeaderSize then fadd (of_int DefaultPacketSize) (of_nat WireHeaderSize) else mss)"

definition rate_step :: "f64 \<Rightarrow> f64 \<Rightarrow> f64" where
  "rate_step B mss =
     (if B \<le> 0 then fdiv 1 mss
      else let inc = fdiv (fmul (pow10 (ceil_log10 (fmul (fmul B mss) 8))) fileCCBeta) mss in
        if inc < fdiv 1 mss then fdiv 1 mss else inc)"

definition rateIncrease :: "FileCC \<Rightarrow> FileCC" where
  "rateIncrease cc =
     (if fcc_sndPeriod cc \<le> 0 then cc
      else let lossBW = fmul 2 (fdiv 1000000 (fcc_lastDecPeriod cc));
               bwPktPS = min lossBW (fcc_bwEstimate cc);
               bwPktPS = (if bwPktPS \<le> 0 then lossBW else bwPktPS);
               B = fsub bwPktPS (fdiv 1000000 (fcc_sndPeriod cc));
               B = (if fcc_lastDecPeriod cc < fcc_sndPeriod cc \<and> fdiv bwPktPS 9 < B then fdiv bwPktPS 9 else B);
               inc = rate_step B (wire_mss cc) in
        cc\<lparr>fcc_sndPeriod :=
             fdiv (fmul (fcc_sndPeriod cc) (of_int fileCCRCInterval))
                  (fadd (fmul (fcc_sndPeriod cc) inc) (of_int fileCCRCInterval))\<rparr>)"

definition min_period :: "FileCC \<Rightarrow> f64" where
  "min_period cc = fdiv 1000000 (fdiv (f_of_int (fcc_maxBW cc)) (wire_mss cc))"

definition enforceMaxBW :: "FileCC \<Rightarrow> FileCC" where
  "enforceMaxBW cc =
     (if fcc_maxBW cc \<le> 0 then cc
      else if fcc_sndPeriod cc < min_period cc then cc\<lparr>fcc_sndPeriod := min_period cc\<rparr> else cc)"

definition note_estimates :: "FileCC \<Rightarrow> Microseconds \<Rightarrow> u32 \<Rightarrow> u32 \<Rightarrow> FileCC" where
  "note_estimates cc rtt bandwidth rate =
     (let cc = (if 0 < rtt then cc\<lparr>fcc_rtt := f_of_int rtt\<rparr> else cc);
          cc = (if 0 < bandwidth then cc\<lparr>fcc_bwEstimate := f_of_int (uint bandwidth)\<rparr> else cc) in
      if 0 < rate then cc\<lparr>fcc_deliveryRate := f_of_int (uint rate)\<rparr> else cc)"

definition slow_start_ack :: "FileCC \<Rightarrow> u32 \<Rightarrow> FileCC" where
  "slow_start_ack cc ackSeqNo =
     (let acked = seqLen (fcc_lastAck cc) ackSeqNo;
          cc = (if 0 < acked then cc\<lparr>fcc_cwnd := fadd (fcc_cwnd cc) (f_of_int acked)\<rparr> else cc);
          cc = cc\<lparr>fcc_lastAck := ackSeqNo\<rparr> in
      if fcc_maxCWND cc < fcc_cwnd cc then exitSlowStart (cc\<lparr>fcc_slowStart := False\<rparr>) else cc)"

definition avoidance_ack :: "FileCC \<Rightarrow> FileCC" where
  "avoidance_ack cc =
     (let cc = (if 0 < fcc_deliveryRate cc
                then cc\<lparr>fcc_cwnd := fadd (fmul (fdiv (fcc_deliveryRate cc) 1000000)
                                            (fadd (fcc_rtt cc) (of_int fileCCRCInterval))) 16\<rparr>
                else cc) in
      if fcc_loss cc then cc\<lparr>fcc_loss := False\<rparr> else rateIncrease cc)"

definition File_OnACK ::
    "FileCC \<Rightarrow> Timestamp \<Rightarrow> u32 \<Rightarrow> Microseconds \<Rightarrow> u32 \<Rightarrow> u32 \<Rightarrow> FileCC" where
  "File_OnACK cc now ackSeqNo rtt bandwidth rate =
     (let cc = note_estimates cc rtt bandwidth rate in
      if \<not> fcc_rcInit cc then cc\<lparr>fcc_rcInit := True, fcc_lastRCTime := now\<rparr>
      else if Timestamp_Sub now (fcc_lastRCTime cc) < fileCCRCInterval then cc
      else let cc = cc\<lparr>fcc_lastRCTime := now\<rparr> in
        enforceMaxBW (if fcc_slowStart cc then slow_start_ack cc ackSeqNo else avoidance_ack cc))"

definition leave_slow_start :: "FileCC \<Rightarrow> FileCC" where
  "leave_slow_start cc = (if fcc_slowStart cc then exitSlowStart (cc\<lparr>fcc_slowStart := False\<rparr>) else cc)"

definition File_OnTimeout :: "FileCC \<Rightarrow> FileCC" where
  "File_OnTimeout cc = leave_slow_start cc"

definition SetSndLossLength :: "FileCC \<Rightarrow> int \<Rightarrow> FileCC" where
  "SetSndLossLength cc n = cc\<lparr>fcc_sndLossLength := n\<rparr>"

text \<open>The test that skips the decrease while the loss is below two percent of the packets in flight.\<close>

definition loss_below_threshold :: "FileCC \<Rightarrow> bool" where
  "loss_below_threshold cc \<longleftrightarrow>
     0 < fcc_sndPeriod cc \<and> 0 < fcc_rtt cc \<and>
     (let pktsInFlight = fdiv (fcc_rtt cc) (fcc_sndPeriod cc) in
      0 < pktsInFlight \<and>
      fdiv (fmul (f_of_int (fcc_sndLossLength cc)) 1000) pktsInFlight < fileCCLossThreshold)"

definition new_epoch :: "(int \<Rightarrow> int) \<Rightarrow> FileCC \<Rightarrow> FileCC" where
  "new_epoch intn cc =
     (let cc = cc\<lparr>fcc_lastDecPeriod := fcc_sndPeriod cc,
                  fcc_sndPeriod := math_Ceil (fmul (fcc_sndPeriod cc) fileCCLossIncrease),
                  fcc_avgNAKNum := f_to_int (math_Ceil
                    (fadd (fmul (f_of_int (fcc_avgNAKNum cc)) (f64 (1 - fileCCShareFactor)))
                          (fmul (f_of_int (fcc_nakCount cc)) (f64 fileCCShareFactor)))),
                  fcc_nakCount := 1, fcc_decCount := 1, fcc_lastDecSeq := fcc_lastSentSeq cc\<rparr> in
      cc\<lparr>fcc_decRandom := (if 1 < fcc_avgNAKNum cc then intn (fcc_avgNAKNum cc) + 1 else 1)\<rparr>)"

definition within_epoch :: "FileCC \<Rightarrow> FileCC" where
  "within_epoch cc =
     (if fcc_decCount cc < fileCCMaxDecCount then
        let cc = cc\<lparr>fcc_decCount := fcc_decCount cc + 1, fcc_nakCount := fcc_nakCount cc + 1\<rparr> in
        if 0 < fcc_decRandom cc \<and> go_mod (fcc_nakCount cc) (fcc_decRandom cc) = 0
        then cc\<lparr>fcc_sndPeriod := math_Ceil (fmul (fcc_sndPeriod cc) fileCCLossIncrease),
                fcc_lastDecSeq := fcc_lastSentSeq cc\<rparr>
        else cc
      else cc)"

definition File_OnNAK :: "(int \<Rightarrow> int) \<Rightarrow> FileCC \<Rightarrow> u32 list \<Rightarrow> FileCC" where
  "File_OnNAK intn cc lossSeqs =
     (case lossSeqs of
        [] \<Rightarrow> cc
      | lossBegin # _ \<Rightarrow>
          let cc = (leave_slow_start cc)\<lparr>fcc_loss := True\<rparr> in
          if loss_below_threshold cc then cc\<lparr>fcc_lastDecPeriod := fcc_sndPeriod cc\<rparr>
          else enforceMaxBW (if 0 < seqCmp lossBegin (fcc_lastDecSeq cc) then new_epoch intn cc
                             else within_epoch cc))"

section \<open>The remaining methods\<close>

definition File_OnPacketSent :: "FileCC \<Rightarrow> u32 \<Rightarrow> int \<Rightarrow> FileCC" where
  "File_OnPacketSent cc seqNo sz =
     cc\<lparr>fcc_lastSentSeq := seqNo, fcc_probe := probe_onPacketSent (fcc_probe cc) seqNo\<rparr>"

definition File_OnPacketReceived :: "FileCC \<Rightarrow> u32 \<Rightarrow> int \<Rightarrow> Timestamp \<Rightarrow> FileCC" where
  "File_OnPacketReceived cc seqNo sz t = cc\<lparr>fcc_probe := probe_onPacketReceived (fcc_probe cc) seqNo sz t\<rparr>"

definition File_OnPktArrival :: "FileCC \<Rightarrow> int \<Rightarrow> Timestamp \<Rightarrow> FileCC" where
  "File_OnPktArrival cc sz t = cc\<lparr>fcc_delivery := delivery_onPktArrival (fcc_delivery cc) sz t\<rparr>"

definition File_IsProbePacket :: "FileCC \<Rightarrow> bool" where
  "File_IsProbePacket cc = isProbePacket (fcc_probe cc)"

definition File_EstimatedBandwidth :: "FileCC \<Rightarrow> u32" where
  "File_EstimatedBandwidth cc = estimatedBandwidth (fcc_probe cc)"

definition File_DeliveryRate :: "FileCC \<Rightarrow> u32 \<times> u32" where
  "File_DeliveryRate cc = getPktRcvSpeed (fcc_delivery cc)"

definition File_CongestionWindow :: "FileCC \<Rightarrow> int" where
  "File_CongestionWindow cc = (let cwnd = f_to_int (fcc_cwnd cc) in if cwnd < 2 then 2 else cwnd)"

definition File_MinNAKInterval :: "FileCC \<Rightarrow> Microseconds" where "File_MinNAKInterval cc = 0"

definition File_UpdateNAKInterval :: "FileCC \<Rightarrow> int \<Rightarrow> int \<Rightarrow> int \<Rightarrow> int" where
  "File_UpdateNAKInterval cc nakInt rcvSpeed lossLength = nakInt"

definition File_CheckTransArgs :: "FileCC \<Rightarrow> bool \<Rightarrow> int \<Rightarrow> bool \<Rightarrow> cc_err option" where
  "File_CheckTransArgs cc msgAPI sz isWrite = None"

definition File_ACKMaxPackets :: "FileCC \<Rightarrow> int" where "File_ACKMaxPackets cc = 0"

definition File_ACKTimeoutUS :: "FileCC \<Rightarrow> int" where "File_ACKTimeoutUS cc = 0"

definition File_SetMaxBandwidth :: "FileCC \<Rightarrow> int \<Rightarrow> FileCC" where
  "File_SetMaxBandwidth cc bw = cc\<lparr>fcc_maxBW := bw\<rparr>"

definition File_SetOverhead :: "FileCC \<Rightarrow> int \<Rightarrow> FileCC" where
  "File_SetOverhead cc pct = cc\<lparr>fcc_overhead := clamp_pct pct\<rparr>"

definition File_UpdateBandwidth :: "FileCC \<Rightarrow> int \<Rightarrow> int \<Rightarrow> FileCC" where
  "File_UpdateBandwidth cc maxBW inputBW = cc"

definition File_MaxBandwidth :: "FileCC \<Rightarrow> int" where "File_MaxBandwidth cc = fcc_maxBW cc"

end
