(* ===== verification/Controller.thy ===== *)
theory Controller
  imports File_Cc
begin

text \<open>
  The interface \<^verbatim>\<open>congestion.Controller\<close> (\<^verbatim>\<open>congestion.go\<close>) as the connection uses it: a value holds one of
  the two implementations, and a call is dispatched to its methods. The locale states what the
  connection relies on; both implementations interpret it.
\<close>

section \<open>Dispatch\<close>

datatype Controller = Live LiveCC | File FileCC

primrec PacketInterval :: "Controller \<Rightarrow> Microseconds" where
  "PacketInterval (Live cc) = Live_PacketInterval cc"
| "PacketInterval (File cc) = File_PacketInterval cc"

primrec IsProbePacket :: "Controller \<Rightarrow> bool" where
  "IsProbePacket (Live cc) = Live_IsProbePacket cc"
| "IsProbePacket (File cc) = File_IsProbePacket cc"

primrec EstimatedBandwidth :: "Controller \<Rightarrow> u32" where
  "EstimatedBandwidth (Live cc) = Live_EstimatedBandwidth cc"
| "EstimatedBandwidth (File cc) = File_EstimatedBandwidth cc"

primrec DeliveryRate :: "Controller \<Rightarrow> u32 \<times> u32" where
  "DeliveryRate (Live cc) = Live_DeliveryRate cc"
| "DeliveryRate (File cc) = File_DeliveryRate cc"

primrec MaxBandwidth :: "Controller \<Rightarrow> int" where
  "MaxBandwidth (Live cc) = Live_MaxBandwidth cc"
| "MaxBandwidth (File cc) = File_MaxBandwidth cc"

primrec CongestionWindow :: "Controller \<Rightarrow> int" where
  "CongestionWindow (Live cc) = Live_CongestionWindow cc"
| "CongestionWindow (File cc) = File_CongestionWindow cc"

primrec MinNAKInterval :: "Controller \<Rightarrow> Microseconds" where
  "MinNAKInterval (Live cc) = Live_MinNAKInterval cc"
| "MinNAKInterval (File cc) = File_MinNAKInterval cc"

primrec UpdateNAKInterval :: "Controller \<Rightarrow> int \<Rightarrow> int \<Rightarrow> int \<Rightarrow> int" where
  "UpdateNAKInterval (Live cc) = Live_UpdateNAKInterval cc"
| "UpdateNAKInterval (File cc) = File_UpdateNAKInterval cc"

primrec OnACK :: "Controller \<Rightarrow> Timestamp \<Rightarrow> u32 \<Rightarrow> Microseconds \<Rightarrow> u32 \<Rightarrow> u32 \<Rightarrow> Controller" where
  "OnACK (Live cc) now ack rtt bw rate = Live (Live_OnACK cc now ack rtt bw rate)"
| "OnACK (File cc) now ack rtt bw rate = File (File_OnACK cc now ack rtt bw rate)"

primrec OnNAK :: "(int \<Rightarrow> int) \<Rightarrow> Controller \<Rightarrow> u32 list \<Rightarrow> Controller" where
  "OnNAK intn (Live cc) ls = Live (Live_OnNAK cc ls)"
| "OnNAK intn (File cc) ls = File (File_OnNAK intn cc ls)"

primrec OnTimeout :: "Controller \<Rightarrow> Controller" where
  "OnTimeout (Live cc) = Live (Live_OnTimeout cc)"
| "OnTimeout (File cc) = File (File_OnTimeout cc)"

primrec OnPacketSent :: "Controller \<Rightarrow> u32 \<Rightarrow> int \<Rightarrow> Controller" where
  "OnPacketSent (Live cc) s sz = Live (Live_OnPacketSent cc s sz)"
| "OnPacketSent (File cc) s sz = File (File_OnPacketSent cc s sz)"

primrec OnPacketReceived :: "Controller \<Rightarrow> u32 \<Rightarrow> int \<Rightarrow> Timestamp \<Rightarrow> Controller" where
  "OnPacketReceived (Live cc) s sz t = Live (Live_OnPacketReceived cc s sz t)"
| "OnPacketReceived (File cc) s sz t = File (File_OnPacketReceived cc s sz t)"

primrec OnPktArrival :: "Controller \<Rightarrow> int \<Rightarrow> Timestamp \<Rightarrow> Controller" where
  "OnPktArrival (Live cc) sz t = Live (Live_OnPktArrival cc sz t)"
| "OnPktArrival (File cc) sz t = File (File_OnPktArrival cc sz t)"

primrec SetMaxBandwidth :: "Controller \<Rightarrow> int \<Rightarrow> Controller" where
  "SetMaxBandwidth (Live cc) bw = Live (Live_SetMaxBandwidth cc bw)"
| "SetMaxBandwidth (File cc) bw = File (File_SetMaxBandwidth cc bw)"

primrec SetOverhead :: "Controller \<Rightarrow> int \<Rightarrow> Controller" where
  "SetOverhead (Live cc) pct = Live (Live_SetOverhead cc pct)"
| "SetOverhead (File cc) pct = File (File_SetOverhead cc pct)"

primrec UpdateBandwidth :: "Controller \<Rightarrow> int \<Rightarrow> int \<Rightarrow> Controller" where
  "UpdateBandwidth (Live cc) maxBW inputBW = Live (Live_UpdateBandwidth cc maxBW inputBW)"
| "UpdateBandwidth (File cc) maxBW inputBW = File (File_UpdateBandwidth cc maxBW inputBW)"

text \<open>The calls that change a controller, each with the arguments the connection passes.\<close>

datatype cc_call =
    CallACK Timestamp u32 Microseconds u32 u32 | CallNAK "int \<Rightarrow> int" "u32 list" | CallTimeout
  | CallSent u32 int | CallReceived u32 int Timestamp | CallArrival int Timestamp
  | CallSetMaxBW int | CallSetOverhead int | CallUpdateBW int int

primrec cc_step :: "cc_call \<Rightarrow> Controller \<Rightarrow> Controller" where
  "cc_step (CallACK now ack rtt bw rate) c = OnACK c now ack rtt bw rate"
| "cc_step (CallNAK intn ls) c = OnNAK intn c ls"
| "cc_step CallTimeout c = OnTimeout c"
| "cc_step (CallSent s sz) c = OnPacketSent c s sz"
| "cc_step (CallReceived s sz t) c = OnPacketReceived c s sz t"
| "cc_step (CallArrival sz t) c = OnPktArrival c sz t"
| "cc_step (CallSetMaxBW bw) c = SetMaxBandwidth c bw"
| "cc_step (CallSetOverhead pct) c = SetOverhead c pct"
| "cc_step (CallUpdateBW m i) c = UpdateBandwidth c m i"

text \<open>What \<^verbatim>\<open>rand.Intn\<close> promises, and what the connection passes as a packet size.\<close>

fun call_ok :: "cc_call \<Rightarrow> bool" where
  "call_ok (CallNAK intn ls) \<longleftrightarrow> (\<forall>n>0. 0 \<le> intn n \<and> intn n < n)"
| "call_ok (CallSent s sz) \<longleftrightarrow> 0 \<le> sz"
| "call_ok _ \<longleftrightarrow> True"

definition live_step :: "cc_call \<Rightarrow> LiveCC \<Rightarrow> LiveCC" where
  "live_step k cc = (case cc_step k (Live cc) of Live cc' \<Rightarrow> cc' | File _ \<Rightarrow> cc)"

definition file_step :: "cc_call \<Rightarrow> FileCC \<Rightarrow> FileCC" where
  "file_step k cc = (case cc_step k (File cc) of File cc' \<Rightarrow> cc' | Live _ \<Rightarrow> cc)"

text \<open>The divisors of the controller's arithmetic stay positive.\<close>

definition live_inv :: "LiveCC \<Rightarrow> bool" where
  "live_inv cc \<longleftrightarrow> 0 \<le> lc_avgPayloadSize cc \<and> 0 \<le> lc_overhead cc \<and> lc_overhead cc \<le> 100
     \<and> length (pe_probeWindow (lc_probe cc)) = 16 \<and> pe_probePtr (lc_probe cc) < 16"

definition file_inv :: "FileCC \<Rightarrow> bool" where
  "file_inv cc \<longleftrightarrow> 0 < fcc_sndPeriod cc \<and> 0 < fcc_lastDecPeriod cc \<and> 0 < fcc_cwnd cc \<and> 0 < fcc_packetSize cc
     \<and> 0 \<le> fcc_rtt cc \<and> 0 \<le> fcc_deliveryRate cc \<and> 0 \<le> fcc_nakCount cc
     \<and> 0 \<le> fcc_avgNAKNum cc \<and> 1 \<le> fcc_decRandom cc"

section \<open>The contract\<close>

locale congestion_controller =
  fixes inv :: "'c \<Rightarrow> bool"
    and step :: "cc_call \<Rightarrow> 'c \<Rightarrow> 'c"
    and interval :: "'c \<Rightarrow> Microseconds"
    and window :: "'c \<Rightarrow> int"
  assumes inv_step: "inv c \<Longrightarrow> call_ok k \<Longrightarrow> inv (step k c)"
    and interval_pos: "inv c \<Longrightarrow> 1 \<le> interval c"
    and window_two: "inv c \<Longrightarrow> 2 \<le> window c"
begin

lemma inv_fold: "inv c \<Longrightarrow> list_all call_ok ks \<Longrightarrow> inv (fold step ks c)"
  by (induction ks arbitrary: c) (simp_all add: inv_step)

lemma always_paced:
  "inv c \<Longrightarrow> list_all call_ok ks \<Longrightarrow> 1 \<le> interval (fold step ks c) \<and> 2 \<le> window (fold step ks c)"
  using inv_fold interval_pos window_two by blast

end

section \<open>LiveCC\<close>

lemma live_inv_New: "live_inv (NewLiveCC maxBW packetSize)"
  by (simp add: live_inv_def NewLiveCC_def DefaultPacketSize_def DefaultOverhead_def initProbeWindow_def
      probeWindowSize_def)

lemma go_div_128: "0 \<le> (a::int) \<Longrightarrow> 0 \<le> s \<Longrightarrow> 0 \<le> go_div (a * 127 + s) 128"
  by (simp add: go_div_nonneg)

lemma probe_window:
  assumes "length (pe_probeWindow pe) = 16" "pe_probePtr pe < 16"
  shows "length (pe_probeWindow (probe_onPacketReceived pe s sz t)) = 16"
    "pe_probePtr (probe_onPacketReceived pe s sz t) < 16"
  using assms by (auto simp: probe_onPacketReceived_def probe_record_def Let_def probeWindowSize_def)

lemma live_inv_step: "live_inv cc \<Longrightarrow> call_ok k \<Longrightarrow> live_inv (live_step k cc)"
  by (cases k)
    (auto simp: live_step_def live_inv_def Live_OnACK_def Live_OnNAK_def Live_OnTimeout_def Live_OnPacketSent_def
      Live_OnPacketReceived_def Live_OnPktArrival_def Live_SetMaxBandwidth_def Live_SetOverhead_def
      Live_UpdateBandwidth_def clamp_pct_def Let_def go_div_128 probe_window)

interpretation livecc: congestion_controller live_inv live_step Live_PacketInterval Live_CongestionWindow
  by unfold_locales (auto simp: live_inv_step Live_PacketInterval_def Live_CongestionWindow_def MaxInt64_def
      Millisecond_def Let_def)

section \<open>FileCC\<close>

lemma f64_16: "0 < (16 :: rat)" by simp

lemma f_to_int_ge: "of_int n \<le> x \<Longrightarrow> 0 \<le> n \<Longrightarrow> n \<le> f_to_int x"
proof -
  assume a: "of_int n \<le> x" "0 \<le> n"
  then have "0 \<le> x" using order_trans of_int_0_le_iff by blast
  then show ?thesis using a by (simp add: f_to_int_def le_floor_iff)
qed

lemma math_Ceil_pos: "0 < x \<Longrightarrow> 0 < math_Ceil x"
  using math_Ceil_ge [of x] by linarith

lemma consts_pos [simp]:
  "0 < fileCCLossIncrease" "0 < fileCCBeta" "0 \<le> f64 (1 - fileCCShareFactor)" "0 \<le> f64 fileCCShareFactor"
  by (simp_all add: fileCCLossIncrease_def fileCCBeta_def fileCCShareFactor_def f64_pos f64_nonneg)

lemma wire_mss_pos: "0 < fcc_packetSize cc \<Longrightarrow> 0 < wire_mss cc"
  by (simp add: wire_mss_def Let_def DefaultPacketSize_def WireHeaderSize_def f_pos)

lemma rate_step_pos: "0 < mss \<Longrightarrow> 0 < rate_step B mss"
  by (auto simp: rate_step_def Let_def f_pos pow10_pos)

lemma file_inv_exit: "file_inv cc \<Longrightarrow> file_inv (exitSlowStart cc)"
  by (auto simp: file_inv_def exitSlowStart_def fileCCRCInterval_def f_pos)

lemma file_inv_leave: "file_inv cc \<Longrightarrow> file_inv (leave_slow_start cc)"
  using file_inv_exit [of "cc\<lparr>fcc_slowStart := False\<rparr>"] by (simp add: leave_slow_start_def) (simp add: file_inv_def)

lemma file_inv_rateIncrease: "file_inv cc \<Longrightarrow> file_inv (rateIncrease cc)"
  by (simp add: file_inv_def rateIncrease_def Let_def fileCCRCInterval_def f_pos rate_step_pos wire_mss_pos)

lemma file_inv_enforce: "file_inv cc \<Longrightarrow> file_inv (enforceMaxBW cc)"
  by (simp add: file_inv_def enforceMaxBW_def min_period_def f_pos wire_mss_pos)

lemma file_inv_note: "file_inv cc \<Longrightarrow> file_inv (note_estimates cc rtt bw rate)"
  by (simp add: file_inv_def note_estimates_def Let_def f_nonneg)

lemma seqLen_nonneg: "0 \<le> seqLen a b"
  by (simp add: seqLen_def)

lemma file_inv_slow_start: "file_inv cc \<Longrightarrow> file_inv (slow_start_ack cc a)"
proof -
  assume i: "file_inv cc"
  let ?c = "(if 0 < seqLen (fcc_lastAck cc) a
             then cc\<lparr>fcc_cwnd := fadd (fcc_cwnd cc) (f_of_int (seqLen (fcc_lastAck cc) a))\<rparr> else cc)\<lparr>fcc_lastAck := a\<rparr>"
  have "file_inv ?c" "file_inv (?c\<lparr>fcc_slowStart := False\<rparr>)" using i by (simp_all add: file_inv_def f_pos)
  then show ?thesis by (simp add: slow_start_ack_def Let_def file_inv_exit)
qed

lemma file_inv_avoidance: "file_inv cc \<Longrightarrow> file_inv (avoidance_ack cc)"
proof -
  assume i: "file_inv cc"
  let ?c = "if 0 < fcc_deliveryRate cc
            then cc\<lparr>fcc_cwnd := fadd (fmul (fdiv (fcc_deliveryRate cc) 1000000)
                                       (fadd (fcc_rtt cc) (of_int fileCCRCInterval))) 16\<rparr> else cc"
  have "0 < fadd (fmul (fdiv r 1000000) (fadd t (of_int fileCCRCInterval))) 16" if "0 \<le> r" "0 \<le> t" for r t :: f64
    using f_nonneg that by (simp add: fadd_def [of _ 16] fileCCRCInterval_def f64_pos add_nonneg_pos)
  then have "file_inv ?c" "file_inv (?c\<lparr>fcc_loss := False\<rparr>)" using i by (simp_all add: file_inv_def)
  then show ?thesis by (simp add: avoidance_ack_def Let_def file_inv_rateIncrease)
qed

lemma file_inv_ACK: "file_inv cc \<Longrightarrow> file_inv (File_OnACK cc now a rtt bw rate)"
proof -
  assume "file_inv cc"
  then have n: "file_inv (note_estimates cc rtt bw rate)" by (rule file_inv_note)
  then have "file_inv (note_estimates cc rtt bw rate\<lparr>fcc_lastRCTime := now\<rparr>)"
    "file_inv (note_estimates cc rtt bw rate\<lparr>fcc_rcInit := True, fcc_lastRCTime := now\<rparr>)"
    by (simp_all add: file_inv_def)
  then show ?thesis
    using n by (simp add: File_OnACK_def Let_def file_inv_enforce file_inv_slow_start file_inv_avoidance)
qed

lemma ceil_nonneg: "0 \<le> x \<Longrightarrow> 0 \<le> f_to_int (math_Ceil x)"
  by (simp add: f_to_int_def math_Ceil_def)

lemma file_inv_new_epoch:
  assumes "file_inv cc" "\<And>n. 0 < n \<Longrightarrow> 0 \<le> intn n"
  shows "file_inv (new_epoch intn cc)"
  using assms by (simp add: file_inv_def new_epoch_def Let_def f_pos math_Ceil_pos ceil_nonneg f_nonneg)

lemma file_inv_within: "file_inv cc \<Longrightarrow> file_inv (within_epoch cc)"
  by (simp add: file_inv_def within_epoch_def Let_def f_pos math_Ceil_pos)

lemma file_inv_NAK:
  assumes "file_inv cc" "\<And>n. 0 < n \<Longrightarrow> 0 \<le> intn n"
  shows "file_inv (File_OnNAK intn cc ls)"
proof -
  let ?c = "(leave_slow_start cc)\<lparr>fcc_loss := True\<rparr>"
  have l: "file_inv ?c" using file_inv_leave [OF assms(1)] by (simp add: file_inv_def)
  then have "file_inv (?c\<lparr>fcc_lastDecPeriod := fcc_sndPeriod ?c\<rparr>)" by (simp add: file_inv_def)
  then show ?thesis using l assms
    by (simp add: File_OnNAK_def Let_def file_inv_enforce file_inv_new_epoch file_inv_within split: list.split)
qed

lemma file_inv_New: "file_inv (NewFileCC maxBW packetSize fc isn)"
  by (simp add: file_inv_def NewFileCC_def Let_def fileCCInitialPeriod_def fileCCInitialCWND_def DefaultPacketSize_def)

lemma file_inv_step: "file_inv cc \<Longrightarrow> call_ok k \<Longrightarrow> file_inv (file_step k cc)"
  by (cases k)
    (simp_all add: file_step_def file_inv_ACK file_inv_NAK file_inv_leave File_OnTimeout_def,
     simp_all add: file_inv_def File_OnPacketSent_def File_OnPacketReceived_def File_OnPktArrival_def
       File_SetMaxBandwidth_def File_SetOverhead_def File_UpdateBandwidth_def)

interpretation filecc: congestion_controller file_inv file_step File_PacketInterval File_CongestionWindow
  by unfold_locales (auto simp: file_inv_step File_PacketInterval_def File_CongestionWindow_def Let_def f_to_int_ge)

lemma lossLength_kept [simp]:
  "fcc_sndLossLength (note_estimates cc rtt bw rate) = fcc_sndLossLength cc"
  "fcc_sndLossLength (exitSlowStart cc) = fcc_sndLossLength cc"
  "fcc_sndLossLength (leave_slow_start cc) = fcc_sndLossLength cc"
  "fcc_sndLossLength (rateIncrease cc) = fcc_sndLossLength cc"
  "fcc_sndLossLength (enforceMaxBW cc) = fcc_sndLossLength cc"
  "fcc_sndLossLength (new_epoch intn cc) = fcc_sndLossLength cc"
  "fcc_sndLossLength (within_epoch cc) = fcc_sndLossLength cc"
  by (simp_all add: note_estimates_def exitSlowStart_def leave_slow_start_def rateIncrease_def enforceMaxBW_def
      new_epoch_def within_epoch_def Let_def)

lemma lossLength_ack [simp]:
  "fcc_sndLossLength (slow_start_ack cc a) = fcc_sndLossLength cc"
  "fcc_sndLossLength (avoidance_ack cc) = fcc_sndLossLength cc"
  by (simp_all add: slow_start_ack_def avoidance_ack_def Let_def)

lemma file_step_lossLength: "fcc_sndLossLength (file_step k cc) = fcc_sndLossLength cc"
  by (cases k)
    (simp_all add: file_step_def File_OnACK_def File_OnNAK_def File_OnTimeout_def File_OnPacketSent_def
       File_OnPacketReceived_def File_OnPktArrival_def File_SetMaxBandwidth_def File_SetOverhead_def
       File_UpdateBandwidth_def Let_def split: list.split)

lemma file_fold_lossLength: "fcc_sndLossLength (fold file_step ks cc) = fcc_sndLossLength cc"
  by (induction ks arbitrary: cc) (simp_all add: file_step_lossLength)

lemma leave_slow_start_keeps: "fcc_rtt (leave_slow_start cc) = fcc_rtt cc"
  by (simp add: leave_slow_start_def exitSlowStart_def)

lemma below_threshold_without_losses:
  "file_inv cc \<Longrightarrow> 0 < fcc_rtt cc \<Longrightarrow> fcc_sndLossLength cc = 0 \<Longrightarrow> loss_below_threshold cc"
  by (simp add: loss_below_threshold_def Let_def file_inv_def f_pos fileCCLossThreshold_def)
    (simp add: f_ops f_of_int_def)

section \<open>Properties\<close>





end
