(* ===== verification/Ring.thy ===== *)
theory Ring
  imports Seq
begin

text \<open>
  Index arithmetic of the power-of-two rings that the send and the receive buffer share: the slot of a
  sequence number is its low bits, and the slots of a window of at most \<open>cap\<close> consecutive numbers are
  distinct. \<open>slot cap a j\<close> is the slot of the number \<open>j\<close> steps after \<open>a\<close>.
\<close>

section \<open>Slots\<close>

definition slot :: "nat \<Rightarrow> Number \<Rightarrow> nat \<Rightarrow> nat" where
  "slot cap a j = (unat a + j) mod cap"

definition nextPow2 :: "int \<Rightarrow> int" where
  "nextPow2 n =
     (if n \<le> 1 then 1
      else let n = n - 1; n = n OR drop_bit 1 n; n = n OR drop_bit 2 n; n = n OR drop_bit 4 n;
               n = n OR drop_bit 8 n; n = n OR drop_bit 16 n
           in n + 1)"

definition ring_cap :: "nat \<Rightarrow> bool" where
  "ring_cap cap \<longleftrightarrow> cap dvd H31 \<and> cap < H31 \<and> (\<exists>k. cap = 2 ^ k)"

lemma ring_cap_pos [simp]: "ring_cap cap \<Longrightarrow> 0 < cap"
  by (auto simp: ring_cap_def)

lemma ring_cap_lt: "ring_cap cap \<Longrightarrow> cap < H31"
  by (simp add: ring_cap_def)

lemma ring_cap_dvd: "ring_cap cap \<Longrightarrow> cap dvd M31"
  using dvd_trans [of cap H31 M31] by (simp add: ring_cap_def)

lemma slot_lt [simp]: "ring_cap cap \<Longrightarrow> slot cap a j < cap"
  by (simp add: slot_def)

lemma idx_slot: "ring_cap cap \<Longrightarrow> unat (seq_nth a j) AND (cap - Suc 0) = slot cap a j"
proof -
  assume c: "ring_cap cap"
  then obtain k where "cap = 2 ^ k" by (auto simp: ring_cap_def)
  then have "unat (seq_nth a j) AND (cap - Suc 0) = (unat a + j) mod M31 mod cap"
    using mask_nat_eq [of "unat (seq_nth a j)" k] by simp
  also have "\<dots> = (unat a + j) mod cap" using ring_cap_dvd [OF c] by (rule mod_mod_cancel)
  finally show ?thesis by (simp add: slot_def)
qed

lemma idx_slot_0: "ring_cap cap \<Longrightarrow> valid_seq a \<Longrightarrow> unat a AND (cap - Suc 0) = slot cap a 0"
  using idx_slot [of cap a 0] by simp

lemma slot_seq_nth: "ring_cap cap \<Longrightarrow> slot cap (seq_nth a n) j = slot cap a (n + j)"
proof -
  assume "ring_cap cap"
  then have "(unat a + n) mod M31 mod cap = (unat a + n) mod cap"
    by (intro mod_mod_cancel ring_cap_dvd)
  then have "((unat a + n) mod M31 + j) mod cap = (unat a + n + j) mod cap"
    by (metis mod_add_left_eq)
  then show ?thesis by (simp add: slot_def add.assoc)
qed

lemma slot_Inc: "ring_cap cap \<Longrightarrow> valid_seq a \<Longrightarrow> slot cap (Inc a) j = slot cap a (Suc j)"
  by (simp add: Inc_eq_nth slot_seq_nth)

lemma slot_wrap: "slot cap a (j + cap) = slot cap a j"
  by (simp add: slot_def add.assoc [symmetric])

lemma slot_eq_iff: "j < cap \<Longrightarrow> k < cap \<Longrightarrow> slot cap a j = slot cap a k \<longleftrightarrow> j = k"
proof (induction j k rule: linorder_wlog)
  case (le j k)
  show ?case
  proof
    assume "slot cap a j = slot cap a k"
    then have "cap dvd k - j"
      using le mod_eq_dvd_iff_nat [of "unat a + j" "unat a + k" cap] by (simp add: slot_def)
    with le show "j = k" by (metis dvd_imp_le diff_is_0_eq' le_antisym less_imp_diff_less not_le zero_less_diff)
  qed simp
qed auto

lemma slot_surj: "ring_cap cap \<Longrightarrow> i < cap \<Longrightarrow> \<exists>j < cap. slot cap a j = i"
proof -
  assume c: "ring_cap cap" and i: "i < cap"
  define j where "j = (i + (cap - unat a mod cap)) mod cap"
  have "unat a mod cap \<le> cap" using c by (simp add: less_imp_le)
  then have "unat a mod cap + (i + (cap - unat a mod cap)) = i + cap" by simp
  then have "(unat a mod cap + (i + (cap - unat a mod cap))) mod cap = i" using i by simp
  then have "slot cap a j = i" by (simp add: slot_def j_def mod_add_right_eq) (metis mod_add_left_eq)
  then show ?thesis using c by (intro exI [of _ j]) (simp add: j_def)
qed

section \<open>Capacities\<close>

lemma bit_smear:
  fixes x m :: int
  assumes "\<And>i. bit x i \<longleftrightarrow> (\<exists>e < d. bit m (i + e))"
  shows "bit (x OR drop_bit d x) i \<longleftrightarrow> (\<exists>e < 2 * d. bit m (i + e))"
proof -
  have "bit (x OR drop_bit d x) i \<longleftrightarrow> (\<exists>e < d. bit m (i + e)) \<or> (\<exists>e < d. bit m (d + i + e))"
    by (simp add: bit_or_iff bit_drop_bit_eq assms)
  also have "(\<exists>e < d. bit m (d + i + e)) \<longleftrightarrow> (\<exists>e. d \<le> e \<and> e < 2 * d \<and> bit m (i + e))"
  proof
    assume "\<exists>e < d. bit m (d + i + e)"
    then obtain e where "e < d" "bit m (d + i + e)" by blast
    then show "\<exists>e. d \<le> e \<and> e < 2 * d \<and> bit m (i + e)"
      by (intro exI [of _ "d + e"]) (simp add: ac_simps)
  next
    assume "\<exists>e. d \<le> e \<and> e < 2 * d \<and> bit m (i + e)"
    then obtain e where "d \<le> e" "e < 2 * d" "bit m (i + e)" by blast
    then show "\<exists>e < d. bit m (d + i + e)" by (intro exI [of _ "e - d"]) (simp add: ac_simps)
  qed
  finally show ?thesis by (metis le_less_linear less_le_trans trans_less_add1 mult_2 le_add1)
qed

text \<open>The five shifts copy the highest bit into all lower ones.\<close>

lemma int_top_bit:
  assumes "2 ^ h \<le> m" and "m < 2 ^ Suc h"
  shows "bit (m :: int) h" and "h < i \<Longrightarrow> \<not> bit m i"
proof -
  have "m div 2 ^ h = 1"
    using assms by (intro int_div_pos_eq [of _ _ _ "m - 2 ^ h"]) simp_all
  then show "bit m h" by (simp add: bit_iff_odd)
  assume "h < i"
  then have "(2 :: int) ^ Suc h \<le> 2 ^ i" by (intro power_increasing) simp_all
  then have "m < 2 ^ i" "0 \<le> m" using assms by (auto intro: order_trans [of _ "2 ^ h"])
  then have "m div 2 ^ i = 0" by simp
  then show "\<not> bit m i" by (simp add: bit_iff_odd)
qed

lemma nextPow2_power:
  assumes "2 ^ h < n" and "n \<le> 2 ^ Suc h" and "h < 32"
  shows "nextPow2 n = 2 ^ Suc h"
proof -
  define m where "m = n - 1"
  have m: "2 ^ h \<le> m" "m < 2 ^ Suc h" using assms by (simp_all add: m_def)
  have m0: "0 \<le> m" using m(1) by (rule order_trans [rotated]) simp
  define x1 where "x1 = m OR drop_bit 1 m"
  define x2 where "x2 = x1 OR drop_bit 2 x1"
  define x3 where "x3 = x2 OR drop_bit 4 x2"
  define x4 where "x4 = x3 OR drop_bit 8 x3"
  define x5 where "x5 = x4 OR drop_bit 16 x4"
  have b0: "bit m i \<longleftrightarrow> (\<exists>e < 1. bit m (i + e))" for i by simp
  have b1: "bit x1 i \<longleftrightarrow> (\<exists>e < 2. bit m (i + e))" for i
    unfolding x1_def using bit_smear [OF b0] by simp
  have b2: "bit x2 i \<longleftrightarrow> (\<exists>e < 4. bit m (i + e))" for i
    unfolding x2_def using bit_smear [OF b1] by simp
  have b3: "bit x3 i \<longleftrightarrow> (\<exists>e < 8. bit m (i + e))" for i
    unfolding x3_def using bit_smear [OF b2] by simp
  have b4: "bit x4 i \<longleftrightarrow> (\<exists>e < 16. bit m (i + e))" for i
    unfolding x4_def using bit_smear [OF b3] by simp
  have b5: "bit x5 i \<longleftrightarrow> (\<exists>e < 32. bit m (i + e))" for i
    unfolding x5_def using bit_smear [OF b4] by simp
  have top: "bit m h" and above: "\<And>i. h < i \<Longrightarrow> \<not> bit m i"
    using int_top_bit [OF m] by auto
  have "x5 = mask (Suc h)"
  proof (rule bit_eqI)
    fix i
    show "bit x5 i \<longleftrightarrow> bit (mask (Suc h) :: int) i"
    proof (cases "i \<le> h")
      case True
      then have "\<exists>e < 32. bit m (i + e)" using top assms(3) by (intro exI [of _ "h - i"]) simp
      with True show ?thesis by (simp add: b5 bit_mask_iff)
    next
      case False
      then have "\<not> bit m (i + e)" for e using above by simp
      with False show ?thesis by (simp add: b5 bit_mask_iff)
    qed
  qed
  moreover have "nextPow2 n = x5 + 1"
    using m m0 by (simp add: nextPow2_def Let_def m_def x1_def x2_def x3_def x4_def x5_def)
  ultimately show ?thesis by (simp add: mask_eq_exp_minus_1)
qed

lemma nextPow2_cases:
  assumes "1 \<le> n" and "n \<le> 2 ^ 32"
  obtains k where "nextPow2 n = 2 ^ k" "n \<le> 2 ^ k" "k \<le> 32" "k = 0 \<or> 2 ^ (k - 1) < n"
proof (cases "n = 1")
  case True
  then show ?thesis using that [of 0] by (simp add: nextPow2_def)
next
  case False
  then have "2 \<le> nat n" using assms by simp
  then obtain h where h: "2 ^ h < nat n" "nat n \<le> 2 ^ (h + 1)" using ex_power_ivl2 [of 2 "nat n"] by auto
  have i: "2 ^ h < n" "n \<le> 2 ^ Suc h"
    using h assms by (simp_all add: zless_nat_eq_int_zless nat_le_iff)
  then have "(2 :: int) ^ h < 2 ^ 32" using assms(2) by simp
  then have "h < 32" by (rule power_less_imp_less_exp [rotated]) simp
  with i show ?thesis using that [of "Suc h"] nextPow2_power [OF i] by simp
qed

lemma nextPow2_ring_cap:
  assumes "n \<le> 2 ^ 29"
  shows "ring_cap (nat (nextPow2 n))" and "nat (nextPow2 n - 1) = nat (nextPow2 n) - Suc 0"
    and "1 \<le> nextPow2 n" and "n \<le> nextPow2 n"
proof -
  have "\<exists>k \<le> 29. nextPow2 n = 2 ^ k \<and> n \<le> 2 ^ k"
  proof (cases "n \<le> 1")
    case True
    then show ?thesis by (intro exI [of _ 0]) (simp add: nextPow2_def)
  next
    case False
    then obtain k where k: "nextPow2 n = 2 ^ k" "n \<le> 2 ^ k" "k = 0 \<or> 2 ^ (k - 1) < n"
      using nextPow2_cases [of n] assms by auto
    then have "k - 1 < 29" if "k \<noteq> 0"
      using that assms power_less_imp_less_exp [of "2::int" "k - 1" 29] by simp
    then have "k \<le> 29" by linarith
    with k show ?thesis by blast
  qed
  then obtain k where k: "k \<le> 29" "nextPow2 n = 2 ^ k" "n \<le> 2 ^ k" by blast
  have c: "nat (nextPow2 n) = 2 ^ k" by (simp add: k nat_power_eq)
  have "(2::nat) ^ k dvd 2 ^ 30" using k(1) by (intro le_imp_power_dvd) simp
  moreover have "(2::nat) ^ k < 2 ^ 30" using k(1) by (intro power_strict_increasing) simp_all
  ultimately show "ring_cap (nat (nextPow2 n))" unfolding c ring_cap_def by auto
  show "nat (nextPow2 n - 1) = nat (nextPow2 n) - Suc 0" by (simp add: nat_diff_distrib k)
  show "1 \<le> nextPow2 n" "n \<le> nextPow2 n" using k by simp_all
qed

section \<open>Properties\<close>

text \<open>
  C11. \<^verbatim>\<open>nextPow2\<close> returns the least power of two that is not below its argument, for every argument up
  to $2^{32}$.
\<close>

theorem nextPow2_least:
  assumes "n \<le> 2 ^ 32"
  shows "\<exists>k. nextPow2 n = 2 ^ k \<and> n \<le> 2 ^ k \<and> (\<forall>j. n \<le> 2 ^ j \<longrightarrow> k \<le> j)"
proof (cases "n \<le> 1")
  case True
  then show ?thesis by (intro exI [of _ 0]) (simp add: nextPow2_def)
next
  case False
  then obtain k where k: "nextPow2 n = 2 ^ k" "n \<le> 2 ^ k" "k = 0 \<or> 2 ^ (k - 1) < n"
    using nextPow2_cases [of n] assms by auto
  have "k \<le> j" if "n \<le> 2 ^ j" for j
  proof (cases "k = 0")
    case False
    then have "(2 :: int) ^ (k - 1) < 2 ^ j" using k(3) that by (meson less_le_trans)
    then have "k - 1 < j" by (rule power_less_imp_less_exp [rotated]) simp
    then show ?thesis by simp
  qed simp
  with k show ?thesis by blast
qed

theorem nextPow2_least_witness: "\<exists>k. nextPow2 8193 = 2 ^ k \<and> 8193 \<le> (2 :: int) ^ k"
  using nextPow2_least [of 8193] by auto

end
