(* ===== verification/Send_Buffer.thy ===== *)
theory Send_Buffer
  imports Packet_Wire Clock Ring
begin

text \<open>
  The send buffer of \<^verbatim>\<open>internal/buffer/send.go\<close>: a ring of slots indexed by the low bits of the sequence
  number. The mutex makes every method one atomic step, so a method is a function from the buffer to
  the new buffer and its results. The loops that walk the ring with \<^verbatim>\<open>for s.LessThan(t)\<close> terminate for
  all 32-bit values, by the measure \<open>seq_lag\<close>.

  The abstract view is a queue: the first unacknowledged sequence number and the list of entries that
  follow it. The invariant says the used slots are exactly the ones of that window; every operation is
  shown to act on the queue as its description says.
\<close>

section \<open>State\<close>

record sendEntry =
  pkt :: Packet
  used :: bool
  sentAt :: Timestamp
  rexmitTime :: Timestamp
  msgTTL :: int

definition zero_sendEntry :: sendEntry where
  "zero_sendEntry = \<lparr>pkt = zero_Packet, used = False, sentAt = 0, rexmitTime = 0, msgTTL = 0\<rparr>"

record SendBuffer =
  sb_entries :: "sendEntry list"
  sb_mask :: nat
  sb_startSeq :: Number
  sb_nextSeq :: Number
  sb_size :: int

definition NewSendBuffer :: "int \<Rightarrow> Number \<Rightarrow> SendBuffer" where
  "NewSendBuffer capacity initialSeq =
     (let cap2 = nextPow2 capacity in
      \<lparr>sb_entries = replicate (nat cap2) zero_sendEntry, sb_mask = nat (cap2 - 1),
       sb_startSeq = initialSeq, sb_nextSeq = initialSeq, sb_size = 0\<rparr>)"

text \<open>\<^verbatim>\<open>int(uint32(s)) & sb.mask\<close>, the slot of a sequence number.\<close>

definition sb_idx :: "SendBuffer \<Rightarrow> Number \<Rightarrow> nat" where
  "sb_idx sb s = unat s AND sb_mask sb"

section \<open>Operations\<close>

text \<open>The insertion shared by \<^verbatim>\<open>Push\<close> and \<^verbatim>\<open>PushBatch\<close>.\<close>

definition sb_insert :: "SendBuffer \<Rightarrow> Packet \<Rightarrow> Timestamp \<Rightarrow> SendBuffer" where
  "sb_insert sb p ts =
     (let idx = sb_idx sb (sb_nextSeq sb) in
      sb\<lparr>sb_entries := (sb_entries sb)[idx := zero_sendEntry\<lparr>pkt := p, used := True, sentAt := ts\<rparr>],
         sb_nextSeq := Inc (sb_nextSeq sb), sb_size := sb_size sb + 1\<rparr>)"

text \<open>The variadic \<^verbatim>\<open>sentAt\<close> is a list of which the first element counts.\<close>

definition Push :: "SendBuffer \<Rightarrow> Packet \<Rightarrow> Timestamp list \<Rightarrow> SendBuffer \<times> bool" where
  "Push sb p sentAt' =
     (if sb_size sb \<ge> int (length (sb_entries sb)) then (sb, False)
      else let ts = (case sentAt' of [] \<Rightarrow> 0 | t # _ \<Rightarrow> t) in (sb_insert sb p ts, True))"

definition PushBatch :: "SendBuffer \<Rightarrow> Packet list \<Rightarrow> Timestamp \<Rightarrow> SendBuffer \<times> bool" where
  "PushBatch sb pkts sentAt' =
     (if sb_size sb + int (length pkts) > int (length (sb_entries sb)) then (sb, False)
      else (foldl (\<lambda>sb p. sb_insert sb p sentAt') sb pkts, True))"

text \<open>Releasing the packet in a slot and clearing the slot.\<close>

definition sb_release :: "SendBuffer \<Rightarrow> nat \<Rightarrow> SendBuffer" where
  "sb_release sb idx =
     sb\<lparr>sb_entries := (sb_entries sb)[idx := zero_sendEntry], sb_size := sb_size sb - 1\<rparr>"

text \<open>The loop of \<^verbatim>\<open>ACK\<close> and of \<^verbatim>\<open>DropUntil\<close>, which differ in their name only.\<close>

function sb_release_until :: "Number \<Rightarrow> SendBuffer \<Rightarrow> int \<Rightarrow> SendBuffer \<times> int" where
  "sb_release_until upTo sb count =
     (if LessThan (sb_startSeq sb) upTo \<and> sb_size sb > 0 then
        let idx = sb_idx sb (sb_startSeq sb);
            (sb', count') = (if used (sb_entries sb ! idx) then (sb_release sb idx, count + 1)
                             else (sb, count))
        in sb_release_until upTo (sb'\<lparr>sb_startSeq := Inc (sb_startSeq sb)\<rparr>) count'
      else (sb, count))"
  by pat_completeness auto
termination
  by (relation "measure (\<lambda>(upTo, sb, count). seq_lag (sb_startSeq sb) upTo)") (auto simp: seq_lag_less)

declare sb_release_until.simps [simp del]

definition ACK :: "SendBuffer \<Rightarrow> Number \<Rightarrow> SendBuffer \<times> int" where
  "ACK sb ackSeq = sb_release_until ackSeq sb 0"

definition DropUntil :: "SendBuffer \<Rightarrow> Number \<Rightarrow> SendBuffer \<times> int" where
  "DropUntil sb upTo = sb_release_until upTo sb 0"

text \<open>The range check and the clone with the retransmission flag.\<close>

definition sb_out_of_range :: "SendBuffer \<Rightarrow> Number \<Rightarrow> bool" where
  "sb_out_of_range sb s = (LessThan s (sb_startSeq sb) \<or> LessThanOrEqual (sb_nextSeq sb) s)"

definition rexmit_clone :: "Packet \<Rightarrow> Packet" where
  "rexmit_clone p = (let clone = Clone p in clone\<lparr>Header := (Header clone)\<lparr>Retransmitted := True\<rparr>\<rparr>)"

fun NAK :: "SendBuffer \<Rightarrow> u32 list \<Rightarrow> Packet list" where
  "NAK sb [] = []"
| "NAK sb (seqNo # rest) =
     (if sb_out_of_range sb seqNo then NAK sb rest
      else let e = sb_entries sb ! sb_idx sb seqNo in
        if used e then rexmit_clone (pkt e) # NAK sb rest else NAK sb rest)"

fun NAKTimed_loop :: "SendBuffer \<Rightarrow> u32 list \<Rightarrow> Timestamp \<Rightarrow> Timestamp \<Rightarrow> SendBuffer \<times> Packet list" where
  "NAKTimed_loop sb [] now timeNAK = (sb, [])"
| "NAKTimed_loop sb (seqNo # rest) now timeNAK =
     (if sb_out_of_range sb seqNo then NAKTimed_loop sb rest now timeNAK
      else let idx = sb_idx sb seqNo; e = sb_entries sb ! idx in
        if \<not> used e then NAKTimed_loop sb rest now timeNAK
        else if \<not> IsZero (rexmitTime e) \<and> \<not> Before (rexmitTime e) timeNAK
          then NAKTimed_loop sb rest now timeNAK
        else case NAKTimed_loop
                    (sb\<lparr>sb_entries := (sb_entries sb)[idx := e\<lparr>rexmitTime := now\<rparr>]\<rparr>) rest now timeNAK of
               (sb', ps) \<Rightarrow> (sb', rexmit_clone (pkt e) # ps))"

definition NAKTimed ::
    "SendBuffer \<Rightarrow> u32 list \<Rightarrow> Timestamp \<Rightarrow> Microseconds \<Rightarrow> Microseconds \<Rightarrow> SendBuffer \<times> Packet list" where
  "NAKTimed sb lossSeqs now rtt rttVar =
     (let rexmitGate = rtt - 4 * rttVar;
          rexmitGate = (if rexmitGate < 0 then 0 else rexmitGate);
          timeNAK = Timestamp_Add now (- rexmitGate)
      in NAKTimed_loop sb lossSeqs now timeNAK)"

definition Get :: "SendBuffer \<Rightarrow> Number \<Rightarrow> Packet \<times> bool" where
  "Get sb seqNo =
     (if sb_out_of_range sb seqNo then (zero_Packet, False)
      else let e = sb_entries sb ! sb_idx sb seqNo in
        if \<not> used e then (zero_Packet, False) else (Clone (pkt e), True))"

definition sb_Size :: "SendBuffer \<Rightarrow> int" where "sb_Size sb = sb_size sb"

definition OldestSentAt :: "SendBuffer \<Rightarrow> Timestamp" where
  "OldestSentAt sb =
     (if sb_size sb = 0 then 0
      else let e = sb_entries sb ! sb_idx sb (sb_startSeq sb) in
        if \<not> used e then 0 else sentAt e)"

definition sb_Capacity :: "SendBuffer \<Rightarrow> int" where "sb_Capacity sb = int (length (sb_entries sb))"

definition sb_Available :: "SendBuffer \<Rightarrow> int" where
  "sb_Available sb = int (length (sb_entries sb)) - sb_size sb"

definition sb_StartSeq :: "SendBuffer \<Rightarrow> Number" where "sb_StartSeq sb = sb_startSeq sb"

definition sb_NextSeq :: "SendBuffer \<Rightarrow> Number" where "sb_NextSeq sb = sb_nextSeq sb"

definition OverrideNextSeq :: "SendBuffer \<Rightarrow> Number \<Rightarrow> SendBuffer \<times> bool" where
  "OverrideNextSeq sb nextSeq =
     (if sb_size sb = 0 then (sb\<lparr>sb_startSeq := nextSeq, sb_nextSeq := nextSeq\<rparr>, True)
      else (sb\<lparr>sb_nextSeq := nextSeq\<rparr>, True))"

definition OldestSendTime :: "SendBuffer \<Rightarrow> Timestamp" where
  "OldestSendTime sb =
     (if sb_size sb = 0 then 0 else sentAt (sb_entries sb ! sb_idx sb (sb_startSeq sb)))"

function sb_unacked_from :: "SendBuffer \<Rightarrow> Number \<Rightarrow> Packet list" where
  "sb_unacked_from sb s =
     (if LessThan s (sb_nextSeq sb) then
        let e = sb_entries sb ! sb_idx sb s in
        (if used e then [rexmit_clone (pkt e)] else []) @ sb_unacked_from sb (Inc s)
      else [])"
  by pat_completeness auto
termination
  by (relation "measure (\<lambda>(sb, s). seq_lag s (sb_nextSeq sb))") (auto simp: seq_lag_less)

declare sb_unacked_from.simps [simp del]

definition GetAllUnacked :: "SendBuffer \<Rightarrow> Packet list" where
  "GetAllUnacked sb = (if sb_size sb = 0 then [] else sb_unacked_from sb (sb_startSeq sb))"

text \<open>The age at which a head entry is given up, 0 for never.\<close>

definition effective_deadline :: "sendEntry \<Rightarrow> Microseconds \<Rightarrow> int" where
  "effective_deadline e thresh =
     (if msgTTL e > 0
      then let ttlUs = go_div (msgTTL e) 1000 in if thresh = 0 \<or> ttlUs < thresh then ttlUs else thresh
      else thresh)"

function drop_too_late :: "SendBuffer \<Rightarrow> Timestamp \<Rightarrow> Microseconds \<Rightarrow> int \<Rightarrow> Number
    \<Rightarrow> SendBuffer \<times> int \<times> Number" where
  "drop_too_late sb now thresh dropped last' =
     (if sb_size sb > 0 then
        let idx = sb_idx sb (sb_startSeq sb);
            e = sb_entries sb ! idx;
            eff = effective_deadline e thresh
        in if \<not> used e then (sb, dropped, last')
           else if eff \<le> 0 then (sb, dropped, last')
           else if now - sentAt e \<le> eff then (sb, dropped, last')
           else drop_too_late ((sb_release sb idx)\<lparr>sb_startSeq := Inc (sb_startSeq sb)\<rparr>) now thresh
                  (dropped + 1) (sb_startSeq sb)
      else (sb, dropped, last'))"
  by pat_completeness auto
termination
  by (relation "measure (\<lambda>(sb, now, thresh, dropped, last'). nat (sb_size sb))")
    (auto simp: sb_release_def)

declare drop_too_late.simps [simp del]

text \<open>The named result \<^verbatim>\<open>last\<close> is zero when nothing is dropped.\<close>

definition DropTooLateSend ::
    "SendBuffer \<Rightarrow> Timestamp \<Rightarrow> Microseconds \<Rightarrow> SendBuffer \<times> int \<times> Number \<times> Number" where
  "DropTooLateSend sb now thresh =
     (case drop_too_late sb now thresh 0 0 of
        (sb', dropped, last') \<Rightarrow> (sb', dropped, sb_startSeq sb, last'))"

text \<open>The two loops of \<^verbatim>\<open>DropExpiredTTL\<close>.\<close>

function drop_expired_from :: "SendBuffer \<Rightarrow> Number \<Rightarrow> Timestamp \<Rightarrow> int \<Rightarrow> SendBuffer \<times> int" where
  "drop_expired_from sb s now dropped =
     (if LessThan s (sb_nextSeq sb) then
        let idx = sb_idx sb s; e = sb_entries sb ! idx in
        if used e \<and> msgTTL e > 0 \<and> now - sentAt e > go_div (msgTTL e) 1000
        then drop_expired_from (sb_release sb idx) (Inc s) now (dropped + 1)
        else drop_expired_from sb (Inc s) now dropped
      else (sb, dropped))"
  by pat_completeness auto
termination
  by (relation "measure (\<lambda>(sb, s, now, dropped). seq_lag s (sb_nextSeq sb))")
    (auto simp: seq_lag_less sb_release_def)

function skip_released :: "SendBuffer \<Rightarrow> SendBuffer" where
  "skip_released sb =
     (if LessThan (sb_startSeq sb) (sb_nextSeq sb)
         \<and> \<not> used (sb_entries sb ! sb_idx sb (sb_startSeq sb))
      then skip_released (sb\<lparr>sb_startSeq := Inc (sb_startSeq sb)\<rparr>) else sb)"
  by pat_completeness auto
termination
  by (relation "measure (\<lambda>sb. seq_lag (sb_startSeq sb) (sb_nextSeq sb))") (auto simp: seq_lag_less)

declare drop_expired_from.simps [simp del] skip_released.simps [simp del]

definition DropExpiredTTL :: "SendBuffer \<Rightarrow> Timestamp \<Rightarrow> SendBuffer \<times> int" where
  "DropExpiredTTL sb now =
     (case drop_expired_from sb (sb_startSeq sb) now 0 of (sb', dropped) \<Rightarrow> (skip_released sb', dropped))"

definition set_slot_ttl :: "SendBuffer \<Rightarrow> Number \<Rightarrow> int \<Rightarrow> SendBuffer" where
  "set_slot_ttl sb s ttl =
     (let idx = sb_idx sb s; e = sb_entries sb ! idx in
      if used e then sb\<lparr>sb_entries := (sb_entries sb)[idx := e\<lparr>msgTTL := ttl\<rparr>]\<rparr> else sb)"

definition SetMsgTTL :: "SendBuffer \<Rightarrow> int \<Rightarrow> SendBuffer" where
  "SetMsgTTL sb ttl =
     (if sb_size sb = 0 then sb else set_slot_ttl sb (Dec (sb_nextSeq sb)) ttl)"

definition SetMsgTTLBatch :: "SendBuffer \<Rightarrow> int \<Rightarrow> int \<Rightarrow> SendBuffer" where
  "SetMsgTTLBatch sb ttl n =
     (if sb_size sb = 0 \<or> n \<le> 0 then sb
      else foldl (\<lambda>sb i. set_slot_ttl sb (Add (sb_nextSeq sb) (word_of_int (- n + int i))) ttl)
             sb [0..<nat n])"

section \<open>Invariant and abstraction\<close>

text \<open>
  The capacity is a power of two below $2^{30}$, the used slots are exactly those of the window that
  starts at \<open>sb_startSeq\<close>, and the queue lists their entries in order. \<open>sb_pop\<close> is one turn of the
  release loops.
\<close>

definition sb_cap :: "SendBuffer \<Rightarrow> nat" where
  "sb_cap sb = length (sb_entries sb)"

definition sb_slot :: "SendBuffer \<Rightarrow> nat \<Rightarrow> nat" where
  "sb_slot sb j = slot (sb_cap sb) (sb_startSeq sb) j"

definition sb_inv :: "SendBuffer \<Rightarrow> bool" where
  "sb_inv sb \<longleftrightarrow> ring_cap (sb_cap sb) \<and> sb_mask sb = sb_cap sb - Suc 0 \<and> valid_seq (sb_startSeq sb) \<and>
     0 \<le> sb_size sb \<and> sb_size sb \<le> int (sb_cap sb) \<and>
     sb_nextSeq sb = seq_nth (sb_startSeq sb) (nat (sb_size sb)) \<and>
     (\<forall>j < sb_cap sb. used (sb_entries sb ! sb_slot sb j) \<longleftrightarrow> j < nat (sb_size sb))"

definition sb_queue :: "SendBuffer \<Rightarrow> sendEntry list" where
  "sb_queue sb = map (\<lambda>j. sb_entries sb ! sb_slot sb j) [0..<nat (sb_size sb)]"

definition sb_pop :: "SendBuffer \<Rightarrow> SendBuffer" where
  "sb_pop sb = (sb_release sb (sb_idx sb (sb_startSeq sb)))\<lparr>sb_startSeq := Inc (sb_startSeq sb)\<rparr>"

section \<open>The specification as a queue\<close>

text \<open>The entry of a sequence number, the number of entries an acknowledgement removes.\<close>

definition q_lookup :: "Number \<Rightarrow> 'a list \<Rightarrow> Number \<Rightarrow> 'a option" where
  "q_lookup start q s = (let k = seq_off start s in if k < length q then Some (q ! k) else None)"

definition q_acked :: "Number \<Rightarrow> 'a list \<Rightarrow> Number \<Rightarrow> nat" where
  "q_acked start q a = (if LessThan start a then min (seq_off start a) (length q) else 0)"

text \<open>An entry given up at time \<open>now\<close>.\<close>

definition entry_expired :: "Timestamp \<Rightarrow> Microseconds \<Rightarrow> sendEntry \<Rightarrow> bool" where
  "entry_expired now thresh e \<longleftrightarrow>
     0 < effective_deadline e thresh \<and> effective_deadline e thresh < now - sentAt e"

text \<open>The timed retransmission on the queue.\<close>

fun q_nak_timed ::
    "Number \<Rightarrow> sendEntry list \<Rightarrow> Number list \<Rightarrow> Timestamp \<Rightarrow> Timestamp \<Rightarrow> sendEntry list \<times> Packet list" where
  "q_nak_timed start q [] now timeNAK = (q, [])"
| "q_nak_timed start q (s # l) now timeNAK =
     (case q_lookup start q s of
        None \<Rightarrow> q_nak_timed start q l now timeNAK
      | Some e \<Rightarrow>
          if rexmitTime e \<noteq> 0 \<and> timeNAK \<le> rexmitTime e then q_nak_timed start q l now timeNAK
          else case q_nak_timed start (q[seq_off start s := e\<lparr>rexmitTime := now\<rparr>]) l now timeNAK of
                 (q', ps) \<Rightarrow> (q', rexmit_clone (pkt e) # ps))"

text \<open>
  The operations with their results, on the ring (\<open>sb_step\<close>) and on the queue (\<open>q_step\<close>); the sequence
  numbers of an operation are 31-bit numbers.
\<close>

datatype sb_op =
    OpPush Packet "Timestamp list" | OpPushBatch "Packet list" Timestamp | OpACK Number | OpNAK "Number list"
  | OpNAKTimed "Number list" Timestamp Microseconds Microseconds | OpGet Number | OpUnacked
  | OpDropUntil Number | OpDropTooLate Timestamp Microseconds | OpSetMsgTTL int

datatype sb_out =
    OutBool bool | OutCount int | OutPackets "Packet list" | OutPacket Packet bool
  | OutRange int Number Number | OutNone

fun sb_step :: "sb_op \<Rightarrow> SendBuffer \<Rightarrow> SendBuffer \<times> sb_out" where
  "sb_step (OpPush p ts) sb = (case Push sb p ts of (sb', b) \<Rightarrow> (sb', OutBool b))"
| "sb_step (OpPushBatch ps t) sb = (case PushBatch sb ps t of (sb', b) \<Rightarrow> (sb', OutBool b))"
| "sb_step (OpACK a) sb = (case ACK sb a of (sb', n) \<Rightarrow> (sb', OutCount n))"
| "sb_step (OpNAK l) sb = (sb, OutPackets (NAK sb l))"
| "sb_step (OpNAKTimed l now rtt rttVar) sb =
     (case NAKTimed sb l now rtt rttVar of (sb', ps) \<Rightarrow> (sb', OutPackets ps))"
| "sb_step (OpGet s) sb = (case Get sb s of (p, b) \<Rightarrow> (sb, OutPacket p b))"
| "sb_step OpUnacked sb = (sb, OutPackets (GetAllUnacked sb))"
| "sb_step (OpDropUntil a) sb = (case DropUntil sb a of (sb', n) \<Rightarrow> (sb', OutCount n))"
| "sb_step (OpDropTooLate now thresh) sb =
     (case DropTooLateSend sb now thresh of (sb', n, first, last') \<Rightarrow> (sb', OutRange n first last'))"
| "sb_step (OpSetMsgTTL ttl) sb = (SetMsgTTL sb ttl, OutNone)"

definition new_entry :: "Packet \<Rightarrow> Timestamp \<Rightarrow> sendEntry" where
  "new_entry p t = zero_sendEntry\<lparr>pkt := p, used := True, sentAt := t\<rparr>"

fun q_step :: "nat \<Rightarrow> sb_op \<Rightarrow> Number \<times> sendEntry list \<Rightarrow> (Number \<times> sendEntry list) \<times> sb_out" where
  "q_step cap (OpPush p ts) (s, q) =
     (if length q < cap then ((s, q @ [new_entry p (case ts of [] \<Rightarrow> 0 | t # _ \<Rightarrow> t)]), OutBool True)
      else ((s, q), OutBool False))"
| "q_step cap (OpPushBatch ps t) (s, q) =
     (if length q + length ps \<le> cap then ((s, q @ map (\<lambda>p. new_entry p t) ps), OutBool True)
      else ((s, q), OutBool False))"
| "q_step cap (OpACK a) (s, q) =
     (let n = q_acked s q a in ((seq_nth s n, drop n q), OutCount (int n)))"
| "q_step cap (OpNAK l) (s, q) =
     ((s, q), OutPackets (map (\<lambda>e. rexmit_clone (pkt e)) (List.map_filter (q_lookup s q) l)))"
| "q_step cap (OpNAKTimed l now rtt rttVar) (s, q) =
     (case q_nak_timed s q l now (now - max 0 (rtt - 4 * rttVar)) of (q', ps) \<Rightarrow> ((s, q'), OutPackets ps))"
| "q_step cap (OpGet x) (s, q) =
     ((s, q), case q_lookup s q x of None \<Rightarrow> OutPacket zero_Packet False
              | Some e \<Rightarrow> OutPacket (Clone (pkt e)) True)"
| "q_step cap OpUnacked (s, q) = ((s, q), OutPackets (map (\<lambda>e. rexmit_clone (pkt e)) q))"
| "q_step cap (OpDropUntil a) (s, q) =
     (let n = q_acked s q a in ((seq_nth s n, drop n q), OutCount (int n)))"
| "q_step cap (OpDropTooLate now thresh) (s, q) =
     (let n = length (takeWhile (entry_expired now thresh) q) in
      ((seq_nth s n, drop n q), OutRange (int n) s (if n = 0 then 0 else seq_nth s (n - 1))))"
| "q_step cap (OpSetMsgTTL ttl) (s, q) =
     ((s, if q = [] then [] else butlast q @ [(last q)\<lparr>msgTTL := ttl\<rparr>]), OutNone)"

fun op_valid :: "sb_op \<Rightarrow> bool" where
  "op_valid (OpACK a) = valid_seq a"
| "op_valid (OpNAK l) = list_all valid_seq l"
| "op_valid (OpNAKTimed l now rtt rttVar) = list_all valid_seq l"
| "op_valid (OpGet s) = valid_seq s"
| "op_valid (OpDropUntil a) = valid_seq a"
| "op_valid _ = True"

text \<open>The packets an operation put into the buffer, by its result.\<close>

fun accepted :: "sb_op \<Rightarrow> sb_out \<Rightarrow> Packet list" where
  "accepted (OpPush p ts) (OutBool b) = (if b then [p] else [])"
| "accepted (OpPushBatch ps t) (OutBool b) = (if b then ps else [])"
| "accepted _ _ = []"

definition history :: "sb_op list \<Rightarrow> sb_out list \<Rightarrow> Packet list" where
  "history ops outs = concat (map2 accepted ops outs)"

section \<open>Primitive steps\<close>

lemma sb_invD:
  assumes "sb_inv sb"
  shows "ring_cap (sb_cap sb)" "sb_mask sb = sb_cap sb - Suc 0" "valid_seq (sb_startSeq sb)"
    "0 \<le> sb_size sb" "nat (sb_size sb) \<le> sb_cap sb" "sb_nextSeq sb = seq_nth (sb_startSeq sb) (nat (sb_size sb))"
    "j < sb_cap sb \<Longrightarrow> used (sb_entries sb ! sb_slot sb j) \<longleftrightarrow> j < nat (sb_size sb)"
  using assms by (auto simp: sb_inv_def)

lemma length_sb_queue [simp]: "length (sb_queue sb) = nat (sb_size sb)"
  by (simp add: sb_queue_def)

lemma nth_sb_queue: "j < nat (sb_size sb) \<Longrightarrow> sb_queue sb ! j = sb_entries sb ! sb_slot sb j"
  by (simp add: sb_queue_def)

lemma sb_idx_slot:
  "sb_inv sb \<Longrightarrow> sb_idx sb (seq_nth (sb_startSeq sb) j) = sb_slot sb j"
  by (simp add: sb_idx_def sb_slot_def sb_invD(1,2) idx_slot del: unat_seq_nth)

lemma sb_idx_start: "sb_inv sb \<Longrightarrow> sb_idx sb (sb_startSeq sb) = sb_slot sb 0"
  using sb_idx_slot [of sb 0] by (simp add: sb_invD(3))

lemma sb_slot_lt [simp]: "sb_inv sb \<Longrightarrow> sb_slot sb j < length (sb_entries sb)"
  using slot_lt [OF sb_invD(1)] by (simp add: sb_slot_def sb_cap_def)

lemma sb_slot_eq_iff: "j < sb_cap sb \<Longrightarrow> k < sb_cap sb \<Longrightarrow> sb_slot sb j = sb_slot sb k \<longleftrightarrow> j = k"
  by (simp add: sb_slot_def slot_eq_iff)

lemma sb_used_queue: "sb_inv sb \<Longrightarrow> e \<in> set (sb_queue sb) \<Longrightarrow> used e"
  using sb_invD(5,7) by (fastforce simp: sb_queue_def)

text \<open>Insertion at the tail, removal at the head, and update in place, on the queue.\<close>

lemma sb_insert_queue:
  assumes inv: "sb_inv sb" and room: "nat (sb_size sb) < sb_cap sb"
  shows "sb_inv (sb_insert sb p ts)"
    and "sb_queue (sb_insert sb p ts) = sb_queue sb @ [zero_sendEntry\<lparr>pkt := p, used := True, sentAt := ts\<rparr>]"
    and "sb_startSeq (sb_insert sb p ts) = sb_startSeq sb" and "sb_cap (sb_insert sb p ts) = sb_cap sb"
proof -
  define n where "n = nat (sb_size sb)"
  define e where "e = zero_sendEntry\<lparr>pkt := p, used := True, sentAt := ts\<rparr>"
  define sb' where "sb' = sb_insert sb p ts"
  note I = sb_invD [OF inv]
  have s: "sb_size sb' = sb_size sb + 1" "nat (sb_size sb + 1) = Suc n" using I(4) by (simp_all add: sb'_def sb_insert_def Let_def n_def)
  have idx: "sb_idx sb (sb_nextSeq sb) = sb_slot sb n" unfolding I(6) n_def by (rule sb_idx_slot [OF inv])
  have E: "sb_entries sb' = (sb_entries sb)[sb_slot sb n := e]"
    by (simp add: sb'_def sb_insert_def Let_def idx e_def)
  have st: "sb_startSeq sb' = sb_startSeq sb" and c: "sb_cap sb' = sb_cap sb"
    by (simp_all add: sb'_def sb_insert_def Let_def sb_cap_def)
  have sl: "sb_slot sb' j = sb_slot sb j" for j by (simp add: sb_slot_def st c)
  have nth: "sb_entries sb' ! sb_slot sb j = (if j = n then e else sb_entries sb ! sb_slot sb j)"
    if "j < sb_cap sb" for j
    using that room inv sb_slot_eq_iff [of n sb j] by (auto simp: E n_def nth_list_update)
  have nx: "sb_nextSeq sb' = seq_nth (sb_startSeq sb) (Suc n)"
    using I(6) by (simp add: sb'_def sb_insert_def Let_def n_def Inc_eq_nth)
  have le: "sb_size sb + 1 \<le> int (sb_cap sb)" using room I(4) by linarith
  show "sb_inv (sb_insert sb p ts)"
    unfolding sb'_def [symmetric] sb_inv_def
    using I room nx le by (auto simp: st c sl nth s n_def [symmetric] e_def) (simp add: sb'_def sb_insert_def Let_def)
  show "sb_queue (sb_insert sb p ts) = sb_queue sb @ [zero_sendEntry\<lparr>pkt := p, used := True, sentAt := ts\<rparr>]"
    unfolding sb'_def [symmetric] e_def [symmetric]
    using room by (simp add: sb_queue_def s sl nth n_def [symmetric])
  show "sb_startSeq (sb_insert sb p ts) = sb_startSeq sb" "sb_cap (sb_insert sb p ts) = sb_cap sb"
    using st c by (simp_all add: sb'_def)
qed

lemma sb_pop_queue:
  assumes inv: "sb_inv sb" and pos: "0 < sb_size sb"
  shows "sb_inv (sb_pop sb)" and "sb_queue (sb_pop sb) = tl (sb_queue sb)"
    and "sb_startSeq (sb_pop sb) = seq_nth (sb_startSeq sb) 1" and "sb_nextSeq (sb_pop sb) = sb_nextSeq sb"
    and "sb_cap (sb_pop sb) = sb_cap sb" and "sb_size (sb_pop sb) = sb_size sb - 1"
proof -
  note I = sb_invD [OF inv]
  define n where "n = nat (sb_size sb) - 1"
  define sb' where "sb' = sb_pop sb"
  have n: "nat (sb_size sb) = Suc n" "nat (sb_size sb - 1) = n" using pos by (simp_all add: n_def)
  have E: "sb_entries sb' = (sb_entries sb)[sb_slot sb 0 := zero_sendEntry]"
    by (simp add: sb'_def sb_pop_def sb_release_def sb_idx_start [OF inv])
  show st: "sb_startSeq (sb_pop sb) = seq_nth (sb_startSeq sb) 1"
    and nx: "sb_nextSeq (sb_pop sb) = sb_nextSeq sb" and c: "sb_cap (sb_pop sb) = sb_cap sb"
    and sz: "sb_size (sb_pop sb) = sb_size sb - 1"
    using I(3) by (simp_all add: sb_pop_def sb_release_def sb_cap_def Inc_eq_nth)
  have sz': "sb_size sb' = sb_size sb - 1" by (simp add: sb'_def sz)
  have sl: "sb_slot sb' j = sb_slot sb (Suc j)" for j
    using slot_seq_nth [OF I(1), of "sb_startSeq sb" 1 j] by (simp add: sb_slot_def sb'_def st c)
  have nth: "sb_entries sb' ! sb_slot sb' j = (if Suc j = sb_cap sb then zero_sendEntry else sb_entries sb ! sb_slot sb (Suc j))"
    if "j < sb_cap sb" for j
  proof (cases "Suc j = sb_cap sb")
    case True
    then have "sb_slot sb (Suc j) = sb_slot sb 0" using slot_wrap [of "sb_cap sb" "sb_startSeq sb" 0] by (simp add: sb_slot_def)
    with True inv show ?thesis by (simp add: E sl)
  next
    case False
    then have "sb_slot sb (Suc j) \<noteq> sb_slot sb 0" using that by (subst sb_slot_eq_iff) auto
    with False show ?thesis by (simp add: E sl)
  qed
  have le: "sb_size sb - 1 \<le> int (sb_cap sb)" and nc: "Suc n \<le> sb_cap sb" using I(4,5) n by linarith+
  have u: "used (sb_entries sb' ! sb_slot sb' j) \<longleftrightarrow> j < n" if "j < sb_cap sb" for j
    using that nc n I(7) [of "Suc j"] by (auto simp: nth zero_sendEntry_def)
  have "sb_nextSeq sb = seq_nth (seq_nth (sb_startSeq sb) 1) n" using I(6) n by simp
  moreover have "sb_mask sb' = sb_cap sb - Suc 0" using I(2) by (simp add: sb'_def sb_pop_def sb_release_def)
  ultimately show "sb_inv (sb_pop sb)"
    unfolding sb'_def [symmetric] sb_inv_def
    using I(1,4) pos le u by (simp add: sb'_def st nx c sz n)
  show "sb_queue (sb_pop sb) = tl (sb_queue sb)"
    unfolding sb'_def [symmetric] sb_queue_def
    by (rule nth_equalityI) (use nc in \<open>auto simp: nth n sz' nth_tl simp del: upt_Suc\<close>)
qed

lemma sb_update_queue:
  assumes inv: "sb_inv sb" and j: "j < nat (sb_size sb)" and e: "used e"
  shows "sb_inv (sb\<lparr>sb_entries := (sb_entries sb)[sb_slot sb j := e]\<rparr>)"
    and "sb_queue (sb\<lparr>sb_entries := (sb_entries sb)[sb_slot sb j := e]\<rparr>) = (sb_queue sb)[j := e]"
proof -
  note I = sb_invD [OF inv]
  define sb' where "sb' = sb\<lparr>sb_entries := (sb_entries sb)[sb_slot sb j := e]\<rparr>"
  have f: "sb_cap sb' = sb_cap sb" "sb_slot sb' i = sb_slot sb i" "sb_size sb' = sb_size sb"
    "sb_startSeq sb' = sb_startSeq sb" "sb_nextSeq sb' = sb_nextSeq sb" "sb_mask sb' = sb_mask sb" for i
    by (simp_all add: sb'_def sb_cap_def sb_slot_def)
  have nth: "sb_entries sb' ! sb_slot sb i = (if i = j then e else sb_entries sb ! sb_slot sb i)"
    if "i < sb_cap sb" for i
    using that j I(5) inv sb_slot_eq_iff [of j sb i] by (auto simp: sb'_def nth_list_update)
  show "sb_inv (sb\<lparr>sb_entries := (sb_entries sb)[sb_slot sb j := e]\<rparr>)"
    unfolding sb'_def [symmetric] sb_inv_def using I j e inv by (auto simp: f nth sb_inv_def)
  show "sb_queue (sb\<lparr>sb_entries := (sb_entries sb)[sb_slot sb j := e]\<rparr>) = (sb_queue sb)[j := e]"
    unfolding sb'_def [symmetric]
    by (rule nth_equalityI) (use I(5) in \<open>auto simp: sb_queue_def f nth nth_list_update\<close>)
qed

lemma sb_window_next: "sb_inv sb \<Longrightarrow> seq_off (sb_startSeq sb) (sb_nextSeq sb) = nat (sb_size sb)"
  using sb_invD [of sb] ring_cap_lt [of "sb_cap sb"] by (simp add: seq_off_nth)

text \<open>The range check accepts exactly the numbers of the window.\<close>

lemma sb_range_iff:
  assumes inv: "sb_inv sb" and s: "valid_seq s"
  shows "sb_out_of_range sb s \<longleftrightarrow> nat (sb_size sb) \<le> seq_off (sb_startSeq sb) s"
proof -
  note I = sb_invD [OF inv]
  define n k where "n = nat (sb_size sb)" and "k = seq_off (sb_startSeq sb) s"
  have n: "n < H31" using I(5) ring_cap_lt [OF I(1)] by (simp add: n_def)
  have k: "s = seq_nth (sb_startSeq sb) k" "k < M31" using I(3) s by (simp_all add: k_def)
  have L1: "LessThan s (sb_startSeq sb) \<Longrightarrow> H31 \<le> k"
    using LessThan_off_lt [of "sb_startSeq sb" s] LessThan_asym [of s "sb_startSeq sb"] I(3) s
    by (cases "k < H31") (auto simp: k_def)
  show ?thesis
  proof (cases "k < H31")
    case True
    then have "LessThan (sb_nextSeq sb) s \<longleftrightarrow> n < k"
      unfolding I(6) n_def [symmetric] k(1) using I(3) n by (intro LessThan_window)
    moreover have "sb_nextSeq sb = s \<longleftrightarrow> n = k"
      unfolding I(6) n_def [symmetric] k(1) using I(3) n True by (simp add: seq_nth_eq_iff)
    ultimately show ?thesis
      using L1 True by (auto simp: sb_out_of_range_def LessThanOrEqual_def n_def k_def)
  next
    case False
    have "LessThan s (sb_startSeq sb) \<or> LessThanOrEqual (sb_nextSeq sb) s"
      unfolding I(6) n_def [symmetric] using I(3) s n False by (intro window_outside) (simp_all add: k_def)
    with False n show ?thesis by (simp add: sb_out_of_range_def n_def k_def)
  qed
qed

section \<open>Operations on the queue\<close>

lemma sb_lookup:
  assumes inv: "sb_inv sb" and s: "valid_seq s"
  shows "sb_out_of_range sb s \<longleftrightarrow> q_lookup (sb_startSeq sb) (sb_queue sb) s = None"
    and "q_lookup (sb_startSeq sb) (sb_queue sb) s = Some e \<Longrightarrow> sb_entries sb ! sb_idx sb s = e \<and> used e"
    and "q_lookup (sb_startSeq sb) (sb_queue sb) s = Some e \<Longrightarrow>
      sb_idx sb s = sb_slot sb (seq_off (sb_startSeq sb) s) \<and> seq_off (sb_startSeq sb) s < nat (sb_size sb)"
proof -
  note I = sb_invD [OF inv]
  define k where "k = seq_off (sb_startSeq sb) s"
  show "sb_out_of_range sb s \<longleftrightarrow> q_lookup (sb_startSeq sb) (sb_queue sb) s = None"
    by (simp add: sb_range_iff [OF inv s] q_lookup_def Let_def not_less)
  assume "q_lookup (sb_startSeq sb) (sb_queue sb) s = Some e"
  then have k: "k < nat (sb_size sb)" "e = sb_queue sb ! k"
    by (auto simp: q_lookup_def Let_def k_def split: if_splits)
  have "s = seq_nth (sb_startSeq sb) k" using I(3) s by (simp add: k_def)
  then have "sb_idx sb s = sb_slot sb k" using sb_idx_slot [OF inv] by simp
  moreover have "used e" using k sb_used_queue [OF inv, of e] by (auto simp: in_set_conv_nth)
  ultimately show "sb_entries sb ! sb_idx sb s = e \<and> used e"
    "sb_idx sb s = sb_slot sb (seq_off (sb_startSeq sb) s) \<and> seq_off (sb_startSeq sb) s < nat (sb_size sb)"
    using k by (simp_all add: nth_sb_queue k_def)
qed

lemma Get_queue:
  assumes "sb_inv sb" and "valid_seq s"
  shows "Get sb s = (case q_lookup (sb_startSeq sb) (sb_queue sb) s of
     None \<Rightarrow> (zero_Packet, False) | Some e \<Rightarrow> (Clone (pkt e), True))"
proof (cases "q_lookup (sb_startSeq sb) (sb_queue sb) s")
  case None
  then show ?thesis using sb_lookup(1) [OF assms] by (simp add: Get_def)
next
  case (Some e)
  then show ?thesis using sb_lookup(1,2) [OF assms] by (simp add: Get_def Let_def)
qed

lemma NAK_queue:
  assumes inv: "sb_inv sb"
  shows "list_all valid_seq l \<Longrightarrow>
    NAK sb l = map (\<lambda>e. rexmit_clone (pkt e)) (List.map_filter (q_lookup (sb_startSeq sb) (sb_queue sb)) l)"
proof (induction l)
  case (Cons s l)
  show ?case
  proof (cases "q_lookup (sb_startSeq sb) (sb_queue sb) s")
    case None
    then show ?thesis using Cons sb_lookup(1) [OF inv, of s] by (simp add: map_filter_simps)
  next
    case (Some e)
    then show ?thesis using Cons sb_lookup(1,2) [OF inv, of s] by (simp add: map_filter_simps Let_def)
  qed
qed (simp add: map_filter_simps)

lemma sb_release_until_step:
  assumes inv: "sb_inv sb" and pos: "0 < sb_size sb" and lt: "LessThan (sb_startSeq sb) a"
  shows "sb_release_until a sb c = sb_release_until a (sb_pop sb) (c + 1)"
proof -
  have "used (sb_entries sb ! sb_slot sb 0)" using sb_invD(7) [OF inv, of 0] sb_invD(5) [OF inv] pos by simp
  then show ?thesis
    by (subst sb_release_until.simps) (simp add: lt pos sb_idx_start [OF inv] sb_pop_def)
qed

lemma sb_release_until_queue:
  assumes "sb_inv sb" and "valid_seq a" and "n = q_acked (sb_startSeq sb) (sb_queue sb) a"
    and "sb_release_until a sb c = (sb', c')"
  shows "sb_inv sb' \<and> sb_queue sb' = drop n (sb_queue sb) \<and> sb_startSeq sb' = seq_nth (sb_startSeq sb) n \<and>
    sb_nextSeq sb' = sb_nextSeq sb \<and> sb_cap sb' = sb_cap sb \<and> c' = c + int n"
  using assms
proof (induction n arbitrary: sb c)
  case 0
  then have "\<not> (LessThan (sb_startSeq sb) a \<and> 0 < sb_size sb)"
    using sb_invD(3) [OF 0(1)] seq_off_eq_0_iff [of "sb_startSeq sb" a]
    by (auto simp: q_acked_def min_def split: if_splits)
  then have "sb_release_until a sb c = (sb, c)" by (subst sb_release_until.simps) auto
  then show ?case using 0 sb_invD(3) [OF 0(1)] by simp
next
  case (Suc n)
  note v = sb_invD(3) [OF Suc.prems(1)]
  have lt: "LessThan (sb_startSeq sb) a" and pos: "0 < sb_size sb"
    and m: "Suc n = min (seq_off (sb_startSeq sb) a) (nat (sb_size sb))"
    using Suc.prems(3) by (auto simp: q_acked_def split: if_splits)
  note P = sb_pop_queue [OF Suc.prems(1) pos]
  have ne: "sb_startSeq sb \<noteq> a" using lt by auto
  have o: "seq_off (seq_nth (sb_startSeq sb) 1) a = seq_off (sb_startSeq sb) a - 1"
    using seq_off_Inc_left [OF v Suc.prems(2) ne] v by (simp add: Inc_eq_nth)
  have "LessThan (seq_nth (sb_startSeq sb) 1) a" if "n \<noteq> 0"
  proof -
    have "0 < seq_off (seq_nth (sb_startSeq sb) 1) a" "seq_off (seq_nth (sb_startSeq sb) 1) a < H31"
      using that m o lt v Suc.prems(2) by (auto simp: LessThan_iff)
    then show ?thesis using Suc.prems(2) LessThan_off_lt [of "seq_nth (sb_startSeq sb) 1" a] by auto
  qed
  then have "n = q_acked (sb_startSeq (sb_pop sb)) (sb_queue (sb_pop sb)) a"
    using m o by (auto simp: q_acked_def P(2,3))
  from Suc.IH [OF P(1) Suc.prems(2) this] have IH: "sb_inv sb' \<and> sb_queue sb' = drop n (sb_queue (sb_pop sb)) \<and>
      sb_startSeq sb' = seq_nth (sb_startSeq (sb_pop sb)) n \<and> sb_nextSeq sb' = sb_nextSeq (sb_pop sb) \<and>
      sb_cap sb' = sb_cap (sb_pop sb) \<and> c' = c + 1 + int n"
    using Suc.prems(4) sb_release_until_step [OF Suc.prems(1) pos lt, of c] by simp
  then show ?case using P by (simp add: drop_Suc)
qed

lemma NewSendBuffer_queue:
  assumes "capacity \<le> 2 ^ 29" and "valid_seq i"
  shows "sb_inv (NewSendBuffer capacity i)" and "sb_queue (NewSendBuffer capacity i) = []"
    and "sb_startSeq (NewSendBuffer capacity i) = i" and "sb_cap (NewSendBuffer capacity i) = nat (nextPow2 capacity)"
proof -
  note c = nextPow2_ring_cap [OF assms(1)]
  show cap: "sb_cap (NewSendBuffer capacity i) = nat (nextPow2 capacity)"
    and st: "sb_startSeq (NewSendBuffer capacity i) = i"
    by (simp_all add: NewSendBuffer_def sb_cap_def Let_def)
  show "sb_queue (NewSendBuffer capacity i) = []" by (simp add: NewSendBuffer_def sb_queue_def Let_def)
  have u: "\<not> used (sb_entries (NewSendBuffer capacity i) ! sb_slot (NewSendBuffer capacity i) j)" for j
    using slot_lt [OF c(1)] unfolding sb_slot_def cap by (simp add: NewSendBuffer_def Let_def zero_sendEntry_def)
  show "sb_inv (NewSendBuffer capacity i)"
    unfolding sb_inv_def cap st using c assms(2) u by (simp add: NewSendBuffer_def Let_def)
qed

lemma PushBatch_queue:
  assumes "sb_inv sb" and "nat (sb_size sb) + length ps \<le> sb_cap sb"
  shows "sb_inv (foldl (\<lambda>sb p. sb_insert sb p ts) sb ps) \<and>
    sb_queue (foldl (\<lambda>sb p. sb_insert sb p ts) sb ps) =
      sb_queue sb @ map (\<lambda>p. zero_sendEntry\<lparr>pkt := p, used := True, sentAt := ts\<rparr>) ps \<and>
    sb_startSeq (foldl (\<lambda>sb p. sb_insert sb p ts) sb ps) = sb_startSeq sb \<and>
    sb_cap (foldl (\<lambda>sb p. sb_insert sb p ts) sb ps) = sb_cap sb"
  using assms
proof (induction ps arbitrary: sb)
  case (Cons p ps)
  note P = sb_insert_queue [of sb p ts]
  have "nat (sb_size (sb_insert sb p ts)) = Suc (nat (sb_size sb))"
    using sb_invD(4) [OF Cons.prems(1)] by (simp add: sb_insert_def Let_def)
  then show ?case using Cons P by simp
qed simp

lemma sb_unacked_queue:
  assumes inv: "sb_inv sb" and "j \<le> nat (sb_size sb)"
  shows "sb_unacked_from sb (seq_nth (sb_startSeq sb) j) = map (\<lambda>e. rexmit_clone (pkt e)) (drop j (sb_queue sb))"
  using assms(2)
proof (induction "nat (sb_size sb) - j" arbitrary: j)
  case 0
  then have "j = nat (sb_size sb)" by simp
  then show ?case using sb_invD(6) [OF inv] by (subst sb_unacked_from.simps) simp
next
  case (Suc m)
  note I = sb_invD [OF inv]
  have j: "j < nat (sb_size sb)" using Suc by simp
  have "LessThan (seq_nth (sb_startSeq sb) j) (sb_nextSeq sb)"
    unfolding I(6) using LessThan_window [OF I(3), of j "nat (sb_size sb)"] j I(5) ring_cap_lt [OF I(1)] by simp
  moreover have "Inc (seq_nth (sb_startSeq sb) j) = seq_nth (sb_startSeq sb) (Suc j)"
    by (simp add: Inc_eq_nth)
  moreover have "sb_entries sb ! sb_slot sb j = sb_queue sb ! j" using j by (simp add: nth_sb_queue)
  moreover have "used (sb_queue sb ! j)" using sb_used_queue [OF inv] j by simp
  moreover have "drop j (sb_queue sb) = sb_queue sb ! j # drop (Suc j) (sb_queue sb)"
    using j by (simp add: Cons_nth_drop_Suc)
  ultimately show ?case
    using Suc by (subst sb_unacked_from.simps) (simp add: sb_idx_slot [OF inv])
qed

lemma GetAllUnacked_queue:
  "sb_inv sb \<Longrightarrow> GetAllUnacked sb = map (\<lambda>e. rexmit_clone (pkt e)) (sb_queue sb)"
  using sb_unacked_queue [of sb 0] sb_invD(3) [of sb] by (auto simp: GetAllUnacked_def sb_queue_def)

lemma sb_queue_Cons: "sb_inv sb \<Longrightarrow> 0 < sb_size sb \<Longrightarrow> sb_queue sb = sb_entries sb ! sb_slot sb 0 # tl (sb_queue sb)"
  using nth_sb_queue [of 0 sb] length_sb_queue [of sb] by (cases "sb_queue sb") auto

lemma drop_too_late_queue:
  assumes "sb_inv sb" and "n = length (takeWhile (entry_expired now thresh) (sb_queue sb))"
    and "drop_too_late sb now thresh d l = (sb', d', l')"
  shows "sb_inv sb' \<and> sb_queue sb' = drop n (sb_queue sb) \<and> sb_startSeq sb' = seq_nth (sb_startSeq sb) n \<and>
    sb_nextSeq sb' = sb_nextSeq sb \<and> sb_cap sb' = sb_cap sb \<and> d' = d + int n \<and>
    l' = (if n = 0 then l else seq_nth (sb_startSeq sb) (n - 1))"
  using assms
proof (induction n arbitrary: sb d l)
  case 0
  have stop: "\<not> entry_expired now thresh (sb_entries sb ! sb_slot sb 0)" if "0 < sb_size sb"
    using 0(2) sb_queue_Cons [OF 0(1) that] by (auto split: if_splits) (metis list.size(3) takeWhile.simps(2) length_0_conv list.distinct(1))
  then have "drop_too_late sb now thresh d l = (sb, d, l)"
    by (subst drop_too_late.simps) (auto simp: Let_def sb_idx_start [OF 0(1)] entry_expired_def)
  then show ?case using 0 sb_invD(3) [OF 0(1)] by simp
next
  case (Suc n)
  have pos: "0 < sb_size sb" using Suc.prems(2) by (cases "0 < sb_size sb") (auto simp: sb_queue_def)
  note q = sb_queue_Cons [OF Suc.prems(1) pos]
  have e: "entry_expired now thresh (sb_entries sb ! sb_slot sb 0)"
    and n: "n = length (takeWhile (entry_expired now thresh) (tl (sb_queue sb)))"
    using Suc.prems(2) by (subst (asm) q, simp split: if_splits)+
  note P = sb_pop_queue [OF Suc.prems(1) pos]
  have "used (sb_entries sb ! sb_slot sb 0)" using sb_used_queue [OF Suc.prems(1)] q by (metis list.set_intros(1))
  then have "drop_too_late sb now thresh d l = drop_too_late (sb_pop sb) now thresh (d + 1) (sb_startSeq sb)"
    using pos e by (subst drop_too_late.simps)
      (simp add: Let_def sb_idx_start [OF Suc.prems(1)] entry_expired_def sb_pop_def)
  then show ?case using Suc.IH [OF P(1), of "d + 1" "sb_startSeq sb"] Suc.prems(3) n P sb_invD(3) [OF Suc.prems(1)]
    by (auto simp: drop_Suc)
qed

lemma set_slot_ttl_queue:
  assumes inv: "sb_inv sb" and j: "j < nat (sb_size sb)"
  shows "sb_inv (set_slot_ttl sb (seq_nth (sb_startSeq sb) j) ttl)"
    and "sb_queue (set_slot_ttl sb (seq_nth (sb_startSeq sb) j) ttl) =
      (sb_queue sb)[j := (sb_queue sb ! j)\<lparr>msgTTL := ttl\<rparr>]"
    and "sb_startSeq (set_slot_ttl sb s ttl) = sb_startSeq sb"
    and "sb_nextSeq (set_slot_ttl sb s ttl) = sb_nextSeq sb"
    and "sb_size (set_slot_ttl sb s ttl) = sb_size sb" and "sb_cap (set_slot_ttl sb s ttl) = sb_cap sb"
proof -
  have u: "used (sb_queue sb ! j)" using sb_used_queue [OF inv] j by simp
  then have "set_slot_ttl sb (seq_nth (sb_startSeq sb) j) ttl =
      sb\<lparr>sb_entries := (sb_entries sb)[sb_slot sb j := (sb_queue sb ! j)\<lparr>msgTTL := ttl\<rparr>]\<rparr>"
    using j by (simp add: set_slot_ttl_def Let_def sb_idx_slot [OF inv] nth_sb_queue)
  then show "sb_inv (set_slot_ttl sb (seq_nth (sb_startSeq sb) j) ttl)"
    "sb_queue (set_slot_ttl sb (seq_nth (sb_startSeq sb) j) ttl) =
      (sb_queue sb)[j := (sb_queue sb ! j)\<lparr>msgTTL := ttl\<rparr>]"
    using sb_update_queue [OF inv j, of "(sb_queue sb ! j)\<lparr>msgTTL := ttl\<rparr>"] u by simp_all
qed (simp_all add: set_slot_ttl_def Let_def sb_cap_def)

lemma SetMsgTTL_queue:
  assumes inv: "sb_inv sb" and pos: "0 < sb_size sb"
  shows "sb_inv (SetMsgTTL sb ttl) \<and>
    sb_queue (SetMsgTTL sb ttl) = butlast (sb_queue sb) @ [(last (sb_queue sb))\<lparr>msgTTL := ttl\<rparr>] \<and>
    sb_startSeq (SetMsgTTL sb ttl) = sb_startSeq sb \<and> sb_cap (SetMsgTTL sb ttl) = sb_cap sb"
proof -
  note I = sb_invD [OF inv]
  define n where "n = nat (sb_size sb) - 1"
  have n: "nat (sb_size sb) = Suc n" "n < nat (sb_size sb)" using pos by (simp_all add: n_def)
  have "Dec (sb_nextSeq sb) = seq_nth (sb_startSeq sb) (Suc n + (M31 - 1))"
    unfolding I(6) n(1) by (simp add: Dec_eq_nth)
  also have "Suc n + (M31 - 1) = n + M31" by simp
  also have "seq_nth (sb_startSeq sb) \<dots> = seq_nth (sb_startSeq sb) n" by (rule seq_nth_M31)
  finally have d: "SetMsgTTL sb ttl = set_slot_ttl sb (seq_nth (sb_startSeq sb) n) ttl"
    using pos by (simp add: SetMsgTTL_def)
  have "sb_queue sb \<noteq> []" by (metis length_sb_queue list.size(3) n(1) nat.distinct(1))
  then have "(sb_queue sb)[n := (sb_queue sb ! n)\<lparr>msgTTL := ttl\<rparr>] =
      butlast (sb_queue sb) @ [(last (sb_queue sb))\<lparr>msgTTL := ttl\<rparr>]"
    using n by (cases "sb_queue sb" rule: rev_cases) (simp_all add: n_def length_sb_queue [symmetric] del: length_sb_queue)
  then show ?thesis unfolding d using set_slot_ttl_queue [OF inv n(2), where ttl = ttl] by simp
qed

lemma batch_offset:
  assumes "0 < n" "n \<le> int m" "i < nat n" "m < H31"
  shows "Add (seq_nth s m) (word_of_int (- n + int i)) = seq_nth s (m - nat n + i)"
proof (rule seq_eqI)
  have r: "- n + int i = - int (nat n - i)" "0 < nat n - i" "nat n - i \<le> m" using assms by auto
  have u: "unat (word_of_int (- int (nat n - i)) :: u32) = 4294967296 - (nat n - i)"
  proof -
    have "(of_nat (4294967296 - (nat n - i)) :: u32) = of_nat 4294967296 - of_nat (nat n - i)"
      using r assms by (intro of_nat_diff) simp
    then have "(word_of_int (- int (nat n - i)) :: u32) = of_nat (4294967296 - (nat n - i))" by simp
    then show ?thesis using r by (simp add: unat_of_nat)
  qed
  have "unat (Add (seq_nth s m) (word_of_int (- n + int i))) = ((unat s + m) mod M31 + (4294967296 - (nat n - i))) mod M31"
    unfolding r(1) by (simp only: unat_Add unat_seq_nth u)
  also have "\<dots> = (unat s + m + (4294967296 - (nat n - i))) mod M31" by (rule mod_add_left_eq)
  also have "unat s + m + (4294967296 - (nat n - i)) = unat s + (m - nat n + i) + 2 * M31" using r assms by simp
  also have "(unat s + (m - nat n + i) + 2 * M31) mod M31 = (unat s + (m - nat n + i)) mod M31"
    by (rule mod_mult_self1)
  finally show "unat (Add (seq_nth s m) (word_of_int (- n + int i))) = unat (seq_nth s (m - nat n + i))" by simp
qed

lemma SetMsgTTLBatch_queue:
  assumes inv: "sb_inv sb" and n: "0 < n" "n \<le> sb_size sb"
  shows "sb_inv (SetMsgTTLBatch sb ttl n) \<and>
    sb_queue (SetMsgTTLBatch sb ttl n) =
      take (nat (sb_size sb - n)) (sb_queue sb) @
      map (\<lambda>e. e\<lparr>msgTTL := ttl\<rparr>) (drop (nat (sb_size sb - n)) (sb_queue sb)) \<and>
    sb_startSeq (SetMsgTTLBatch sb ttl n) = sb_startSeq sb \<and> sb_cap (SetMsgTTLBatch sb ttl n) = sb_cap sb"
proof -
  define step where "step = (\<lambda>sb i. set_slot_ttl sb (Add (sb_nextSeq sb) (word_of_int (- n + int i))) ttl)"
  define b where "b = nat (sb_size sb - n)"
  note I = sb_invD [OF inv]
  have m: "nat (sb_size sb) < H31" using I(5) ring_cap_lt [OF I(1)] by simp
  have "k \<le> nat n \<Longrightarrow> (let sb' = foldl step sb [0..<k] in sb_inv sb' \<and> sb_startSeq sb' = sb_startSeq sb \<and>
      sb_nextSeq sb' = sb_nextSeq sb \<and> sb_size sb' = sb_size sb \<and> sb_cap sb' = sb_cap sb \<and>
      sb_queue sb' = take b (sb_queue sb) @ map (\<lambda>e. e\<lparr>msgTTL := ttl\<rparr>) (take k (drop b (sb_queue sb))) @
        drop (b + k) (sb_queue sb))" for k
  proof (induction k)
    case 0
    then show ?case using inv by (simp add: Let_def)
  next
    case (Suc k)
    define sb1 where "sb1 = foldl step sb [0..<k]"
    have IH: "sb_inv sb1" "sb_startSeq sb1 = sb_startSeq sb" "sb_nextSeq sb1 = sb_nextSeq sb"
      "sb_size sb1 = sb_size sb" "sb_cap sb1 = sb_cap sb"
      "sb_queue sb1 = take b (sb_queue sb) @ map (\<lambda>e. e\<lparr>msgTTL := ttl\<rparr>) (take k (drop b (sb_queue sb))) @
        drop (b + k) (sb_queue sb)"
      using Suc by (simp_all add: Let_def sb1_def)
    have bk: "nat (sb_size sb) - nat n + k = b + k" "b + k < nat (sb_size sb)" using n Suc.prems by (simp_all add: b_def nat_diff_distrib)
    have "Add (sb_nextSeq sb1) (word_of_int (- n + int k)) = seq_nth (sb_startSeq sb1) (b + k)"
      using batch_offset [of n "nat (sb_size sb)" k "sb_startSeq sb"] n m Suc.prems I(6) bk(1) by (simp add: IH)
    then have st: "step sb1 k = set_slot_ttl sb1 (seq_nth (sb_startSeq sb1) (b + k)) ttl" by (simp add: step_def)
    have "foldl step sb [0..<Suc k] = step sb1 k" by (simp add: sb1_def)
    moreover have "(sb_queue sb1)[b + k := (sb_queue sb1 ! (b + k))\<lparr>msgTTL := ttl\<rparr>] =
       take b (sb_queue sb) @ map (\<lambda>e. e\<lparr>msgTTL := ttl\<rparr>) (take (Suc k) (drop b (sb_queue sb))) @
        drop (b + Suc k) (sb_queue sb)"
      using bk(2) by (intro update_middle) (simp_all add: IH(6))
    ultimately show ?case
      using set_slot_ttl_queue [OF IH(1), where j = "b + k" and ttl = ttl] bk(2) by (simp add: st Let_def IH)
  qed
  from this [of "nat n"] have "sb_inv (foldl step sb [0..<nat n]) \<and>
      sb_startSeq (foldl step sb [0..<nat n]) = sb_startSeq sb \<and> sb_cap (foldl step sb [0..<nat n]) = sb_cap sb \<and>
      sb_queue (foldl step sb [0..<nat n]) =
        take b (sb_queue sb) @ map (\<lambda>e. e\<lparr>msgTTL := ttl\<rparr>) (drop b (sb_queue sb))"
    using n by (simp add: Let_def b_def)
  moreover have "SetMsgTTLBatch sb ttl n = foldl step sb [0..<nat n]"
    using n by (simp add: SetMsgTTLBatch_def step_def)
  ultimately show ?thesis by (simp add: b_def)
qed

lemma NAKTimed_loop_queue:
  assumes "sb_inv sb" and "list_all valid_seq l" and "NAKTimed_loop sb l now timeNAK = (sb', ps)"
  shows "sb_inv sb' \<and> q_nak_timed (sb_startSeq sb) (sb_queue sb) l now timeNAK = (sb_queue sb', ps) \<and>
    sb_startSeq sb' = sb_startSeq sb \<and> sb_cap sb' = sb_cap sb \<and> sb_nextSeq sb' = sb_nextSeq sb"
  using assms
proof (induction l arbitrary: sb sb' ps)
  case (Cons s l)
  then have v: "valid_seq s" and l: "list_all valid_seq l" by simp_all
  note L = sb_lookup [OF Cons.prems(1) v]
  show ?case
  proof (cases "q_lookup (sb_startSeq sb) (sb_queue sb) s")
    case None
    then show ?thesis using Cons.IH [OF Cons.prems(1) l] Cons.prems(3) L(1) by simp
  next
    case (Some e)
    then have E: "\<not> sb_out_of_range sb s" "sb_entries sb ! sb_idx sb s = e" "used e"
      "sb_idx sb s = sb_slot sb (seq_off (sb_startSeq sb) s)" "seq_off (sb_startSeq sb) s < nat (sb_size sb)"
      using L by simp_all
    show ?thesis
    proof (cases "rexmitTime e \<noteq> 0 \<and> timeNAK \<le> rexmitTime e")
      case True
      then have "NAKTimed_loop sb (s # l) now timeNAK = NAKTimed_loop sb l now timeNAK"
        using E(1,2,3) by (simp add: Let_def clock_defs not_less)
      then show ?thesis using Cons.IH [OF Cons.prems(1) l] Cons.prems(3) Some True by simp
    next
      case False
      define sb1 where "sb1 = sb\<lparr>sb_entries := (sb_entries sb)[sb_idx sb s := e\<lparr>rexmitTime := now\<rparr>]\<rparr>"
      have 1: "sb_inv sb1" "sb_queue sb1 = (sb_queue sb)[seq_off (sb_startSeq sb) s := e\<lparr>rexmitTime := now\<rparr>]"
        using sb_update_queue [OF Cons.prems(1) E(5), of "e\<lparr>rexmitTime := now\<rparr>"] E(3) by (simp_all add: sb1_def E(4))
      have f: "sb_startSeq sb1 = sb_startSeq sb" "sb_cap sb1 = sb_cap sb" "sb_nextSeq sb1 = sb_nextSeq sb"
        by (simp_all add: sb1_def sb_cap_def)
      obtain sb2 ps2 where n: "NAKTimed_loop sb1 l now timeNAK = (sb2, ps2)" by fastforce
      have "NAKTimed_loop sb (s # l) now timeNAK = (sb2, rexmit_clone (pkt e) # ps2)"
        using E(1,2,3) False n by (auto simp: Let_def clock_defs not_less sb1_def)
      then show ?thesis
        using Cons.IH [OF 1(1) l n] Cons.prems(3) Some False by (auto simp: f 1(2) simp del: NAKTimed_loop.simps split: prod.splits)
    qed
  qed
qed simp

lemma sb_step_refines:
  assumes inv: "sb_inv sb" and ok: "op_valid op" and st: "sb_step op sb = (sb', out)"
  shows "sb_inv sb' \<and> sb_cap sb' = sb_cap sb \<and>
    q_step (sb_cap sb) op (sb_startSeq sb, sb_queue sb) = ((sb_startSeq sb', sb_queue sb'), out)"
proof (cases op)
  case (OpPush p ts)
  show ?thesis
  proof (cases "length (sb_queue sb) < sb_cap sb")
    case True
    then have "\<not> int (length (sb_entries sb)) \<le> sb_size sb" by (auto simp: sb_cap_def)
    then have "sb' = sb_insert sb p (case ts of [] \<Rightarrow> 0 | t # _ \<Rightarrow> t)" "out = OutBool True"
      using OpPush st by (auto simp: Push_def Let_def)
    with True OpPush show ?thesis
      using sb_insert_queue [OF inv, of p "case ts of [] \<Rightarrow> 0 | t # _ \<Rightarrow> t"] by (simp add: new_entry_def)
  next
    case False
    then have "int (length (sb_entries sb)) \<le> sb_size sb" using sb_invD(4) [OF inv] by (simp add: sb_cap_def)
    with False OpPush st inv show ?thesis by (auto simp: Push_def)
  qed
next
  case (OpPushBatch ps t)
  have i: "int (length (sb_entries sb)) < sb_size sb + int (length ps) \<longleftrightarrow>
      \<not> length (sb_queue sb) + length ps \<le> sb_cap sb"
    using sb_invD(4) [OF inv] by (auto simp: sb_cap_def)
  show ?thesis
  proof (cases "length (sb_queue sb) + length ps \<le> sb_cap sb")
    case True
    then have "sb' = foldl (\<lambda>sb p. sb_insert sb p t) sb ps" "out = OutBool True"
      using OpPushBatch st i by (auto simp: PushBatch_def)
    with True OpPushBatch show ?thesis using PushBatch_queue [OF inv, of ps t] by (simp add: new_entry_def)
  next
    case False
    then have "sb' = sb" "out = OutBool False" using OpPushBatch st i by (auto simp: PushBatch_def)
    with False OpPushBatch inv show ?thesis by simp
  qed
next
  case (OpACK a)
  then show ?thesis
    using sb_release_until_queue [OF inv _ refl, of a 0] ok st
    by (auto simp: ACK_def Let_def split: prod.splits)
next
  case (OpDropUntil a)
  then show ?thesis
    using sb_release_until_queue [OF inv _ refl, of a 0] ok st
    by (auto simp: DropUntil_def Let_def split: prod.splits)
next
  case (OpNAK l)
  then show ?thesis using NAK_queue [OF inv, of l] ok st inv by auto
next
  case (OpNAKTimed l now rtt rttVar)
  have "now + - (if rtt - 4 * rttVar < 0 then 0 else rtt - 4 * rttVar) = now - max 0 (rtt - 4 * rttVar)" by simp
  with OpNAKTimed show ?thesis
    using NAKTimed_loop_queue [OF inv, of l now "now - max 0 (rtt - 4 * rttVar)"] ok st
    by (auto simp: NAKTimed_def Let_def Timestamp_Add_def split: prod.splits)
next
  case (OpGet s)
  then show ?thesis using Get_queue [OF inv, of s] ok st inv by (auto split: option.splits)
next
  case OpUnacked
  then show ?thesis using GetAllUnacked_queue [OF inv] st inv by auto
next
  case (OpDropTooLate now thresh)
  then show ?thesis
    using drop_too_late_queue [OF inv refl, of now thresh 0 0] st
    by (auto simp: DropTooLateSend_def Let_def split: prod.splits)
next
  case (OpSetMsgTTL ttl)
  show ?thesis
  proof (cases "sb_size sb = 0")
    case True
    then have "sb_queue sb = []" by (simp add: sb_queue_def)
    with True OpSetMsgTTL st inv show ?thesis by (auto simp: SetMsgTTL_def)
  next
    case False
    then have "0 < sb_size sb" "sb_queue sb \<noteq> []" using sb_invD(4) [OF inv] by (simp_all add: sb_queue_def)
    then show ?thesis using SetMsgTTL_queue [OF inv, of ttl] OpSetMsgTTL st by auto
  qed
qed

lemma q_nak_timed_pkts:
  "q_nak_timed s q l now t = (q', ps) \<Longrightarrow> map pkt q' = map pkt q"
proof (induction s q l now t arbitrary: ps q' rule: q_nak_timed.induct)
  case (2 start q s l now timeNAK)
  show ?case
  proof (cases "q_lookup start q s")
    case None
    then show ?thesis using 2 by simp
  next
    case (Some e)
    then have e: "seq_off start s < length q" "e = q ! seq_off start s"
      by (auto simp: q_lookup_def Let_def split: if_splits)
    have m: "map pkt (q[seq_off start s := e\<lparr>rexmitTime := now\<rparr>]) = map pkt q"
      using e by (simp add: map_update list_update_same_conv)
    show ?thesis
    proof (cases "rexmitTime e \<noteq> 0 \<and> timeNAK \<le> rexmitTime e")
      case True
      then show ?thesis using 2 Some by simp
    next
      case False
      obtain q2 ps2 where "q_nak_timed start (q[seq_off start s := e\<lparr>rexmitTime := now\<rparr>]) l now timeNAK = (q2, ps2)"
        by fastforce
      moreover from this have "map pkt q2 = map pkt q"
        using 2(3) [OF Some False] m by simp
      ultimately show ?thesis using "2.prems" Some False by (auto split: if_splits)
    qed
  qed
qed simp

text \<open>
  After any operations the queue holds the packets accepted so far from the \<open>m\<close>-th on, and \<open>m\<close> is how
  far the first sequence number has moved.
\<close>

lemma q_step_history:
  assumes "q_step cap op (s, q) = ((s', q'), out)" and "valid_seq s"
  shows "\<exists>m \<le> length q. s' = seq_nth s m \<and> map pkt q' = drop m (map pkt q @ accepted op out)"
proof (cases op)
  case (OpNAKTimed l now rtt rttVar)
  then show ?thesis using assms q_nak_timed_pkts [of s q l now "now - max 0 (rtt - 4 * rttVar)"]
    by (intro exI [of _ 0]) (auto split: prod.splits)
next
  case (OpACK a)
  then show ?thesis using assms
    by (intro exI [of _ "q_acked s q a"]) (auto simp: Let_def drop_map q_acked_def)
next
  case (OpDropUntil a)
  then show ?thesis using assms
    by (intro exI [of _ "q_acked s q a"]) (auto simp: Let_def drop_map q_acked_def)
next
  case (OpDropTooLate now thresh)
  then show ?thesis using assms
    by (intro exI [of _ "length (takeWhile (entry_expired now thresh) q)"])
      (auto simp: Let_def drop_map length_takeWhile_le)
next
  case (OpSetMsgTTL ttl)
  then show ?thesis using assms
    by (intro exI [of _ 0]; cases q rule: rev_cases) auto
qed (use assms in \<open>intro exI [of _ 0]; auto simp: new_entry_def comp_def split: if_splits option.splits\<close>)+

lemma q_run_history:
  assumes "run_ops (q_step cap) ops (s, q) = ((s', q'), outs)" and "valid_seq s"
  shows "\<exists>m. m \<le> length q + length (history ops outs) \<and> s' = seq_nth s m \<and>
    map pkt q' = drop m (map pkt q @ history ops outs)"
  using assms
proof (induction ops arbitrary: s q outs)
  case (Cons op ops)
  obtain s1 q1 o1 where 1: "q_step cap op (s, q) = ((s1, q1), o1)" by (metis surj_pair)
  obtain s2 q2 outs' where 2: "run_ops (q_step cap) ops (s1, q1) = ((s2, q2), outs')" by (metis surj_pair)
  have e: "s2 = s'" "q2 = q'" "outs = o1 # outs'" using Cons.prems(1) 1 2 by auto
  have h: "history (op # ops) outs = accepted op o1 @ history ops outs'" by (simp add: history_def e)
  obtain m1 where m1: "m1 \<le> length q" "s1 = seq_nth s m1" "map pkt q1 = drop m1 (map pkt q @ accepted op o1)"
    using q_step_history [OF 1 Cons.prems(2)] by blast
  obtain m2 where m2: "m2 \<le> length q1 + length (history ops outs')" "s2 = seq_nth s1 m2"
      "map pkt q2 = drop m2 (map pkt q1 @ history ops outs')"
    using Cons.IH [OF 2 [unfolded e(1,2)]] m1(2) e by auto
  have "length q1 = length q + length (accepted op o1) - m1" using m1(3) by (metis length_drop length_map length_append)
  then have "m1 + m2 \<le> length q + length (history (op # ops) outs)" using m1(1) m2(1) by (simp add: h)
  moreover have "s' = seq_nth s (m1 + m2)" using m1(2) m2(2) e by simp
  moreover have "map pkt q1 @ history ops outs' = drop m1 (map pkt q @ history (op # ops) outs)"
    using m1(1,3) unfolding h by simp
  then have "map pkt q' = drop (m1 + m2) (map pkt q @ history (op # ops) outs)"
    using m2(3) unfolding e(2) by (simp only: drop_drop add.commute)
  ultimately show ?case by blast
next
  case Nil
  then show ?case by (intro exI [of _ 0]) (simp add: history_def)
qed

section \<open>The interface to the connection\<close>

text \<open>
  What a connection relies on in its send buffer: every operation acts on the window of unacknowledged
  entries as the queue specification says. The facts about whole runs are proved from that alone.
\<close>

locale send_store =
  fixes inv :: "'b \<Rightarrow> bool"
    and cap :: "'b \<Rightarrow> nat"
    and base :: "'b \<Rightarrow> Number"
    and contents :: "'b \<Rightarrow> sendEntry list"
    and step :: "sb_op \<Rightarrow> 'b \<Rightarrow> 'b \<times> sb_out"
  assumes base_valid: "inv b \<Longrightarrow> valid_seq (base b)"
    and room: "inv b \<Longrightarrow> length (contents b) \<le> cap b \<and> cap b < H31"
    and step_refines: "inv b \<Longrightarrow> op_valid op \<Longrightarrow> step op b = (b', out) \<Longrightarrow>
      inv b' \<and> cap b' = cap b \<and> q_step (cap b) op (base b, contents b) = ((base b', contents b'), out)"
begin

lemma run_refines:
  assumes "inv b" and "list_all op_valid ops" and "run_ops step ops b = (b', outs)"
  shows "inv b' \<and> cap b' = cap b \<and>
    run_ops (q_step (cap b)) ops (base b, contents b) = ((base b', contents b'), outs)"
  using assms
proof (induction ops arbitrary: b outs)
  case (Cons op ops)
  obtain b1 o1 where 1: "step op b = (b1, o1)" by fastforce
  obtain b2 outs2 where 2: "run_ops step ops b1 = (b2, outs2)" by fastforce
  have r: "inv b1" "cap b1 = cap b" "q_step (cap b) op (base b, contents b) = ((base b1, contents b1), o1)"
    using step_refines [OF Cons.prems(1) _ 1] Cons.prems(2) by simp_all
  have e: "b2 = b'" "outs = o1 # outs2" using Cons.prems(3) 1 2 by simp_all
  show ?case using Cons.IH [OF r(1) _ 2 [unfolded e(1)]] Cons.prems(2) r e by simp
qed simp

lemma run_history:
  assumes "inv b" and "contents b = []" and "list_all op_valid ops" and "run_ops step ops b = (b', outs)"
  obtains m where "m \<le> length (history ops outs)" and "base b' = seq_nth (base b) m"
    and "map pkt (contents b') = drop m (history ops outs)" and "inv b'"
  using run_refines [OF assms(1,3,4)] q_run_history [of "cap b" ops "base b" "[]"] base_valid [OF assms(1)] assms(2)
  by auto

text \<open>A packet that was accepted and not yet released is found under its sequence number.\<close>

lemma retransmit_accepted:
  assumes "inv b" and "contents b = []" and "list_all op_valid ops" and "run_ops step ops b = (b', outs)"
  shows "\<exists>m. base b' = seq_nth (base b) m \<and> length (contents b') = length (history ops outs) - m \<and>
    step OpUnacked b' = (fst (step OpUnacked b'), OutPackets (map rexmit_clone (drop m (history ops outs)))) \<and>
    (\<forall>k. m \<le> k \<and> k < length (history ops outs) \<longrightarrow>
      snd (step (OpNAK [seq_nth (base b) k]) b') = OutPackets [rexmit_clone (history ops outs ! k)])"
proof -
  obtain m where m: "base b' = seq_nth (base b) m" "map pkt (contents b') = drop m (history ops outs)" "inv b'"
    using run_history [OF assms] by blast
  have l: "length (contents b') = length (history ops outs) - m"
    using arg_cong [OF m(2), of length] by simp
  have "snd (step OpUnacked b') = OutPackets (map rexmit_clone (map pkt (contents b')))"
    using step_refines [OF m(3), of OpUnacked] by (cases "step OpUnacked b'") (auto simp: comp_def)
  moreover have "snd (step (OpNAK [seq_nth (base b) k]) b') = OutPackets [rexmit_clone (history ops outs ! k)]"
    if k: "m \<le> k" "k < length (history ops outs)" for k
  proof -
    have "seq_nth (base b) k = seq_nth (base b') (k - m)" using m(1) k by simp
    moreover have "k - m < length (contents b')" using l k by simp
    moreover have "length (contents b') < H31" using room [OF m(3)] by simp
    ultimately have "q_lookup (base b') (contents b') (seq_nth (base b) k) = Some (contents b' ! (k - m))"
      using base_valid [OF m(3)] by (simp add: q_lookup_def)
    moreover have "pkt (contents b' ! (k - m)) = history ops outs ! k"
      using arg_cong [OF m(2), of "\<lambda>l. l ! (k - m)"] l k by simp
    ultimately show ?thesis
      using step_refines [OF m(3), of "OpNAK [seq_nth (base b) k]"]
      by (cases "step (OpNAK [seq_nth (base b) k]) b'") (auto simp: map_filter_simps)
  qed
  ultimately show ?thesis using m(1,2) l by (intro exI [of _ m] conjI allI impI) (simp_all add: prod_eq_iff)
qed

end

interpretation sendbuf: send_store sb_inv sb_cap sb_startSeq sb_queue sb_step
proof unfold_locales
  show "length (sb_queue b) \<le> sb_cap b \<and> sb_cap b < H31" if "sb_inv b" for b
    using sb_invD(5) [OF that] ring_cap_lt [OF sb_invD(1) [OF that]] by simp
  show "valid_seq (sb_startSeq b)" if "sb_inv b" for b using sb_invD(3) [OF that] .
qed (rule sb_step_refines)

section \<open>Corner cases\<close>

text \<open>
  \<^verbatim>\<open>Push\<close> tests the number of used slots, not the slot it writes. \<^verbatim>\<open>DropExpiredTTL\<close> can leave a hole
  behind a packet that is still unacknowledged, and \<^verbatim>\<open>OverrideNextSeq\<close> can move the write position over
  one; the next \<^verbatim>\<open>Push\<close> then replaces that packet, and a NAK for its sequence number gets another packet.
\<close>

lemma DropExpiredTTL_hole:
  "let push = (\<lambda>sb d. fst (Push sb (NewData None 0 0 0 [d]) [1]));
       sb = SetMsgTTL (push (push (NewSendBuffer 2 0) 10) 11) 1000;
       sb1 = fst (DropExpiredTTL sb 100);
       (sb2, ok) = Push sb1 (NewData None 2 0 0 [12]) [100]
   in Data (fst (Get sb1 0)) = [10] \<and> ok \<and> Data (fst (Get sb2 0)) = [12]"
  by code_simp

lemma OverrideNextSeq_overwrites:
  "let sb = fst (Push (NewSendBuffer 2 0) (NewData None 0 0 0 [10]) [1]);
       sb1 = fst (OverrideNextSeq sb 2);
       (sb2, ok) = Push sb1 (NewData None 2 0 0 [12]) [2]
   in Data (fst (Get sb1 0)) = [10] \<and> ok \<and> Data (fst (Get sb2 0)) = [12]"
  by code_simp

section \<open>Properties\<close>

text \<open>
  C12. The ring buffer is a queue: any sequence of operations on a new buffer gives the same results as
  on the queue of unacknowledged entries (pushes append while there is room, an acknowledgement removes
  the entries before it, a NAK returns flagged copies of the entries it names, expired entries leave from
  the head), and the buffer's first sequence number and entries are those of the queue.
\<close>

theorem SendBuffer_refines_queue:
  assumes "capacity \<le> 2 ^ 29" and "initialSeq \<le> Max" and "list_all op_valid ops"
    and "run_ops sb_step ops (NewSendBuffer capacity initialSeq) = (sb, outs)"
  shows "run_ops (q_step (nat (nextPow2 capacity))) ops (initialSeq, []) =
     ((sb_startSeq sb, sb_queue sb), outs)"
proof -
  have v: "valid_seq initialSeq" using assms(2) by (simp add: valid_seq_le_Max)
  note N = NewSendBuffer_queue [OF assms(1) v]
  show ?thesis using sendbuf.run_refines [OF N(1) assms(3,4)] by (simp add: N)
qed

theorem SendBuffer_refines_queue_witness:
  "let ops = [OpPush zero_Packet [5], OpPush zero_Packet [7], OpACK 0x7FFFFFFF, OpACK 0];
       r = run_ops sb_step ops (NewSendBuffer 2 0x7FFFFFFF)
   in run_ops (q_step (nat (nextPow2 2))) ops (0x7FFFFFFF, []) =
        ((sb_startSeq (fst r), sb_queue (fst r)), snd r)"
  unfolding Let_def
  by (rule SendBuffer_refines_queue)
    (simp_all add: Max_def valid_seq_def del: run_ops.simps)

text \<open>
  C13. Nothing accepted is lost before it is released: after any operations on a new buffer there is an
  \<open>m\<close>, the number of packets released so far, such that the buffer holds exactly the accepted
  packets from the \<open>m\<close>-th on; a NAK for the sequence number of the \<open>k\<close>-th accepted packet returns that
  packet, flagged as retransmitted, and the blind retransmission returns all of them in order.
\<close>

theorem SendBuffer_retransmits_accepted:
  assumes "capacity \<le> 2 ^ 29" and "initialSeq \<le> Max" and "list_all op_valid ops"
    and "run_ops sb_step ops (NewSendBuffer capacity initialSeq) = (sb, outs)"
  shows "\<exists>m. sb_startSeq sb = seq_nth initialSeq m \<and> nat (sb_size sb) = length (history ops outs) - m \<and>
     GetAllUnacked sb = map rexmit_clone (drop m (history ops outs)) \<and>
     (\<forall>k. m \<le> k \<and> k < length (history ops outs) \<longrightarrow>
       NAK sb [seq_nth initialSeq k] = [rexmit_clone (history ops outs ! k)])"
proof -
  have v: "valid_seq initialSeq" using assms(2) by (simp add: valid_seq_le_Max)
  note N = NewSendBuffer_queue [OF assms(1) v]
  show ?thesis using sendbuf.retransmit_accepted [OF N(1,2) assms(3,4)] by (simp add: N(3))
qed

theorem SendBuffer_retransmits_accepted_witness:
  "let ops = [OpPush (NewData None 0x7FFFFFFF 0 0 [1]) [5], OpPush (NewData None 0 0 0 [2]) [7], OpACK 0];
       r = run_ops sb_step ops (NewSendBuffer 2 0x7FFFFFFF)
   in \<exists>m. sb_startSeq (fst r) = seq_nth 0x7FFFFFFF m \<and>
     nat (sb_size (fst r)) = length (history ops (snd r)) - m \<and>
     GetAllUnacked (fst r) = map rexmit_clone (drop m (history ops (snd r))) \<and>
     (\<forall>k. m \<le> k \<and> k < length (history ops (snd r)) \<longrightarrow>
       NAK (fst r) [seq_nth 0x7FFFFFFF k] = [rexmit_clone (history ops (snd r) ! k)])"
  unfolding Let_def
  by (rule SendBuffer_retransmits_accepted)
    (simp_all add: Max_def valid_seq_def del: run_ops.simps)

end
