(* ===== verification/Recv_Buffer.thy ===== *)
theory Recv_Buffer
  imports Packet_Wire Clock Ring
begin

text \<open>
  The receive buffer of \<^verbatim>\<open>internal/buffer/recv.go\<close>. Every method holds the mutex, so it is one step from the
  buffer to the new buffer and its results. The callbacks \<^verbatim>\<open>onRead\<close> and \<^verbatim>\<open>onDrop\<close> are flags saying
  whether they are set; an operation that calls them returns the timestamps it passes, in order. The
  slice that \<^verbatim>\<open>GenerateLossList\<close> reuses between calls is plain memory and not part of the state.

  The scans of the out-of-order support walk the ring index by index; they stop at the latest after one
  turn, so their fuel is the number of slots.
\<close>

section \<open>State\<close>

datatype EntryState = EntryEmpty | EntryAvailable | EntryRead | EntryDrop

record recvEntry =
  re_pkt :: Packet
  re_state :: EntryState
  re_arrivalTS :: Timestamp

definition zero_recvEntry :: recvEntry where
  "zero_recvEntry = \<lparr>re_pkt = zero_Packet, re_state = EntryEmpty, re_arrivalTS = 0\<rparr>"

record RecvBuffer =
  rb_entries :: "recvEntry list"
  rb_mask :: nat
  rb_startSeq :: Number
  rb_maxSeq :: Number
  rb_size :: int
  rb_numOutOfOrderPkts :: int
  rb_firstReadableOOO :: int
  rb_messageAPI :: bool
  rb_onRead :: bool
  rb_onDrop :: bool

definition NewRecvBuffer :: "int \<Rightarrow> Number \<Rightarrow> RecvBuffer" where
  "NewRecvBuffer capacity initialSeq =
     (let cap2 = nextPow2 capacity in
      \<lparr>rb_entries = replicate (nat cap2) zero_recvEntry, rb_mask = nat (cap2 - 1),
       rb_startSeq = initialSeq, rb_maxSeq = initialSeq, rb_size = 0, rb_numOutOfOrderPkts = 0,
       rb_firstReadableOOO = -1, rb_messageAPI = False, rb_onRead = False, rb_onDrop = False\<rparr>)"

definition SetMessageAPI :: "RecvBuffer \<Rightarrow> bool \<Rightarrow> RecvBuffer" where
  "SetMessageAPI rb enabled = rb\<lparr>rb_messageAPI := enabled\<rparr>"

definition SetOnRead :: "RecvBuffer \<Rightarrow> bool \<Rightarrow> RecvBuffer" where
  "SetOnRead rb fn = rb\<lparr>rb_onRead := fn\<rparr>"

definition SetOnDrop :: "RecvBuffer \<Rightarrow> bool \<Rightarrow> RecvBuffer" where
  "SetOnDrop rb fn = rb\<lparr>rb_onDrop := fn\<rparr>"

text \<open>\<^verbatim>\<open>int(uint32(s)) & rb.mask\<close>, the slot of a sequence number, its entry and its state.\<close>

definition rb_idx :: "RecvBuffer \<Rightarrow> Number \<Rightarrow> nat" where
  "rb_idx rb s = unat s AND rb_mask rb"

definition rb_entry :: "RecvBuffer \<Rightarrow> Number \<Rightarrow> recvEntry" where
  "rb_entry rb s = rb_entries rb ! rb_idx rb s"

definition rb_set :: "RecvBuffer \<Rightarrow> nat \<Rightarrow> recvEntry \<Rightarrow> RecvBuffer" where
  "rb_set rb idx e = rb\<lparr>rb_entries := (rb_entries rb)[idx := e]\<rparr>"

text \<open>A position at or after which a message ends.\<close>

definition is_last_pos :: "PacketPosition \<Rightarrow> bool" where
  "is_last_pos pp = (pp = PositionLast \<or> pp = PositionSingle)"

section \<open>Release of fillers\<close>

function releaseFillerEntries :: "RecvBuffer \<Rightarrow> RecvBuffer" where
  "releaseFillerEntries rb =
     (if LessThan (rb_startSeq rb) (rb_maxSeq rb) then
        let idx = rb_idx rb (rb_startSeq rb); st = re_state (rb_entries rb ! idx) in
        if st \<noteq> EntryDrop \<and> st \<noteq> EntryRead then rb
        else releaseFillerEntries ((rb_set rb idx zero_recvEntry)\<lparr>rb_startSeq := Inc (rb_startSeq rb)\<rparr>)
      else rb)"
  by pat_completeness auto
termination
  by (relation "measure (\<lambda>rb. seq_lag (rb_startSeq rb) (rb_maxSeq rb))")
    (auto simp: seq_lag_less rb_set_def)

declare releaseFillerEntries.simps [simp del]

definition canReadInOrder :: "RecvBuffer \<Rightarrow> bool" where
  "canReadInOrder rb = (re_state (rb_entry rb (rb_startSeq rb)) = EntryAvailable)"

section \<open>Out-of-order messages\<close>

fun scan_right :: "nat \<Rightarrow> RecvBuffer \<Rightarrow> nat \<Rightarrow> nat \<Rightarrow> u32 \<Rightarrow> int" where
  "scan_right 0 rb pos lastPos msgNo = -1"
| "scan_right (Suc fuel) rb pos lastPos msgNo =
     (let pos = (pos + 1) AND rb_mask rb; entry = rb_entries rb ! pos in
      if re_state entry \<noteq> EntryAvailable then -1
      else if MessageNumber (Header (re_pkt entry)) \<noteq> msgNo then -1
      else if is_last_pos (PacketPosition (Header (re_pkt entry))) then int pos
      else if pos = lastPos then -1
      else scan_right fuel rb pos lastPos msgNo)"

definition scanNotInOrderMessageRight :: "RecvBuffer \<Rightarrow> nat \<Rightarrow> u32 \<Rightarrow> int" where
  "scanNotInOrderMessageRight rb startPos msgNo =
     (let maxOff = Distance (rb_startSeq rb) (Dec (rb_maxSeq rb)) in
      if maxOff \<le> 0 then -1
      else let lastPos = nat ((int (unat (rb_startSeq rb)) + maxOff) AND int (rb_mask rb)) in
        if startPos = lastPos then -1
        else scan_right (length (rb_entries rb)) rb startPos lastPos msgNo)"

fun scan_left :: "nat \<Rightarrow> RecvBuffer \<Rightarrow> nat \<Rightarrow> nat \<Rightarrow> u32 \<Rightarrow> int" where
  "scan_left 0 rb pos startIdx msgNo = -1"
| "scan_left (Suc fuel) rb pos startIdx msgNo =
     (let pos = nat ((int pos - 1 + int (length (rb_entries rb))) AND int (rb_mask rb));
          entry = rb_entries rb ! pos in
      if re_state entry \<noteq> EntryAvailable then -1
      else if MessageNumber (Header (re_pkt entry)) \<noteq> msgNo then -1
      else if PacketPosition (Header (re_pkt entry)) = PositionFirst
              \<or> PacketPosition (Header (re_pkt entry)) = PositionSingle then int pos
      else if pos = startIdx then -1
      else scan_left fuel rb pos startIdx msgNo)"

definition scanNotInOrderMessageLeft :: "RecvBuffer \<Rightarrow> nat \<Rightarrow> u32 \<Rightarrow> int" where
  "scanNotInOrderMessageLeft rb startPos msgNo =
     (let startIdx = rb_idx rb (rb_startSeq rb) in
      if startPos = startIdx then -1
      else scan_left (length (rb_entries rb)) rb startPos startIdx msgNo)"

definition onInsertNotInOrderPacket :: "RecvBuffer \<Rightarrow> nat \<Rightarrow> RecvBuffer" where
  "onInsertNotInOrderPacket rb insertPos =
     (if rb_numOutOfOrderPkts rb = 0 then rb
      else if rb_firstReadableOOO rb \<ge> 0 then rb
      else
        let entry = rb_entries rb ! insertPos;
            pp = PacketPosition (Header (re_pkt entry));
            msgNo = MessageNumber (Header (re_pkt entry))
        in if pp = PositionSingle then rb\<lparr>rb_firstReadableOOO := int insertPos\<rparr>
        else
          let hasLast = (pp = PositionLast \<or> scanNotInOrderMessageRight rb insertPos msgNo \<ge> 0) in
          if \<not> hasLast then rb
          else
            let firstPktPos = (if pp \<noteq> PositionFirst then scanNotInOrderMessageLeft rb insertPos msgNo
                               else int insertPos)
            in if firstPktPos < 0 then rb else rb\<lparr>rb_firstReadableOOO := firstPktPos\<rparr>)"

fun check_ooo :: "nat \<Rightarrow> RecvBuffer \<Rightarrow> nat \<Rightarrow> nat \<Rightarrow> int \<Rightarrow> bool" where
  "check_ooo 0 rb pos endPos msgNo = False"
| "check_ooo (Suc fuel) rb pos endPos msgNo =
     (if pos = endPos then False
      else
        let entry = rb_entries rb ! pos; mn = int (unat (MessageNumber (Header (re_pkt entry)))) in
        if re_state entry \<noteq> EntryAvailable then False
        else if Order (Header (re_pkt entry)) then False
        else if msgNo \<noteq> -1 \<and> mn \<noteq> msgNo then False
        else if is_last_pos (PacketPosition (Header (re_pkt entry))) then True
        else check_ooo fuel rb ((pos + 1) AND rb_mask rb) endPos mn)"

definition checkFirstReadableOutOfOrder :: "RecvBuffer \<Rightarrow> bool" where
  "checkFirstReadableOutOfOrder rb =
     (if rb_numOutOfOrderPkts rb \<le> 0 \<or> rb_firstReadableOOO rb < 0 then False
      else if rb_startSeq rb = rb_maxSeq rb then False
      else
        let maxOff = Distance (rb_startSeq rb) (rb_maxSeq rb);
            endPos = nat ((int (unat (rb_startSeq rb)) + maxOff) AND int (rb_mask rb))
        in check_ooo (length (rb_entries rb)) rb (nat (rb_firstReadableOOO rb)) endPos (-1))"

text \<open>The loop of \<^verbatim>\<open>updateFirstReadableOutOfOrder\<close> returns the position it finds, -1 for none.\<close>

fun update_ooo :: "nat \<Rightarrow> RecvBuffer \<Rightarrow> nat \<Rightarrow> nat \<Rightarrow> int \<Rightarrow> int \<Rightarrow> int \<Rightarrow> int" where
  "update_ooo 0 rb pos lastPos oooRemain posFirst msgNo = -1"
| "update_ooo (Suc fuel) rb pos lastPos oooRemain posFirst msgNo =
     (if \<not> oooRemain > 0 then -1
      else
        let entry = rb_entries rb ! pos; h = Header (re_pkt entry);
            next_pos = (pos + 1) AND rb_mask rb
        in if re_state entry \<noteq> EntryAvailable \<or> Order h then
             (if pos = lastPos then -1 else update_ooo fuel rb next_pos lastPos oooRemain (-1) (-1))
           else
             let oooRemain = oooRemain - 1;
                 mn = int (unat (MessageNumber h));
                 pp = PacketPosition h;
                 (posFirst, msgNo) = (if pp = PositionFirst \<or> pp = PositionSingle then (int pos, mn)
                                      else (posFirst, msgNo))
             in if mn \<noteq> msgNo then
                  (if pos = lastPos then -1 else update_ooo fuel rb next_pos lastPos oooRemain (-1) (-1))
                else if is_last_pos pp \<and> posFirst \<ge> 0 then posFirst
                else if pos = lastPos then -1
                else update_ooo fuel rb next_pos lastPos oooRemain posFirst msgNo)"

definition updateFirstReadableOutOfOrder :: "RecvBuffer \<Rightarrow> RecvBuffer" where
  "updateFirstReadableOutOfOrder rb =
     (if canReadInOrder rb \<or> rb_numOutOfOrderPkts rb \<le> 0 \<or> rb_firstReadableOOO rb \<ge> 0 then rb
      else if rb_startSeq rb = rb_maxSeq rb then rb
      else
        let maxOff = Distance (rb_startSeq rb) (rb_maxSeq rb) in
        if maxOff \<le> 0 then rb
        else
          let lastPos = nat ((int (unat (rb_startSeq rb)) + maxOff - 1) AND int (rb_mask rb));
              found = update_ooo (length (rb_entries rb)) rb (rb_idx rb (rb_startSeq rb)) lastPos
                        (rb_numOutOfOrderPkts rb) (-1) (-1)
          in if found \<ge> 0 then rb\<lparr>rb_firstReadableOOO := found\<rparr> else rb)"

section \<open>Insertion\<close>

record InsertResult =
  Inserted :: bool
  GapStart :: u32
  GapEnd :: u32

definition zero_InsertResult :: InsertResult where
  "zero_InsertResult = \<lparr>Inserted = False, GapStart = 0, GapEnd = 0\<rparr>"

definition HasGap :: "InsertResult \<Rightarrow> bool" where
  "HasGap r = (Inserted r \<and> (GapStart r \<noteq> 0 \<or> GapEnd r \<noteq> 0))"

definition Insert :: "RecvBuffer \<Rightarrow> Packet \<Rightarrow> Timestamp \<Rightarrow> RecvBuffer \<times> InsertResult" where
  "Insert rb p arrivalTS =
     (let s = SequenceNumber (Header p) in
      if LessThan s (rb_startSeq rb) then (rb, zero_InsertResult)
      else
        let dist = Distance (rb_startSeq rb) s in
        if dist < 0 \<or> dist \<ge> int (length (rb_entries rb)) - 1 then (rb, zero_InsertResult)
        else
          let idx = rb_idx rb s in
          if re_state (rb_entries rb ! idx) \<noteq> EntryEmpty then (rb, zero_InsertResult)
          else
            let result = zero_InsertResult\<lparr>Inserted := True\<rparr>;
                result = (if rb_maxSeq rb \<noteq> rb_startSeq rb \<and> LessThan (rb_maxSeq rb) s
                          then result\<lparr>GapStart := Value (rb_maxSeq rb), GapEnd := Value (Dec s)\<rparr>
                          else result);
                rb1 = (rb_set rb idx \<lparr>re_pkt = p, re_state = EntryAvailable, re_arrivalTS = arrivalTS\<rparr>)
                        \<lparr>rb_size := rb_size rb + 1\<rparr>;
                next = Inc s;
                rb2 = (if LessThan (rb_maxSeq rb) next \<or> rb_maxSeq rb = rb_startSeq rb
                       then rb1\<lparr>rb_maxSeq := next\<rparr> else rb1);
                rb3 = (if rb_messageAPI rb \<and> \<not> Order (Header p)
                       then onInsertNotInOrderPacket
                              (rb2\<lparr>rb_numOutOfOrderPkts := rb_numOutOfOrderPkts rb2 + 1\<rparr>) idx
                       else rb2)
            in (rb3, result))"

section \<open>Reading\<close>

text \<open>Clearing the head slot and advancing past it.\<close>

definition rb_advance :: "RecvBuffer \<Rightarrow> RecvBuffer" where
  "rb_advance rb =
     (rb_set rb (rb_idx rb (rb_startSeq rb)) zero_recvEntry)
       \<lparr>rb_startSeq := Inc (rb_startSeq rb), rb_size := rb_size rb - 1\<rparr>"

definition ReadNext :: "RecvBuffer \<Rightarrow> RecvBuffer \<times> Packet \<times> bool" where
  "ReadNext rb =
     (let e = rb_entry rb (rb_startSeq rb) in
      if re_state e \<noteq> EntryAvailable then (rb, zero_Packet, False)
      else (rb_advance rb, re_pkt e, True))"

text \<open>The counter of out-of-order packets, decreased for a packet that leaves the buffer.\<close>

definition count_ooo_out :: "RecvBuffer \<Rightarrow> Packet \<Rightarrow> RecvBuffer" where
  "count_ooo_out rb p =
     (if rb_numOutOfOrderPkts rb > 0 \<and> \<not> Order (Header p)
      then rb\<lparr>rb_numOutOfOrderPkts := rb_numOutOfOrderPkts rb - 1\<rparr> else rb)"

definition after_in_order_read :: "RecvBuffer \<Rightarrow> RecvBuffer" where
  "after_in_order_read rb =
     (let rb = releaseFillerEntries rb in
      if rb_messageAPI rb then updateFirstReadableOutOfOrder rb else rb)"

text \<open>A corrupted head packet is released and skipped.\<close>

definition skip_head :: "RecvBuffer \<Rightarrow> RecvBuffer" where
  "skip_head rb =
     after_in_order_read (rb_advance (count_ooo_out rb (re_pkt (rb_entry rb (rb_startSeq rb)))))"

datatype scan_result = ScanGap | ScanMismatch | ScanComplete int

function scan_message :: "RecvBuffer \<Rightarrow> Number \<Rightarrow> u32 \<Rightarrow> int \<Rightarrow> scan_result" where
  "scan_message rb s msgNo count =
     (let e = rb_entry rb s in
      if re_state e \<noteq> EntryAvailable then ScanGap
      else if MessageNumber (Header (re_pkt e)) \<noteq> msgNo then ScanMismatch
      else
        let count = count + 1 in
        if is_last_pos (PacketPosition (Header (re_pkt e))) then ScanComplete count
        else if count > int (length (rb_entries rb)) then ScanGap
        else scan_message rb (Inc s) msgNo count)"
  by pat_completeness auto
termination
  by (relation "measure (\<lambda>(rb, s, msgNo, count). nat (int (length (rb_entries rb)) + 1 - count))") auto

declare scan_message.simps [simp del]

fun consume :: "nat \<Rightarrow> RecvBuffer \<Rightarrow> RecvBuffer \<times> Packet list" where
  "consume 0 rb = (rb, [])"
| "consume (Suc n) rb =
     (let p = re_pkt (rb_entry rb (rb_startSeq rb)) in
      case consume n (rb_advance (count_ooo_out rb p)) of (rb', ps) \<Rightarrow> (rb', p # ps))"

definition readMessageInOrder :: "RecvBuffer \<Rightarrow> RecvBuffer \<times> Packet list \<times> bool" where
  "readMessageInOrder rb =
     (let e = rb_entry rb (rb_startSeq rb);
          pp = PacketPosition (Header (re_pkt e)) in
      if pp = PositionSingle
      then (after_in_order_read (rb_advance (count_ooo_out rb (re_pkt e))), [re_pkt e], True)
      else if pp \<noteq> PositionFirst then (skip_head rb, [], False)
      else case scan_message rb (rb_startSeq rb) (MessageNumber (Header (re_pkt e))) 0 of
             ScanGap \<Rightarrow> (rb, [], False)
           | ScanMismatch \<Rightarrow> (skip_head rb, [], False)
           | ScanComplete count \<Rightarrow>
               (case consume (nat count) rb of
                  (rb', pkts) \<Rightarrow> (after_in_order_read rb', pkts, True)))"

text \<open>
  The loop of \<^verbatim>\<open>readMessageOutOfOrder\<close> collects the packets of the message and marks them read; it gives
  up (\<open>None\<close>) on an entry that is not available or after more packets than slots.
\<close>

fun read_ooo :: "nat \<Rightarrow> RecvBuffer \<Rightarrow> nat \<Rightarrow> Packet list \<Rightarrow> RecvBuffer \<times> Packet list option" where
  "read_ooo 0 rb i pkts = (rb, None)"
| "read_ooo (Suc fuel) rb i pkts =
     (let entry = rb_entries rb ! i in
      if re_state entry \<noteq> EntryAvailable then (rb, None)
      else
        let p = re_pkt entry;
            pkts = pkts @ [p];
            rb = count_ooo_out rb p;
            rb = (rb_set rb i (entry\<lparr>re_state := EntryRead, re_pkt := zero_Packet\<rparr>))
                   \<lparr>rb_size := rb_size rb - 1\<rparr>
        in if is_last_pos (PacketPosition (Header p)) then (rb, Some pkts)
           else if length pkts > length (rb_entries rb) then (rb, None)
           else read_ooo fuel rb ((i + 1) AND rb_mask rb) pkts)"

definition readMessageOutOfOrder :: "RecvBuffer \<Rightarrow> RecvBuffer \<times> Packet list \<times> bool" where
  "readMessageOutOfOrder rb =
     (if rb_firstReadableOOO rb < 0 then (rb, [], False)
      else case read_ooo (Suc (length (rb_entries rb))) rb (nat (rb_firstReadableOOO rb)) [] of
             (rb', None) \<Rightarrow> (rb'\<lparr>rb_firstReadableOOO := -1\<rparr>, [], False)
           | (rb', Some pkts) \<Rightarrow>
               (updateFirstReadableOutOfOrder (releaseFillerEntries (rb'\<lparr>rb_firstReadableOOO := -1\<rparr>)),
                pkts, True))"

definition ReadMessage :: "RecvBuffer \<Rightarrow> RecvBuffer \<times> Packet list \<times> bool" where
  "ReadMessage rb =
     (if \<not> canReadInOrder rb \<and> rb_firstReadableOOO rb < 0 then (rb, [], False)
      else if canReadInOrder rb then readMessageInOrder rb
      else readMessageOutOfOrder rb)"

definition HasAvailablePackets :: "RecvBuffer \<Rightarrow> bool" where
  "HasAvailablePackets rb =
     (if canReadInOrder rb then True
      else rb_numOutOfOrderPkts rb > 0 \<and> rb_firstReadableOOO rb \<ge> 0)"

text \<open>The timed reads return the timestamps passed to \<^verbatim>\<open>onRead\<close> as well.\<close>

definition ReadTSBPD ::
    "RecvBuffer \<Rightarrow> Timestamp \<Rightarrow> (u32 \<Rightarrow> Timestamp) \<Rightarrow> RecvBuffer \<times> Packet \<times> bool \<times> u32 list" where
  "ReadTSBPD rb now deliveryTime =
     (let entry = rb_entry rb (rb_startSeq rb) in
      if re_state entry \<noteq> EntryAvailable then (rb, zero_Packet, False, [])
      else
        let dt = deliveryTime (Timestamp (Header (re_pkt entry))) in
        if Before now dt then (rb, zero_Packet, False, [])
        else (rb_advance rb, re_pkt entry, True,
              if rb_onRead rb then [Timestamp (Header (re_pkt entry))] else []))"

definition ReadMessageTSBPD ::
    "RecvBuffer \<Rightarrow> Timestamp \<Rightarrow> (u32 \<Rightarrow> Timestamp) \<Rightarrow> RecvBuffer \<times> Packet list \<times> bool \<times> u32 list" where
  "ReadMessageTSBPD rb now deliveryTime =
     (let entry = rb_entry rb (rb_startSeq rb) in
      if re_state entry \<noteq> EntryAvailable then (rb, [], False, [])
      else
        let dt = deliveryTime (Timestamp (Header (re_pkt entry))) in
        if Before now dt then (rb, [], False, [])
        else (rb_advance rb, [re_pkt entry], True,
              if rb_onRead rb then [Timestamp (Header (re_pkt entry))] else []))"

section \<open>Dropping\<close>

definition drop_head :: "RecvBuffer \<Rightarrow> RecvBuffer \<times> int \<times> u32 list" where
  "drop_head rb =
     (let idx = rb_idx rb (rb_startSeq rb); e = rb_entries rb ! idx; h = Header (re_pkt e);
          (rb1, n, ts) =
            (case re_state e of
               EntryAvailable \<Rightarrow>
                 let rb1 = (if rb_messageAPI rb \<and> \<not> Order h
                            then rb\<lparr>rb_numOutOfOrderPkts := rb_numOutOfOrderPkts rb - 1,
                                    rb_firstReadableOOO := (if int idx = rb_firstReadableOOO rb then -1
                                                            else rb_firstReadableOOO rb)\<rparr>
                            else rb)
                 in (rb1\<lparr>rb_size := rb_size rb - 1\<rparr>, 1, if rb_onDrop rb then [Timestamp h] else [])
             | EntryEmpty \<Rightarrow> (rb, 1, [])
             | EntryRead \<Rightarrow> (rb, 0, [])
             | EntryDrop \<Rightarrow> (rb, 0, []))
      in ((rb_set rb1 idx (zero_recvEntry\<lparr>re_state := EntryDrop\<rparr>))
            \<lparr>rb_startSeq := Inc (rb_startSeq rb)\<rparr>, n, ts))"

lemma drop_head_startSeq [simp]: "rb_startSeq (fst (drop_head rb)) = Inc (rb_startSeq rb)"
  by (simp add: drop_head_def Let_def split: EntryState.splits)

function drop_loop :: "RecvBuffer \<Rightarrow> Number \<Rightarrow> int \<Rightarrow> u32 list \<Rightarrow> RecvBuffer \<times> int \<times> u32 list" where
  "drop_loop rb upTo count ts =
     (if LessThan (rb_startSeq rb) upTo
      then drop_loop (fst (drop_head rb)) upTo (count + fst (snd (drop_head rb)))
             (ts @ snd (snd (drop_head rb)))
      else (rb, count, ts))"
  by pat_completeness auto
termination
  by (relation "measure (\<lambda>(rb, upTo, count, ts). seq_lag (rb_startSeq rb) upTo)")
    (auto simp: seq_lag_less)

declare drop_loop.simps [simp del]

text \<open>The result holds the count and the timestamps passed to \<^verbatim>\<open>onDrop\<close>.\<close>

definition Drop :: "RecvBuffer \<Rightarrow> Number \<Rightarrow> RecvBuffer \<times> int \<times> u32 list" where
  "Drop rb upTo =
     (case drop_loop rb upTo 0 [] of
        (rb, count, ts) \<Rightarrow>
          let rb = releaseFillerEntries rb;
              rb = (if rb_messageAPI rb
                    then updateFirstReadableOutOfOrder
                           (if \<not> checkFirstReadableOutOfOrder rb then rb\<lparr>rb_firstReadableOOO := -1\<rparr> else rb)
                    else rb)
          in (rb, count, ts))"

text \<open>The delivery time of the nearest available packet from \<open>s\<close> on, 0 when there is none.\<close>

function ref_delivery :: "RecvBuffer \<Rightarrow> (u32 \<Rightarrow> Timestamp) \<Rightarrow> Number \<Rightarrow> Timestamp" where
  "ref_delivery rb deliveryTime s =
     (if LessThan s (rb_maxSeq rb) then
        if re_state (rb_entry rb s) = EntryAvailable
        then deliveryTime (Timestamp (Header (re_pkt (rb_entry rb s))))
        else ref_delivery rb deliveryTime (Inc s)
      else 0)"
  by pat_completeness auto
termination
  by (relation "measure (\<lambda>(rb, deliveryTime, s). seq_lag s (rb_maxSeq rb))") (auto simp: seq_lag_less)

declare ref_delivery.simps [simp del]

definition mark_head_dropped :: "RecvBuffer \<Rightarrow> RecvBuffer" where
  "mark_head_dropped rb =
     (rb_set rb (rb_idx rb (rb_startSeq rb)) (zero_recvEntry\<lparr>re_state := EntryDrop\<rparr>))
       \<lparr>rb_startSeq := Inc (rb_startSeq rb)\<rparr>"

function too_late_loop ::
    "RecvBuffer \<Rightarrow> Timestamp \<Rightarrow> (u32 \<Rightarrow> Timestamp) \<Rightarrow> int \<Rightarrow> RecvBuffer \<times> int" where
  "too_late_loop rb now deliveryTime dropped =
     (if LessThan (rb_startSeq rb) (rb_maxSeq rb) then
        if re_state (rb_entry rb (rb_startSeq rb)) = EntryAvailable then (rb, dropped)
        else
          let refDelivery = ref_delivery rb deliveryTime (Inc (rb_startSeq rb)) in
          if refDelivery = 0 then (rb, dropped)
          else if Before now refDelivery then (rb, dropped)
          else too_late_loop (mark_head_dropped rb) now deliveryTime (dropped + 1)
      else (rb, dropped))"
  by pat_completeness auto
termination
  by (relation "measure (\<lambda>(rb, now, deliveryTime, dropped). seq_lag (rb_startSeq rb) (rb_maxSeq rb))")
    (auto simp: seq_lag_less mark_head_dropped_def rb_set_def)

declare too_late_loop.simps [simp del]

definition DropTooLate ::
    "RecvBuffer \<Rightarrow> Timestamp \<Rightarrow> (u32 \<Rightarrow> Timestamp) \<Rightarrow> RecvBuffer \<times> int" where
  "DropTooLate rb now deliveryTime =
     (case too_late_loop rb now deliveryTime 0 of (rb, dropped) \<Rightarrow> (releaseFillerEntries rb, dropped))"

section \<open>Queries\<close>

function loss_loop :: "RecvBuffer \<Rightarrow> Number \<Rightarrow> u32 list" where
  "loss_loop rb s =
     (if LessThan s (rb_maxSeq rb)
      then (if re_state (rb_entry rb s) = EntryEmpty then [Value s] else []) @ loss_loop rb (Inc s)
      else [])"
  by pat_completeness auto
termination
  by (relation "measure (\<lambda>(rb, s). seq_lag s (rb_maxSeq rb))") (auto simp: seq_lag_less)

declare loss_loop.simps [simp del]

definition GenerateLossList :: "RecvBuffer \<Rightarrow> u32 list" where
  "GenerateLossList rb = (if rb_startSeq rb = rb_maxSeq rb then [] else loss_loop rb (rb_startSeq rb))"

function ack_loop :: "RecvBuffer \<Rightarrow> Number \<Rightarrow> Number" where
  "ack_loop rb s =
     (if LessThan s (rb_maxSeq rb)
      then if re_state (rb_entry rb s) = EntryEmpty then s else ack_loop rb (Inc s)
      else s)"
  by pat_completeness auto
termination
  by (relation "measure (\<lambda>(rb, s). seq_lag s (rb_maxSeq rb))") (auto simp: seq_lag_less)

declare ack_loop.simps [simp del]

definition ACKSequence :: "RecvBuffer \<Rightarrow> Number" where
  "ACKSequence rb = ack_loop rb (rb_startSeq rb)"

definition RecvSize :: "RecvBuffer \<Rightarrow> int" where
  "RecvSize rb = rb_size rb"

definition RecvCapacity :: "RecvBuffer \<Rightarrow> int" where
  "RecvCapacity rb = int (length (rb_entries rb)) - 1"

text \<open>The oldest and newest timestamp seen so far, \<open>None\<close> before the first available packet.\<close>

function span_loop :: "RecvBuffer \<Rightarrow> Number \<Rightarrow> (u32 \<times> u32) option \<Rightarrow> (u32 \<times> u32) option" where
  "span_loop rb s acc =
     (if LessThan s (rb_maxSeq rb) then
        let e = rb_entry rb s; ts = Timestamp (Header (re_pkt e));
            acc = (if re_state e \<noteq> EntryAvailable then acc
                   else case acc of
                          None \<Rightarrow> Some (ts, ts)
                        | Some (oldest, newest) \<Rightarrow>
                            Some (if sint (ts - oldest) < 0 then ts else oldest,
                                  if sint (ts - newest) > 0 then ts else newest))
        in span_loop rb (Inc s) acc
      else acc)"
  by pat_completeness auto
termination
  by (relation "measure (\<lambda>(rb, s, acc). seq_lag s (rb_maxSeq rb))") (auto simp: seq_lag_less)

declare span_loop.simps [simp del]

definition BufferedTimeSpan :: "RecvBuffer \<Rightarrow> Microseconds" where
  "BufferedTimeSpan rb =
     (if rb_size rb < 2 then 0
      else case span_loop rb (rb_startSeq rb) None of
             None \<Rightarrow> 0
           | Some (oldest, newest) \<Rightarrow> int (unat (newest - oldest)))"

definition AvailableSize :: "RecvBuffer \<Rightarrow> Number \<Rightarrow> int" where
  "AvailableSize rb lastAck =
     (let cap = int (length (rb_entries rb)) - 1 in
      if \<not> LessThan (rb_startSeq rb) lastAck then cap
      else
        let used = Distance (rb_startSeq rb) lastAck in
        if used > cap then 0 else cap - used + 1)"

definition StartSeq :: "RecvBuffer \<Rightarrow> Number" where
  "StartSeq rb = rb_startSeq rb"

definition MaxSeq :: "RecvBuffer \<Rightarrow> Number" where
  "MaxSeq rb = rb_maxSeq rb"

definition IsEmpty :: "RecvBuffer \<Rightarrow> bool" where
  "IsEmpty rb = (rb_size rb = 0)"

function peek_loop :: "RecvBuffer \<Rightarrow> Number \<Rightarrow> u32 \<times> bool" where
  "peek_loop rb s =
     (if LessThan s (rb_maxSeq rb)
      then if re_state (rb_entry rb s) = EntryAvailable
           then (Timestamp (Header (re_pkt (rb_entry rb s))), True)
           else peek_loop rb (Inc s)
      else (0, False))"
  by pat_completeness auto
termination
  by (relation "measure (\<lambda>(rb, s). seq_lag s (rb_maxSeq rb))") (auto simp: seq_lag_less)

declare peek_loop.simps [simp del]

definition PeekNextAvailableTimestamp :: "RecvBuffer \<Rightarrow> u32 \<times> bool" where
  "PeekNextAvailableTimestamp rb = peek_loop rb (rb_startSeq rb)"

definition SetInitialRcvSeq :: "RecvBuffer \<Rightarrow> Number \<Rightarrow> RecvBuffer" where
  "SetInitialRcvSeq rb newISN =
     rb\<lparr>rb_entries := replicate (length (rb_entries rb)) zero_recvEntry,
        rb_startSeq := newISN, rb_maxSeq := newISN, rb_size := 0,
        rb_numOutOfOrderPkts := 0, rb_firstReadableOOO := -1\<rparr>"

end
