(* ===== verification/Recv_Window.thy ===== *)
theory Recv_Window
  imports Recv_Buffer
begin

text \<open>
  What the receive buffer of \<^verbatim>\<open>internal/buffer/recv.go\<close> guarantees: its invariant, the window of packets
  it stores as a partial function of the offset from the head, the interface the connection relies on
  (a locale, interpreted on the model of the buffer), and the properties of whole runs.
\<close>

section \<open>Invariant, window and runs\<close>

text \<open>
  The entry \<open>j\<close> places after the head, the number of places from the head to the highest number received, and the packet stored at a place.
\<close>

definition rb_at :: "RecvBuffer \<Rightarrow> nat \<Rightarrow> recvEntry" where
  "rb_at rb j = rb_entries rb ! slot (length (rb_entries rb)) (rb_startSeq rb) j"

definition rb_len :: "RecvBuffer \<Rightarrow> nat" where
  "rb_len rb = (if LessThan (rb_startSeq rb) (rb_maxSeq rb) then seq_off (rb_startSeq rb) (rb_maxSeq rb) else 0)"

definition rb_pkt :: "RecvBuffer \<Rightarrow> nat \<Rightarrow> Packet option" where
  "rb_pkt rb j =
     (if j < length (rb_entries rb) \<and> re_state (rb_at rb j) = EntryAvailable then Some (re_pkt (rb_at rb j))
      else None)"

definition is_avail :: "recvEntry \<Rightarrow> bool" where
  "is_avail e = (re_state e = EntryAvailable)"

text \<open>
  The invariant: available slots lie between the head and the highest number, each holding the packet of its place, and \<^verbatim>\<open>size\<close> counts them. The head may be past the highest number (after a drop of packets never received), by less than half the number space.
\<close>

definition rb_inv :: "RecvBuffer \<Rightarrow> bool" where
  "rb_inv rb \<longleftrightarrow>
     (let c = length (rb_entries rb); a = rb_startSeq rb; m = rb_maxSeq rb in
      ring_cap c \<and> rb_mask rb = c - Suc 0 \<and> valid_seq a \<and> valid_seq m \<and>
      (seq_off a m < c \<or> seq_off m a + c \<le> H31) \<and>
      (\<forall>j p. rb_pkt rb j = Some p \<longrightarrow> j < rb_len rb \<and> SequenceNumber (Header p) = seq_nth a j) \<and>
      rb_size rb = int (length (filter is_avail (rb_entries rb))))"

text \<open>
  The head has moved \<open>n\<close> places, and what is stored beyond it is still stored.
\<close>

definition rb_moves :: "nat \<Rightarrow> RecvBuffer \<Rightarrow> RecvBuffer \<Rightarrow> bool" where
  "rb_moves n rb rb' \<longleftrightarrow>
     length (rb_entries rb') = length (rb_entries rb) \<and>
     rb_startSeq rb' = seq_nth (rb_startSeq rb) n \<and> rb_maxSeq rb' = rb_maxSeq rb \<and>
     (\<forall>j. rb_pkt rb' j = rb_pkt rb (n + j)) \<and>
     rb_messageAPI rb' = rb_messageAPI rb \<and>
     (rb_messageAPI rb \<or> rb_firstReadableOOO rb' = rb_firstReadableOOO rb)"

text \<open>
  The bookkeeping of out-of-order messages changes none of the ring.
\<close>

definition same_ring :: "RecvBuffer \<Rightarrow> RecvBuffer \<Rightarrow> bool" where
  "same_ring rb rb' \<longleftrightarrow>
     rb_entries rb' = rb_entries rb \<and> rb_mask rb' = rb_mask rb \<and> rb_startSeq rb' = rb_startSeq rb \<and>
     rb_maxSeq rb' = rb_maxSeq rb \<and> rb_size rb' = rb_size rb \<and> rb_messageAPI rb' = rb_messageAPI rb \<and>
     (rb_messageAPI rb \<or> rb_firstReadableOOO rb' = rb_firstReadableOOO rb)"

text \<open>
  A drop may pass the highest number received, but by less than half the number space.
\<close>

definition drop_ok :: "RecvBuffer \<Rightarrow> Number \<Rightarrow> bool" where
  "drop_ok rb u \<longleftrightarrow>
     valid_seq u \<and>
     (LessThan (rb_startSeq rb) u \<longrightarrow>
        seq_off (rb_startSeq rb) u \<le> rb_len rb \<or> seq_off (rb_maxSeq rb) u + length (rb_entries rb) \<le> H31)"

text \<open>
  What an accepted insertion does to the ring.
\<close>

definition insert_ring :: "RecvBuffer \<Rightarrow> Packet \<Rightarrow> Timestamp \<Rightarrow> RecvBuffer" where
  "insert_ring rb p ts =
     (let s = SequenceNumber (Header p);
          rb1 = (rb_set rb (rb_idx rb s) \<lparr>re_pkt = p, re_state = EntryAvailable, re_arrivalTS = ts\<rparr>)
                  \<lparr>rb_size := rb_size rb + 1\<rparr>
      in if LessThan (rb_maxSeq rb) (Inc s) \<or> rb_maxSeq rb = rb_startSeq rb
         then rb1\<lparr>rb_maxSeq := Inc s\<rparr> else rb1)"

text \<open>
  The operations as values, to run sequences of them.
\<close>

datatype rb_op =
  OpInsert Packet Timestamp | OpReadNext | OpReadTSBPD Timestamp "u32 \<Rightarrow> Timestamp"
| OpReadMessage | OpReadMessageTSBPD Timestamp "u32 \<Rightarrow> Timestamp"
| OpDrop Number | OpDropTooLate Timestamp "u32 \<Rightarrow> Timestamp"

datatype rb_out = OutInsert InsertResult | OutPkts "Packet list" | OutCount int

fun rb_step :: "rb_op \<Rightarrow> RecvBuffer \<Rightarrow> RecvBuffer \<times> rb_out" where
  "rb_step (OpInsert p ts) rb = (case Insert rb p ts of (rb, r) \<Rightarrow> (rb, OutInsert r))"
| "rb_step OpReadNext rb = (case ReadNext rb of (rb, p, got) \<Rightarrow> (rb, OutPkts (if got then [p] else [])))"
| "rb_step (OpReadTSBPD now dt) rb =
     (case ReadTSBPD rb now dt of (rb, p, got, _) \<Rightarrow> (rb, OutPkts (if got then [p] else [])))"
| "rb_step OpReadMessage rb = (case ReadMessage rb of (rb, ps, _) \<Rightarrow> (rb, OutPkts ps))"
| "rb_step (OpReadMessageTSBPD now dt) rb = (case ReadMessageTSBPD rb now dt of (rb, ps, _) \<Rightarrow> (rb, OutPkts ps))"
| "rb_step (OpDrop upTo) rb = (case Drop rb upTo of (rb, n, _) \<Rightarrow> (rb, OutCount n))"
| "rb_step (OpDropTooLate now dt) rb = (case DropTooLate rb now dt of (rb, n) \<Rightarrow> (rb, OutCount n))"

fun rb_op_ok :: "rb_op \<Rightarrow> RecvBuffer \<Rightarrow> bool" where
  "rb_op_ok (OpInsert p ts) rb = valid_seq (SequenceNumber (Header p))"
| "rb_op_ok (OpDrop upTo) rb = drop_ok rb upTo"
| "rb_op_ok _ rb = True"

fun delivered :: "rb_out \<Rightarrow> Packet list" where
  "delivered (OutPkts ps) = ps"
| "delivered _ = []"

fun rb_accepted :: "rb_op \<Rightarrow> rb_out \<Rightarrow> Packet list" where
  "rb_accepted (OpInsert p ts) (OutInsert r) = (if Inserted r then [p] else [])"
| "rb_accepted _ _ = []"

text \<open>
  What a run has handed to the application, and what it has accepted.
\<close>

definition all_delivered :: "rb_out list \<Rightarrow> Packet list" where
  "all_delivered outs = concat (map delivered outs)"

definition all_accepted :: "rb_op list \<Rightarrow> rb_out list \<Rightarrow> Packet list" where
  "all_accepted ops outs = concat (map2 rb_accepted ops outs)"

text \<open>
  Operations that never skip a sequence number.
\<close>

fun lossless :: "rb_op \<Rightarrow> bool" where
  "lossless (OpDrop upTo) = False"
| "lossless (OpDropTooLate now dt) = False"
| "lossless OpReadMessage = False"
| "lossless _ = True"

text \<open>
  The invariant without the out-of-order reading of the message mode, and buffers without dropped or read slots.
\<close>

definition in_order_inv :: "RecvBuffer \<Rightarrow> bool" where
  "in_order_inv rb \<longleftrightarrow> rb_inv rb \<and> \<not> rb_messageAPI rb \<and> rb_firstReadableOOO rb < 0"

definition no_fillers :: "RecvBuffer \<Rightarrow> bool" where
  "no_fillers rb \<longleftrightarrow> (\<forall>e \<in> set (rb_entries rb). re_state e = EntryEmpty \<or> re_state e = EntryAvailable)"

text \<open>
  Packet \<open>p\<close> is one of \<open>A\<close> and carries the number \<open>k\<close> places after the initial one.
\<close>

definition from_store :: "Number \<Rightarrow> Packet set \<Rightarrow> Packet \<Rightarrow> nat \<Rightarrow> bool" where
  "from_store isn A p k \<longleftrightarrow> SequenceNumber (Header p) = seq_nth isn k \<and> p \<in> A"

text \<open>
  What one operation does to the window, in the terms of the interface.
\<close>

definition step_effect :: "RecvBuffer \<Rightarrow> rb_op \<Rightarrow> bool" where
  "step_effect rb opn \<longleftrightarrow>
     in_order_inv (fst (rb_step opn rb)) \<and>
     (\<exists>n k. k \<le> n \<and> rb_startSeq (fst (rb_step opn rb)) = seq_nth (rb_startSeq rb) n \<and>
        map (rb_pkt rb) [0..<k] = map Some (delivered (snd (rb_step opn rb))) \<and>
        (lossless opn \<longrightarrow> n = k) \<and>
        (\<forall>j p. rb_pkt (fst (rb_step opn rb)) j = Some p \<longrightarrow>
               rb_pkt rb (n + j) = Some p \<or> p \<in> set (rb_accepted opn (snd (rb_step opn rb)))))"

definition data_packet :: "u32 \<Rightarrow> Packet" where
  "data_packet s = zero_Packet\<lparr>Header := (Header zero_Packet)\<lparr>SequenceNumber := s\<rparr>\<rparr>"

section \<open>Steps of the head\<close>

lemma rb_invD:
  assumes "rb_inv rb"
  shows "ring_cap (length (rb_entries rb))" "rb_mask rb = length (rb_entries rb) - Suc 0"
    "valid_seq (rb_startSeq rb)" "valid_seq (rb_maxSeq rb)"
    "seq_off (rb_startSeq rb) (rb_maxSeq rb) < length (rb_entries rb) \<or>
     seq_off (rb_maxSeq rb) (rb_startSeq rb) + length (rb_entries rb) \<le> H31"
    "rb_size rb = int (length (filter is_avail (rb_entries rb)))"
  using assms by (simp_all add: rb_inv_def Let_def)

lemma rb_entries_ne [simp]: "rb_inv rb \<Longrightarrow> rb_entries rb \<noteq> []"
  using rb_invD(1) [of rb] ring_cap_pos by fastforce

lemma rb_inv_pkt:
  assumes "rb_inv rb" "rb_pkt rb j = Some p"
  shows "j < rb_len rb" "SequenceNumber (Header p) = seq_nth (rb_startSeq rb) j"
  using assms by (simp_all add: rb_inv_def Let_def)

lemma rb_idx_slot:
  "rb_inv rb \<Longrightarrow> rb_idx rb (seq_nth (rb_startSeq rb) j) = slot (length (rb_entries rb)) (rb_startSeq rb) j"
  by (simp add: rb_idx_def idx_slot rb_invD del: unat_seq_nth)

lemma rb_idx_head: "rb_inv rb \<Longrightarrow> rb_idx rb (rb_startSeq rb) = slot (length (rb_entries rb)) (rb_startSeq rb) 0"
  by (simp add: rb_idx_def idx_slot_0 rb_invD)

lemma rb_entry_at: "rb_inv rb \<Longrightarrow> rb_entry rb (seq_nth (rb_startSeq rb) j) = rb_at rb j"
  by (simp add: rb_entry_def rb_at_def rb_idx_slot)

lemma rb_entry_head: "rb_inv rb \<Longrightarrow> rb_entry rb (rb_startSeq rb) = rb_at rb 0"
  by (simp add: rb_entry_def rb_at_def rb_idx_head)

lemma rb_len_eq:
  assumes "rb_inv rb"
  shows "LessThan (rb_startSeq rb) (rb_maxSeq rb) \<longleftrightarrow> 0 < rb_len rb"
    "rb_len rb = (if seq_off (rb_startSeq rb) (rb_maxSeq rb) < length (rb_entries rb)
                  then seq_off (rb_startSeq rb) (rb_maxSeq rb) else 0)"
    "rb_len rb < length (rb_entries rb)"
proof -
  let ?a = "rb_startSeq rb" and ?m = "rb_maxSeq rb" and ?c = "length (rb_entries rb)"
  note D = rb_invD [OF assms]
  have c: "?c < H31" "0 < ?c" using ring_cap_lt [OF D(1)] ring_cap_pos [OF D(1)] by auto
  have len: "rb_len rb = (if seq_off ?a ?m < ?c then seq_off ?a ?m else 0)"
  proof (cases "seq_off ?a ?m < ?c")
    case True
    then have "LessThan ?a ?m \<longleftrightarrow> ?a \<noteq> ?m" using c LessThan_off_lt [OF D(3,4)] by simp
    with True show ?thesis by (auto simp: rb_len_def)
  next
    case False
    with c have ne: "?a \<noteq> ?m" by auto
    from False D(5) have "seq_off ?m ?a < H31" using c(2) by linarith
    then have "LessThan ?m ?a" using LessThan_off_lt [OF D(4,3)] ne by simp
    then show ?thesis using False LessThan_asym by (auto simp: rb_len_def)
  qed
  then show "rb_len rb = (if seq_off ?a ?m < ?c then seq_off ?a ?m else 0)" .
  show "LessThan ?a ?m \<longleftrightarrow> 0 < rb_len rb"
    using seq_off_eq_0_iff [OF D(3,4)] by (auto simp: rb_len_def)
  show "rb_len rb < ?c" using len c by auto
qed

lemma rb_moves_refl [simp]: "rb_inv rb \<Longrightarrow> rb_moves 0 rb rb"
  by (simp add: rb_moves_def rb_invD)

lemma rb_moves_trans: "rb_moves n rb rb' \<Longrightarrow> rb_moves k rb' rb'' \<Longrightarrow> rb_moves (n + k) rb rb''"
  by (auto simp: rb_moves_def add.assoc)

text \<open>One step of the head: its slot is overwritten with an entry that is not available.\<close>

lemma head_step:
  assumes inv: "rb_inv rb" and e: "re_state e \<noteq> EntryAvailable"
    and ent: "rb_entries rb' = (rb_entries rb)[rb_idx rb (rb_startSeq rb) := e]"
    and st: "rb_startSeq rb' = Inc (rb_startSeq rb)"
    and rest: "rb_maxSeq rb' = rb_maxSeq rb" "rb_mask rb' = rb_mask rb" "rb_messageAPI rb' = rb_messageAPI rb"
      "rb_messageAPI rb \<or> rb_firstReadableOOO rb' = rb_firstReadableOOO rb"
    and sz: "rb_size rb' = rb_size rb - (if re_state (rb_at rb 0) = EntryAvailable then 1 else 0)"
    and room: "LessThan (rb_startSeq rb) (rb_maxSeq rb) \<or>
               seq_off (rb_maxSeq rb) (Inc (rb_startSeq rb)) + length (rb_entries rb) \<le> H31"
  shows "rb_inv rb' \<and> rb_moves 1 rb rb'"
proof -
  let ?a = "rb_startSeq rb" and ?m = "rb_maxSeq rb" and ?c = "length (rb_entries rb)"
  note D = rb_invD [OF inv]
  have c: "?c < H31" "0 < ?c" using ring_cap_lt [OF D(1)] ring_cap_pos [OF D(1)] by auto
  have len': "length (rb_entries rb') = ?c" by (simp add: ent)
  have at': "rb_at rb' j = (if Suc j = ?c then e else rb_at rb (Suc j))" if "j < ?c" for j
  proof (cases "Suc j = ?c")
    case True
    then have "slot ?c ?a (Suc j) = slot ?c ?a 0" using slot_wrap [of ?c ?a 0] by simp
    then show ?thesis using True D
      by (simp add: rb_at_def len' st slot_Inc ent rb_idx_head [OF inv])
  next
    case False
    with that have "slot ?c ?a (Suc j) \<noteq> slot ?c ?a 0" using slot_eq_iff [of "Suc j" ?c 0 ?a] c(2) by auto
    then show ?thesis using False D
      by (simp add: rb_at_def len' st slot_Inc ent rb_idx_head [OF inv] nth_list_update_neq)
  qed
  have pkt': "rb_pkt rb' j = rb_pkt rb (Suc j)" for j
    using e at' [of j] by (auto simp: rb_pkt_def len' split: if_splits)
  have moves: "rb_moves 1 rb rb'"
    using D pkt' rest st by (simp add: rb_moves_def len' Inc_eq_nth)
  have off: "seq_off (Inc ?a) ?m < ?c \<and> rb_len rb' = rb_len rb - 1 \<or>
             seq_off ?m (Inc ?a) + ?c \<le> H31 \<and> rb_len rb = 0"
  proof (cases "LessThan ?a ?m")
    case True
    then have "?a \<noteq> ?m" by auto
    then have o: "seq_off (Inc ?a) ?m = seq_off ?a ?m - 1" using seq_off_Inc_left D by simp
    have l: "rb_len rb = seq_off ?a ?m" "rb_len rb < ?c"
      using True rb_len_eq(3) [OF inv] by (simp_all only: rb_len_def if_True)
    then have "seq_off (Inc ?a) ?m < H31" using o c by simp
    then have "LessThan (Inc ?a) ?m \<longleftrightarrow> Inc ?a \<noteq> ?m" using D by (simp add: LessThan_off_lt)
    then have "rb_len rb' = rb_len rb - 1" using o l by (auto simp: rb_len_def st rest)
    moreover have "seq_off (Inc ?a) ?m < ?c" using o l by linarith
    ultimately show ?thesis by blast
  next
    case False
    then show ?thesis using room by (simp add: rb_len_def)
  qed
  have "length (filter is_avail (rb_entries rb')) + (if is_avail (rb_at rb 0) then 1 else 0)
        = length (filter is_avail (rb_entries rb))"
    using length_filter_update [of "rb_idx rb ?a" "rb_entries rb" is_avail e] e D
    by (simp add: ent rb_idx_head [OF inv] rb_at_def is_avail_def)
  then have size': "rb_size rb' = int (length (filter is_avail (rb_entries rb')))"
    using sz D(6) by (auto simp: is_avail_def split: if_splits)
  have p: "j < rb_len rb' \<and> SequenceNumber (Header p) = seq_nth (Inc ?a) j" if "rb_pkt rb' j = Some p" for j p
  proof -
    have "rb_pkt rb (Suc j) = Some p" using that pkt' by simp
    then have "Suc j < rb_len rb" "SequenceNumber (Header p) = seq_nth ?a (Suc j)"
      using rb_inv_pkt [OF inv] by auto
    then show ?thesis using off D by (auto simp: Inc_eq_nth)
  qed
  have "rb_inv rb'"
    unfolding rb_inv_def Let_def len' st rest(1,2)
    using D off p size' by auto
  with moves show ?thesis by simp
qed

lemma rb_entry_set [simp]: "rb_entries (rb_set rb i e) = (rb_entries rb)[i := e]"
  "rb_startSeq (rb_set rb i e) = rb_startSeq rb" "rb_maxSeq (rb_set rb i e) = rb_maxSeq rb"
  "rb_mask (rb_set rb i e) = rb_mask rb" "rb_size (rb_set rb i e) = rb_size rb"
  "rb_messageAPI (rb_set rb i e) = rb_messageAPI rb"
  "rb_firstReadableOOO (rb_set rb i e) = rb_firstReadableOOO rb"
  "rb_numOutOfOrderPkts (rb_set rb i e) = rb_numOutOfOrderPkts rb"
  by (simp_all add: rb_set_def)

lemma zero_entry_state [simp]: "re_state zero_recvEntry = EntryEmpty"
  by (simp add: zero_recvEntry_def)

lemma avail_head_len: "rb_inv rb \<Longrightarrow> re_state (rb_at rb 0) = EntryAvailable \<Longrightarrow> LessThan (rb_startSeq rb) (rb_maxSeq rb)"
  using rb_inv_pkt(1) [of rb 0 "re_pkt (rb_at rb 0)"] rb_len_eq(1) [of rb]
  by (simp add: rb_pkt_def)

lemma rb_advance_step:
  assumes "rb_inv rb" "re_state (rb_at rb 0) = EntryAvailable"
  shows "rb_inv (rb_advance rb) \<and> rb_moves 1 rb (rb_advance rb)"
  by (rule head_step [where e = zero_recvEntry])
    (use assms avail_head_len in \<open>simp_all add: rb_advance_def\<close>)

lemma rb_pkt_head: "rb_inv rb \<Longrightarrow> re_state (rb_at rb 0) = EntryAvailable \<Longrightarrow> rb_pkt rb 0 = Some (re_pkt (rb_at rb 0))"
  by (simp add: rb_pkt_def)

lemma same_ring_facts:
  assumes "same_ring rb rb'"
  shows "rb_at rb' = rb_at rb" "rb_pkt rb' = rb_pkt rb" "rb_len rb' = rb_len rb" "rb_inv rb' = rb_inv rb"
    "rb_inv rb \<Longrightarrow> rb_moves 0 rb rb'" "rb_entry rb' = rb_entry rb"
proof -
  show at: "rb_at rb' = rb_at rb" using assms by (auto simp: same_ring_def rb_at_def fun_eq_iff)
  show p: "rb_pkt rb' = rb_pkt rb" using assms at by (auto simp: same_ring_def rb_pkt_def fun_eq_iff)
  show l: "rb_len rb' = rb_len rb" using assms by (auto simp: same_ring_def rb_len_def)
  show "rb_inv rb' = rb_inv rb" using assms p l by (simp add: same_ring_def rb_inv_def)
  show "rb_inv rb \<Longrightarrow> rb_moves 0 rb rb'" using assms p by (auto simp: same_ring_def rb_moves_def rb_invD)
  show "rb_entry rb' = rb_entry rb" using assms by (auto simp: same_ring_def rb_entry_def rb_idx_def fun_eq_iff)
qed

lemma same_ring_count [simp]: "same_ring rb (count_ooo_out rb p)"
  by (simp add: same_ring_def count_ooo_out_def)

lemma same_ring_update: "rb_messageAPI rb \<Longrightarrow> same_ring rb (updateFirstReadableOutOfOrder rb)"
  by (simp add: same_ring_def updateFirstReadableOutOfOrder_def Let_def)

lemma releaseFiller_moves:
  "rb_inv rb \<Longrightarrow> rb_inv (releaseFillerEntries rb) \<and> (\<exists>n. rb_moves n rb (releaseFillerEntries rb))"
proof (induction rb rule: releaseFillerEntries.induct)
  case (1 rb)
  let ?e = "rb_at rb 0"
  have e: "rb_entries rb ! rb_idx rb (rb_startSeq rb) = ?e"
    using rb_entry_head [OF "1.prems"] by (simp add: rb_entry_def)
  show ?case
  proof (cases "LessThan (rb_startSeq rb) (rb_maxSeq rb) \<and> (re_state ?e = EntryDrop \<or> re_state ?e = EntryRead)")
    case True
    let ?rb = "(rb_set rb (rb_idx rb (rb_startSeq rb)) zero_recvEntry)\<lparr>rb_startSeq := Inc (rb_startSeq rb)\<rparr>"
    have s: "rb_inv ?rb \<and> rb_moves 1 rb ?rb"
      by (rule head_step [where e = zero_recvEntry]) (use True "1.prems" in auto)
    moreover have "rb_inv (releaseFillerEntries ?rb) \<and> (\<exists>n. rb_moves n ?rb (releaseFillerEntries ?rb))"
      using "1.IH" [OF _ refl refl] True s e by auto
    moreover have "releaseFillerEntries rb = releaseFillerEntries ?rb"
      by (subst releaseFillerEntries.simps) (use True e in \<open>auto simp: Let_def\<close>)
    ultimately show ?thesis using rb_moves_trans by metis
  next
    case False
    then have "releaseFillerEntries rb = rb"
      by (subst releaseFillerEntries.simps) (use e in \<open>auto simp: Let_def\<close>)
    then show ?thesis using "1.prems" rb_moves_refl by metis
  qed
qed

lemma after_in_order_moves:
  assumes "rb_inv rb"
  shows "rb_inv (after_in_order_read rb) \<and> (\<exists>n. rb_moves n rb (after_in_order_read rb))"
proof -
  obtain n where n: "rb_moves n rb (releaseFillerEntries rb)" "rb_inv (releaseFillerEntries rb)"
    using releaseFiller_moves [OF assms] by blast
  show ?thesis
  proof (cases "rb_messageAPI (releaseFillerEntries rb)")
    case True
    then have "same_ring (releaseFillerEntries rb) (after_in_order_read rb)"
      by (simp add: after_in_order_read_def same_ring_update)
    from same_ring_facts(4,5) [OF this] n show ?thesis using rb_moves_trans by blast
  next
    case False
    then show ?thesis using n by (auto simp: after_in_order_read_def)
  qed
qed

lemma count_advance_step:
  assumes "rb_inv rb" "re_state (rb_at rb 0) = EntryAvailable"
  shows "rb_inv (rb_advance (count_ooo_out rb p)) \<and> rb_moves 1 rb (rb_advance (count_ooo_out rb p))"
  using rb_advance_step [of "count_ooo_out rb p"] same_ring_facts [OF same_ring_count, of rb p] assms
    rb_moves_trans [of 0 rb _ 1] by auto

lemma skip_head_moves:
  assumes "rb_inv rb" "re_state (rb_at rb 0) = EntryAvailable"
  shows "rb_inv (skip_head rb) \<and> (\<exists>n. rb_moves n rb (skip_head rb))"
proof -
  note c = count_advance_step [OF assms, of "re_pkt (rb_entry rb (rb_startSeq rb))"]
  then show ?thesis using after_in_order_moves rb_moves_trans unfolding skip_head_def by blast
qed

lemma Drop_head_step:
  assumes "rb_inv rb"
    and "LessThan (rb_startSeq rb) (rb_maxSeq rb) \<or>
         seq_off (rb_maxSeq rb) (Inc (rb_startSeq rb)) + length (rb_entries rb) \<le> H31"
  shows "rb_inv (fst (drop_head rb)) \<and> rb_moves 1 rb (fst (drop_head rb))"
proof -
  have e: "rb_entries rb ! rb_idx rb (rb_startSeq rb) = rb_at rb 0"
    using rb_entry_head [OF assms(1)] by (simp add: rb_entry_def)
  show ?thesis
    by (rule head_step [where e = "zero_recvEntry\<lparr>re_state := EntryDrop\<rparr>"])
      (use assms e in \<open>simp_all add: drop_head_def Let_def split: EntryState.splits\<close>)
qed

lemma mark_head_step:
  assumes "rb_inv rb" "LessThan (rb_startSeq rb) (rb_maxSeq rb)" "re_state (rb_at rb 0) \<noteq> EntryAvailable"
  shows "rb_inv (mark_head_dropped rb) \<and> rb_moves 1 rb (mark_head_dropped rb)"
  by (rule head_step [where e = "zero_recvEntry\<lparr>re_state := EntryDrop\<rparr>"])
    (use assms in \<open>simp_all add: mark_head_dropped_def\<close>)

lemma too_late_moves:
  "rb_inv rb \<Longrightarrow> rb_inv (fst (too_late_loop rb now dt d)) \<and> (\<exists>n. rb_moves n rb (fst (too_late_loop rb now dt d)))"
proof (induction rb now dt d rule: too_late_loop.induct)
  case (1 rb now dt d)
  note e = rb_entry_head [OF "1.prems"]
  let ?r = "ref_delivery rb dt (Inc (rb_startSeq rb))"
  show ?case
  proof (cases "LessThan (rb_startSeq rb) (rb_maxSeq rb) \<and> re_state (rb_at rb 0) \<noteq> EntryAvailable \<and> ?r \<noteq> 0 \<and> \<not> Before now ?r")
    case True
    have s: "rb_inv (mark_head_dropped rb) \<and> rb_moves 1 rb (mark_head_dropped rb)"
      using mark_head_step True "1.prems" by blast
    moreover have "rb_inv (fst (too_late_loop (mark_head_dropped rb) now dt (d + 1))) \<and>
        (\<exists>n. rb_moves n (mark_head_dropped rb) (fst (too_late_loop (mark_head_dropped rb) now dt (d + 1))))"
      using "1.IH" [OF _ _ refl] True s e by auto
    moreover have "too_late_loop rb now dt d = too_late_loop (mark_head_dropped rb) now dt (d + 1)"
      by (subst too_late_loop.simps) (use True e in \<open>auto simp: Let_def\<close>)
    ultimately show ?thesis using rb_moves_trans by metis
  next
    case False
    then have "too_late_loop rb now dt d = (rb, d)"
      by (subst too_late_loop.simps) (use e in \<open>auto simp: Let_def\<close>)
    then show ?thesis using "1.prems" rb_moves_refl by (metis fst_conv)
  qed
qed

lemma DropTooLate_moves:
  "rb_inv rb \<Longrightarrow> rb_inv (fst (DropTooLate rb now dt)) \<and> (\<exists>n. rb_moves n rb (fst (DropTooLate rb now dt)))"
  using too_late_moves [of rb now dt 0] releaseFiller_moves rb_moves_trans
  by (auto simp: DropTooLate_def split: prod.splits) blast+

section \<open>Dropping\<close>

lemma rb_len_move1:
  assumes "rb_inv rb" "rb_inv rb'" "rb_moves 1 rb rb'" "LessThan (rb_startSeq rb) (rb_maxSeq rb)"
  shows "rb_len rb' = rb_len rb - 1"
proof -
  note D = rb_invD [OF assms(1)]
  have o: "seq_off (Inc (rb_startSeq rb)) (rb_maxSeq rb) = seq_off (rb_startSeq rb) (rb_maxSeq rb) - 1"
    by (rule seq_off_Inc_left [OF D(3,4) LessThan_neq [OF assms(4)]])
  have l: "rb_len rb = seq_off (rb_startSeq rb) (rb_maxSeq rb)" "rb_len rb < length (rb_entries rb)"
    using assms(4) rb_len_eq(3) [OF assms(1)] by (simp_all only: rb_len_def if_True)
  then show ?thesis
    using rb_len_eq(2) [OF assms(2)] assms(3) o D by (simp add: rb_moves_def Inc_eq_nth)
qed

lemma drop_room:
  assumes "rb_inv rb" "drop_ok rb u" "LessThan (rb_startSeq rb) u"
  shows "LessThan (rb_startSeq rb) (rb_maxSeq rb) \<or>
         seq_off (rb_maxSeq rb) (Inc (rb_startSeq rb)) + length (rb_entries rb) \<le> H31"
proof (cases "LessThan (rb_startSeq rb) (rb_maxSeq rb)")
  case False
  let ?a = "rb_startSeq rb" and ?m = "rb_maxSeq rb" and ?c = "length (rb_entries rb)"
  note D = rb_invD [OF assms(1)]
  have c: "?c < H31" "0 < ?c" using ring_cap_lt [OF D(1)] ring_cap_pos [OF D(1)] by auto
  have u: "valid_seq u" using assms(2) by (simp add: drop_ok_def)
  have y: "0 < seq_off ?a u" "seq_off ?a u \<le> H31" using assms(3) LessThan_iff [OF D(3) u] by auto
  have "rb_len rb = 0" using False by (simp add: rb_len_def)
  then have mu: "seq_off ?m u + ?c \<le> H31" using assms(2,3) y(1) by (auto simp: drop_ok_def)
  have x: "seq_off ?m ?a + ?c \<le> H31"
  proof (cases "?a = ?m")
    case True
    then show ?thesis using c by simp
  next
    case ne: False
    then have "seq_off ?a ?m \<noteq> 0" using seq_off_eq_0_iff [OF D(3,4)] by simp
    then have "\<not> seq_off ?a ?m < ?c" using rb_len_eq(2) [OF assms(1)] \<open>rb_len rb = 0\<close> by auto
    then show ?thesis using D(5) by blast
  qed
  have "seq_off ?m ?a + seq_off ?a u < M31" using x y c by linarith
  then have "seq_off ?m u = seq_off ?m ?a + seq_off ?a u" by (rule seq_off_add [OF D(4,3) u])
  moreover have "seq_off ?m (Inc ?a) = seq_off ?m ?a + 1"
  proof -
    have "Inc ?a = seq_nth ?m (seq_off ?m ?a + 1)"
      using seq_nth_nth [of ?m "seq_off ?m ?a" 1] D by (simp add: Inc_eq_nth)
    then show ?thesis using seq_off_nth_lt [OF D(4), of "seq_off ?m ?a + 1"] x by simp
  qed
  ultimately show ?thesis using mu y by linarith
qed simp

lemma drop_ok_step:
  assumes "rb_inv rb" "drop_ok rb u" "LessThan (rb_startSeq rb) u" "rb_inv rb'" "rb_moves 1 rb rb'"
  shows "drop_ok rb' u"
proof -
  note D = rb_invD [OF assms(1)]
  have u: "valid_seq u" using assms(2) by (simp add: drop_ok_def)
  have a': "rb_startSeq rb' = Inc (rb_startSeq rb)" using assms(5) D by (simp add: rb_moves_def Inc_eq_nth)
  have o: "seq_off (rb_startSeq rb') u = seq_off (rb_startSeq rb) u - 1"
    unfolding a' by (rule seq_off_Inc_left [OF D(3) u LessThan_neq [OF assms(3)]])
  have y: "0 < seq_off (rb_startSeq rb) u" using assms(3) LessThan_iff [OF D(3) u] by auto
  show ?thesis
  proof (cases "seq_off (rb_startSeq rb) u \<le> rb_len rb")
    case True
    then have "LessThan (rb_startSeq rb) (rb_maxSeq rb)" using y rb_len_eq(1) [OF assms(1)] by simp
    then have "rb_len rb' = rb_len rb - 1" using rb_len_move1 assms by blast
    then show ?thesis using True u o diff_le_mono by (simp add: drop_ok_def)
  next
    case False
    then have "seq_off (rb_maxSeq rb) u + length (rb_entries rb) \<le> H31"
      using assms(2,3) by (auto simp: drop_ok_def)
    then show ?thesis using u assms(5) by (simp add: drop_ok_def rb_moves_def)
  qed
qed

lemma drop_loop_moves:
  "rb_inv rb \<Longrightarrow> drop_ok rb u \<Longrightarrow>
   rb_inv (fst (drop_loop rb u n ts)) \<and> (\<exists>k. rb_moves k rb (fst (drop_loop rb u n ts)))"
proof (induction rb u n ts rule: drop_loop.induct)
  case (1 rb u n ts)
  show ?case
  proof (cases "LessThan (rb_startSeq rb) u")
    case True
    let ?d = "drop_head rb"
    have s: "rb_inv (fst ?d)" "rb_moves 1 rb (fst ?d)"
      using Drop_head_step [OF "1.prems"(1) drop_room [OF "1.prems" True]] by blast+
    have "drop_ok (fst ?d) u" using drop_ok_step [OF "1.prems" True s] .
    note ih = "1.IH" [OF True s(1) this]
    have "drop_loop rb u n ts = drop_loop (fst ?d) u (n + fst (snd ?d)) (ts @ snd (snd ?d))"
      by (subst drop_loop.simps) (simp add: True)
    then show ?thesis using ih s rb_moves_trans by metis
  next
    case False
    then have "drop_loop rb u n ts = (rb, n, ts)" by (subst drop_loop.simps) simp
    then show ?thesis using "1.prems" rb_moves_refl by (metis fst_conv)
  qed
qed

lemma Drop_moves:
  assumes "rb_inv rb" "drop_ok rb u"
  shows "rb_inv (fst (Drop rb u)) \<and> (\<exists>k. rb_moves k rb (fst (Drop rb u)))"
proof -
  define r where "r = releaseFillerEntries (fst (drop_loop rb u 0 []))"
  have "rb_inv r \<and> (\<exists>k. rb_moves k rb r)"
    using drop_loop_moves [OF assms, of 0 "[]"] releaseFiller_moves rb_moves_trans unfolding r_def by blast
  moreover have "same_ring r (fst (Drop rb u))"
  proof -
    have "same_ring r (updateFirstReadableOutOfOrder (r\<lparr>rb_firstReadableOOO := -1\<rparr>))" if "rb_messageAPI r"
      using that same_ring_update [of "r\<lparr>rb_firstReadableOOO := -1\<rparr>"] by (simp add: same_ring_def)
    then show ?thesis
      by (auto simp: Drop_def Let_def r_def same_ring_update same_ring_def [of x x for x] split: prod.splits)
  qed
  ultimately show ?thesis using same_ring_facts(4,5) rb_moves_trans by blast
qed

section \<open>Reading messages\<close>

lemma scan_message_complete:
  "scan_message rb (seq_nth (rb_startSeq rb) k) msgNo (int k) = ScanComplete n \<Longrightarrow> rb_inv rb \<Longrightarrow>
   int k < n \<and> (\<forall>j. k \<le> j \<and> j < nat n \<longrightarrow> re_state (rb_at rb j) = EntryAvailable)"
proof (induction rb "seq_nth (rb_startSeq rb) k" msgNo "int k" arbitrary: k rule: scan_message.induct)
  case (1 rb msgNo k)
  let ?e = "rb_at rb k"
  note e = rb_entry_at [OF "1.prems"(2), of k]
  have inc: "Inc (seq_nth (rb_startSeq rb) k) = seq_nth (rb_startSeq rb) (Suc k)"
    by (simp add: Inc_eq_nth)
  from "1.prems"(1) have st: "re_state ?e = EntryAvailable" "MessageNumber (Header (re_pkt ?e)) = msgNo"
    by (subst (asm) scan_message.simps; simp add: e Let_def split: if_splits)+
  show ?case
  proof (cases "is_last_pos (PacketPosition (Header (re_pkt ?e)))")
    case True
    then have "n = int k + 1"
      using "1.prems"(1) st by (subst (asm) scan_message.simps) (simp add: e Let_def)
    then have "nat n = Suc k" by simp
    then show ?thesis using st(1) \<open>n = int k + 1\<close> by (auto simp: less_Suc_eq_le)
  next
    case False
    have ngt: "\<not> int (length (rb_entries rb)) < int k + 1"
      and rec: "scan_message rb (seq_nth (rb_startSeq rb) (Suc k)) msgNo (int (Suc k)) = ScanComplete n"
      using "1.prems"(1) st False
      by (subst (asm) scan_message.simps; simp add: e Let_def inc add.commute split: if_splits)+
    have "int (Suc k) < n \<and> (\<forall>j. Suc k \<le> j \<and> j < nat n \<longrightarrow> re_state (rb_at rb j) = EntryAvailable)"
      by (rule "1.hyps" [OF refl _ _ _ _ _ _ rec "1.prems"(2)])
        (use st False ngt e inc in auto)
    moreover have "k \<le> j \<Longrightarrow> j = k \<or> Suc k \<le> j" for j by linarith
    ultimately show ?thesis using st(1) by (metis less_trans lessI of_nat_less_iff)
  qed
qed

lemma scan_message_stored:
  assumes "rb_inv rb" "scan_message rb (rb_startSeq rb) msgNo 0 = ScanComplete n" "j < nat n"
  shows "rb_pkt rb j = Some (re_pkt (rb_at rb j))"
proof -
  have av: "re_state (rb_at rb i) = EntryAvailable" if "i < nat n" for i
    using scan_message_complete [of rb 0 msgNo n] assms that rb_invD(3) [OF assms(1)] by simp
  have "nat n \<le> rb_len rb"
  proof (rule ccontr)
    assume "\<not> nat n \<le> rb_len rb"
    then have "rb_pkt rb (rb_len rb) = Some (re_pkt (rb_at rb (rb_len rb)))"
      using av rb_len_eq(3) [OF assms(1)] by (simp add: rb_pkt_def)
    then show False using rb_inv_pkt(1) [OF assms(1)] by blast
  qed
  then show ?thesis using av assms(3) rb_len_eq(3) [OF assms(1)] by (simp add: rb_pkt_def)
qed

lemma consume_moves:
  "rb_inv rb \<Longrightarrow> (\<And>j. j < n \<Longrightarrow> rb_pkt rb j = Some (f j)) \<Longrightarrow>
   rb_inv (fst (consume n rb)) \<and> rb_moves n rb (fst (consume n rb)) \<and> snd (consume n rb) = map f [0..<n]"
proof (induction n arbitrary: rb f)
  case 0
  then show ?case by simp
next
  case (Suc n)
  have p0: "re_state (rb_at rb 0) = EntryAvailable" "re_pkt (rb_at rb 0) = f 0"
    using Suc.prems(2) [of 0] by (auto simp: rb_pkt_def split: if_splits)
  let ?rb = "rb_advance (count_ooo_out rb (f 0))"
  have s: "rb_inv ?rb" "rb_moves 1 rb ?rb" using count_advance_step [OF Suc.prems(1) p0(1)] by blast+
  have "rb_pkt ?rb j = Some (f (Suc j))" if "j < n" for j
    using s(2) Suc.prems(2) [of "Suc j"] that by (simp add: rb_moves_def)
  note ih = Suc.IH [OF s(1) this]
  have e: "re_pkt (rb_entry rb (rb_startSeq rb)) = f 0" using p0 rb_entry_head [OF Suc.prems(1)] by simp
  have "consume (Suc n) rb = (fst (consume n ?rb), f 0 # snd (consume n ?rb))"
    by (simp add: e Let_def split: prod.splits)
  moreover have "rb_moves (Suc n) rb (fst (consume n ?rb))"
    using rb_moves_trans [OF s(2)] ih by (metis plus_1_eq_Suc)
  moreover have "map f [0..<Suc n] = f 0 # map (\<lambda>j. f (Suc j)) [0..<n]"
    by (simp only: upt_conv_Cons [OF zero_less_Suc] list.map map_Suc_upt [symmetric] map_map comp_def)
  ultimately show ?case using ih by simp
qed

lemma readMessageInOrder_moves:
  assumes inv: "rb_inv rb" and av: "re_state (rb_at rb 0) = EntryAvailable"
  shows "rb_inv (fst (readMessageInOrder rb)) \<and>
    (\<exists>n k. k \<le> n \<and> rb_moves n rb (fst (readMessageInOrder rb)) \<and>
       map (rb_pkt rb) [0..<k] = map Some (fst (snd (readMessageInOrder rb))))"
proof -
  let ?e = "rb_at rb 0" and ?r = "readMessageInOrder rb"
  have e: "rb_entry rb (rb_startSeq rb) = ?e" by (rule rb_entry_head [OF inv])
  have skip: "rb_inv (skip_head rb) \<and> (\<exists>n k. k \<le> n \<and> rb_moves n rb (skip_head rb) \<and>
       map (rb_pkt rb) [0..<k] = map Some [])"
    using skip_head_moves [OF inv av] by (metis le0 list.map(1) upt_0)
  have take: "rb_inv (after_in_order_read rb') \<and> (\<exists>n' k. k \<le> n' \<and> rb_moves n' rb (after_in_order_read rb') \<and>
       map (rb_pkt rb) [0..<k] = map Some ps)"
    if "rb_inv rb'" "rb_moves n rb rb'" "map (rb_pkt rb) [0..<n] = map Some ps" for rb' n ps
    using after_in_order_moves [OF that(1)] rb_moves_trans [OF that(2)] that(3) by (metis le_add1)
  consider (single) "PacketPosition (Header (re_pkt ?e)) = PositionSingle"
    | (bad) "PacketPosition (Header (re_pkt ?e)) \<noteq> PositionSingle" "PacketPosition (Header (re_pkt ?e)) \<noteq> PositionFirst"
    | (multi) "PacketPosition (Header (re_pkt ?e)) \<noteq> PositionSingle" "PacketPosition (Header (re_pkt ?e)) = PositionFirst"
    by blast
  then show ?thesis
  proof cases
    case single
    then have "?r = (after_in_order_read (rb_advance (count_ooo_out rb (re_pkt ?e))), [re_pkt ?e], True)"
      by (simp add: readMessageInOrder_def e Let_def)
    moreover have "map (rb_pkt rb) [0..<1] = map Some [re_pkt ?e]" using rb_pkt_head [OF inv av] by simp
    ultimately show ?thesis using take count_advance_step [OF inv av] by (metis fst_conv snd_conv)
  next
    case bad
    then have "?r = (skip_head rb, [], False)" by (simp add: readMessageInOrder_def e Let_def)
    then show ?thesis using skip by simp
  next
    case multi
    let ?s = "scan_message rb (rb_startSeq rb) (MessageNumber (Header (re_pkt ?e))) 0"
    show ?thesis
    proof (cases ?s)
      case ScanGap
      then have "?r = (rb, [], False)" using multi by (simp add: readMessageInOrder_def e Let_def)
      then show ?thesis using inv rb_moves_refl by (metis fst_conv le_refl list.map(1) snd_conv upt_0)
    next
      case ScanMismatch
      then have "?r = (skip_head rb, [], False)" using multi by (simp add: readMessageInOrder_def e Let_def)
      then show ?thesis using skip by simp
    next
      case (ScanComplete n)
      let ?c = "consume (nat n) rb"
      have "?r = (after_in_order_read (fst ?c), snd ?c, True)"
        using ScanComplete multi by (simp add: readMessageInOrder_def e Let_def split: prod.splits)
      moreover note c = consume_moves [OF inv scan_message_stored [OF inv ScanComplete]]
      moreover have "map (rb_pkt rb) [0..<nat n] = map Some (snd ?c)"
        using c scan_message_stored [OF inv ScanComplete] by simp
      ultimately show ?thesis using take by (metis fst_conv snd_conv)
    qed
  qed
qed

lemma ReadMessage_moves:
  assumes "rb_inv rb" "rb_firstReadableOOO rb < 0"
  shows "rb_inv (fst (ReadMessage rb)) \<and>
    (\<exists>n k. k \<le> n \<and> rb_moves n rb (fst (ReadMessage rb)) \<and>
       map (rb_pkt rb) [0..<k] = map Some (fst (snd (ReadMessage rb))))"
proof (cases "canReadInOrder rb")
  case True
  then have "ReadMessage rb = readMessageInOrder rb" "re_state (rb_at rb 0) = EntryAvailable"
    using rb_entry_head [OF assms(1)] by (simp_all add: ReadMessage_def canReadInOrder_def)
  then show ?thesis using readMessageInOrder_moves [OF assms(1)] by simp
next
  case False
  then have "ReadMessage rb = (rb, [], False)" using assms(2) by (simp add: ReadMessage_def)
  then show ?thesis using assms(1) rb_moves_refl by (metis fst_conv le_refl list.map(1) snd_conv upt_0)
qed

section \<open>Insertion\<close>

lemma in_window_iff:
  assumes inv: "rb_inv rb" and s: "valid_seq s"
  shows "\<not> LessThan s (rb_startSeq rb) \<and> 0 \<le> Distance (rb_startSeq rb) s \<and>
         Distance (rb_startSeq rb) s < int (length (rb_entries rb)) - 1
       \<longleftrightarrow> seq_off (rb_startSeq rb) s + 1 < length (rb_entries rb)"
proof -
  let ?a = "rb_startSeq rb" and ?c = "length (rb_entries rb)"
  note D = rb_invD [OF inv]
  have c: "?c < H31" "0 < ?c" using ring_cap_lt [OF D(1)] ring_cap_pos [OF D(1)] by auto
  consider "s = ?a" | "LessThan ?a s" "s \<noteq> ?a" | "LessThan s ?a" "s \<noteq> ?a" "\<not> LessThan ?a s"
    using LessThan_linear [of s ?a] LessThan_asym LessThan_neq by blast
  then show ?thesis
  proof cases
    case 1
    then show ?thesis using c by (simp add: Distance_def)
  next
    case 2
    then have "Distance ?a s = int (seq_off ?a s)" "\<not> LessThan s ?a"
      using Distance_eq [OF D(3) s] LessThan_asym by auto
    then show ?thesis by auto
  next
    case 3
    have "\<not> seq_off ?a s < H31" using 3 LessThan_off_lt [OF D(3) s] by auto
    then show ?thesis using 3 c by auto
  qed
qed

lemma seq_off_from_max:
  assumes inv: "rb_inv rb" and k: "Suc k < length (rb_entries rb)"
  shows "LessThan (rb_maxSeq rb) (seq_nth (rb_startSeq rb) (Suc k)) \<or> rb_maxSeq rb = rb_startSeq rb \<longleftrightarrow> rb_len rb \<le> k"
proof -
  let ?a = "rb_startSeq rb" and ?m = "rb_maxSeq rb" and ?c = "length (rb_entries rb)"
  note D = rb_invD [OF inv]
  have c: "?c < H31" using ring_cap_lt [OF D(1)] by auto
  show ?thesis
  proof (cases "seq_off ?a ?m < ?c")
    case True
    then have l: "rb_len rb = seq_off ?a ?m" using rb_len_eq(2) [OF inv] by simp
    have m: "seq_nth ?a (rb_len rb) = ?m" unfolding l by (rule seq_nth_off [OF D(3,4)])
    have "LessThan (seq_nth ?a (rb_len rb)) (seq_nth ?a (Suc k)) \<longleftrightarrow> rb_len rb < Suc k"
      by (rule LessThan_window [OF D(3)]) (use rb_len_eq(3) [OF inv] k c in linarith)+
    moreover have "?m = ?a \<Longrightarrow> rb_len rb = 0" using l by simp
    ultimately show ?thesis unfolding m less_Suc_eq_le by auto
  next
    case False
    then have x: "seq_off ?m ?a + ?c \<le> H31" using D(5) by blast
    have l: "rb_len rb = 0" using False rb_len_eq(2) [OF inv] by simp
    have n: "seq_nth ?a (Suc k) = seq_nth ?m (seq_off ?m ?a + Suc k)"
      using seq_nth_nth [of ?m "seq_off ?m ?a" "Suc k"] D by simp
    have "LessThan (seq_nth ?m 0) (seq_nth ?m (seq_off ?m ?a + Suc k))"
      using LessThan_window [OF D(4), of 0 "seq_off ?m ?a + Suc k"] x k by simp
    then show ?thesis using n l D by simp
  qed
qed

lemma Insert_result:
  assumes inv: "rb_inv rb" and s: "valid_seq (SequenceNumber (Header p))"
  defines "k \<equiv> seq_off (rb_startSeq rb) (SequenceNumber (Header p))"
  shows "Inserted (snd (Insert rb p ts)) \<longleftrightarrow>
           k + 1 < length (rb_entries rb) \<and> re_state (rb_at rb k) = EntryEmpty"
    and "\<not> Inserted (snd (Insert rb p ts)) \<Longrightarrow> Insert rb p ts = (rb, zero_InsertResult)"
proof -
  let ?s = "SequenceNumber (Header p)"
  have e: "rb_entries rb ! rb_idx rb ?s = rb_at rb k"
    using rb_entry_at [OF inv, of k] s rb_invD(3) [OF inv] by (simp add: k_def rb_entry_def)
  note w = in_window_iff [OF inv s]
  show "Inserted (snd (Insert rb p ts)) \<longleftrightarrow>
           k + 1 < length (rb_entries rb) \<and> re_state (rb_at rb k) = EntryEmpty"
    unfolding k_def w [symmetric]
    by (auto simp: Insert_def Let_def zero_InsertResult_def e [unfolded k_def] k_def)
  show "\<not> Inserted (snd (Insert rb p ts)) \<Longrightarrow> Insert rb p ts = (rb, zero_InsertResult)"
    by (auto simp: Insert_def Let_def zero_InsertResult_def split: if_splits)
qed

lemma same_ring_onInsert:
  assumes "same_ring rb rb'" "rb_messageAPI rb"
  shows "same_ring rb (onInsertNotInOrderPacket rb' i)"
  using assms by (simp add: same_ring_def onInsertNotInOrderPacket_def Let_def)

lemma Insert_same_ring:
  assumes "Inserted (snd (Insert rb p ts))"
  shows "same_ring (insert_ring rb p ts) (fst (Insert rb p ts))"
proof -
  let ?r = "insert_ring rb p ts" and ?i = "rb_idx rb (SequenceNumber (Header p))"
  have api: "rb_messageAPI ?r = rb_messageAPI rb" by (simp add: insert_ring_def Let_def)
  have "fst (Insert rb p ts) =
      (if rb_messageAPI rb \<and> \<not> Order (Header p)
       then onInsertNotInOrderPacket (?r\<lparr>rb_numOutOfOrderPkts := rb_numOutOfOrderPkts ?r + 1\<rparr>) ?i else ?r)"
    using assms by (simp add: Insert_def insert_ring_def Let_def zero_InsertResult_def split: if_splits)
  moreover have "same_ring ?r (?r\<lparr>rb_numOutOfOrderPkts := n\<rparr>)" "same_ring ?r ?r" for n
    by (simp_all add: same_ring_def)
  ultimately show ?thesis using same_ring_onInsert api by metis
qed

lemma insert_ring_step:
  fixes ts :: Timestamp
  assumes inv: "rb_inv rb" and s: "valid_seq (SequenceNumber (Header p))"
    and k: "Suc (seq_off (rb_startSeq rb) (SequenceNumber (Header p))) < length (rb_entries rb)"
    and e: "re_state (rb_at rb (seq_off (rb_startSeq rb) (SequenceNumber (Header p)))) = EntryEmpty"
  defines "k \<equiv> seq_off (rb_startSeq rb) (SequenceNumber (Header p))"
  defines "rb' \<equiv> insert_ring rb p ts"
  shows "rb_inv rb'" "rb_pkt rb' = (rb_pkt rb)(k \<mapsto> p)" "rb_startSeq rb' = rb_startSeq rb"
    "length (rb_entries rb') = length (rb_entries rb)" "rb_len rb' = max (rb_len rb) (Suc k)"
    "\<And>j. j < length (rb_entries rb) \<Longrightarrow> j \<noteq> k \<Longrightarrow> rb_at rb' j = rb_at rb j"
    "rb_messageAPI rb' = rb_messageAPI rb" "rb_firstReadableOOO rb' = rb_firstReadableOOO rb"
proof -
  let ?a = "rb_startSeq rb" and ?m = "rb_maxSeq rb" and ?c = "length (rb_entries rb)"
    and ?s = "SequenceNumber (Header p)"
  let ?e = "\<lparr>re_pkt = p, re_state = EntryAvailable, re_arrivalTS = ts\<rparr>"
  note D = rb_invD [OF inv]
  note kc = k [folded k_def]
  have sk: "?s = seq_nth ?a k" using s D by (simp add: k_def)
  have idx: "rb_idx rb ?s = slot ?c ?a k" using rb_idx_slot [OF inv, of k] sk by simp
  have inc: "Inc ?s = seq_nth ?a (Suc k)" by (simp add: sk Inc_eq_nth)
  have flds: "rb_entries rb' = (rb_entries rb)[slot ?c ?a k := ?e]" "rb_startSeq rb' = ?a"
    "rb_mask rb' = rb_mask rb" "rb_size rb' = rb_size rb + 1"
    "rb_maxSeq rb' = (if rb_len rb \<le> k then seq_nth ?a (Suc k) else ?m)"
    using seq_off_from_max [OF inv kc] by (auto simp: rb'_def insert_ring_def Let_def idx inc)
  then show st: "rb_startSeq rb' = ?a" and len: "length (rb_entries rb') = ?c" by simp_all
  show "rb_messageAPI rb' = rb_messageAPI rb" "rb_firstReadableOOO rb' = rb_firstReadableOOO rb"
    by (simp_all add: rb'_def insert_ring_def Let_def)
  show at: "rb_at rb' j = rb_at rb j" if "j < ?c" "j \<noteq> k" for j
    using slot_eq_iff [of k ?c j ?a] that kc by (simp add: rb_at_def flds)
  have atk: "rb_at rb' k = ?e" using D kc by (simp add: rb_at_def flds)
  show pkt: "rb_pkt rb' = (rb_pkt rb)(k \<mapsto> p)"
  proof
    fix j
    show "rb_pkt rb' j = ((rb_pkt rb)(k \<mapsto> p)) j"
      using at [of j] atk kc by (cases "j = k") (auto simp: rb_pkt_def len)
  qed
  have cH: "?c < H31" using ring_cap_lt [OF D(1)] .
  have kM: "Suc k < M31" using kc cH by linarith
  have off: "seq_off ?a (rb_maxSeq rb') < ?c \<and> seq_off ?a (rb_maxSeq rb') = max (rb_len rb) (Suc k)"
  proof (cases "rb_len rb \<le> k")
    case True
    then show ?thesis using kc seq_off_nth_lt [OF D(3) kM] by (simp add: flds)
  next
    case False
    then have "rb_len rb = seq_off ?a ?m" using rb_len_eq(2) [OF inv] by (auto split: if_splits)
    then show ?thesis using False rb_len_eq(3) [OF inv] by (simp add: flds)
  qed
  have vm: "valid_seq (rb_maxSeq rb')" using D by (simp add: flds)
  have "LessThan ?a (rb_maxSeq rb')"
  proof (rule LessThan_off_lt [OF D(3) vm, THEN iffD2])
    show "seq_off ?a (rb_maxSeq rb') < H31" using off cH by linarith
    show "?a \<noteq> rb_maxSeq rb'" using off seq_off_self [of ?a] by auto
  qed
  then show ln: "rb_len rb' = max (rb_len rb) (Suc k)" using off by (simp add: rb_len_def st)
  have sz: "rb_size rb' = int (length (filter is_avail (rb_entries rb')))"
    using length_filter_update [of "slot ?c ?a k" "rb_entries rb" is_avail ?e] D e [folded k_def]
    by (simp add: flds rb_at_def is_avail_def)
  have "j < rb_len rb' \<and> SequenceNumber (Header q) = seq_nth ?a j" if "rb_pkt rb' j = Some q" for j q
    using that rb_inv_pkt [OF inv, of j q] sk by (auto simp: pkt ln split: if_splits)
  then show "rb_inv rb'"
    unfolding rb_inv_def Let_def len st using D off vm sz flds(3) by auto
qed

lemma Insert_step:
  assumes inv: "rb_inv rb" and s: "valid_seq (SequenceNumber (Header p))"
    and i: "Inserted (snd (Insert rb p ts))"
  defines "k \<equiv> seq_off (rb_startSeq rb) (SequenceNumber (Header p))"
  defines "rb' \<equiv> fst (Insert rb p ts)"
  shows "rb_inv rb'" "rb_pkt rb' = (rb_pkt rb)(k \<mapsto> p)" "rb_startSeq rb' = rb_startSeq rb"
    "length (rb_entries rb') = length (rb_entries rb)" "rb_len rb' = max (rb_len rb) (Suc k)"
    "\<And>j. j < length (rb_entries rb) \<Longrightarrow> j \<noteq> k \<Longrightarrow> rb_at rb' j = rb_at rb j"
    "rb_messageAPI rb' = rb_messageAPI rb"
    "\<not> rb_messageAPI rb \<Longrightarrow> rb_firstReadableOOO rb' = rb_firstReadableOOO rb"
    "rb_pkt rb k = None" "k + 1 < length (rb_entries rb)" "SequenceNumber (Header p) = seq_nth (rb_startSeq rb) k"
proof -
  have w: "Suc (seq_off (rb_startSeq rb) (SequenceNumber (Header p))) < length (rb_entries rb)"
    and e: "re_state (rb_at rb (seq_off (rb_startSeq rb) (SequenceNumber (Header p)))) = EntryEmpty"
    using i Insert_result(1) [OF inv s, of ts] by simp_all
  note S = insert_ring_step [OF inv s w e, where ts = ts]
  note R = Insert_same_ring [OF i]
  note F = same_ring_facts [OF R]
  show "rb_inv rb'" "rb_pkt rb' = (rb_pkt rb)(k \<mapsto> p)" "rb_len rb' = max (rb_len rb) (Suc k)"
    using S F by (simp_all add: rb'_def k_def)
  show "rb_startSeq rb' = rb_startSeq rb" "length (rb_entries rb') = length (rb_entries rb)"
    "rb_messageAPI rb' = rb_messageAPI rb"
    "\<not> rb_messageAPI rb \<Longrightarrow> rb_firstReadableOOO rb' = rb_firstReadableOOO rb"
    using S R by (simp_all add: rb'_def same_ring_def)
  show "rb_at rb' j = rb_at rb j" if "j < length (rb_entries rb)" "j \<noteq> k" for j
    using S(6) [OF that(1)] that F by (simp add: rb'_def k_def)
  show "rb_pkt rb k = None" "k + 1 < length (rb_entries rb)" using w e by (simp_all add: k_def rb_pkt_def)
  show "SequenceNumber (Header p) = seq_nth (rb_startSeq rb) k"
    using s rb_invD(3) [OF inv] by (simp add: k_def)
qed

lemma New_inv:
  assumes "capacity \<le> 2 ^ 29" "valid_seq isn"
  shows "rb_inv (NewRecvBuffer capacity isn)" "rb_pkt (NewRecvBuffer capacity isn) j = None"
    "rb_startSeq (NewRecvBuffer capacity isn) = isn"
    "rb_len (NewRecvBuffer capacity isn) = 0" "\<not> rb_messageAPI (NewRecvBuffer capacity isn)"
    "rb_firstReadableOOO (NewRecvBuffer capacity isn) < 0"
    "j < length (rb_entries (NewRecvBuffer capacity isn)) \<Longrightarrow> re_state (rb_at (NewRecvBuffer capacity isn) j) = EntryEmpty"
    "length (rb_entries (NewRecvBuffer capacity isn)) = nat (nextPow2 capacity)"
proof -
  let ?n = "NewRecvBuffer capacity isn"
  note R = nextPow2_ring_cap [OF assms(1)]
  show "rb_startSeq ?n = isn" and l: "rb_len ?n = 0" and "\<not> rb_messageAPI ?n" and "rb_firstReadableOOO ?n < 0"
    and len: "length (rb_entries ?n) = nat (nextPow2 capacity)"
    by (simp_all add: NewRecvBuffer_def Let_def rb_len_def)
  have f: "rb_startSeq ?n = isn" "rb_maxSeq ?n = isn" "rb_size ?n = 0"
    "rb_mask ?n = nat (nextPow2 capacity - 1)" "rb_entries ?n = replicate (nat (nextPow2 capacity)) zero_recvEntry"
    by (simp_all add: NewRecvBuffer_def Let_def)
  have at: "re_state (rb_at ?n j) = EntryEmpty" if "j < nat (nextPow2 capacity)" for j
    using R by (simp add: rb_at_def f)
  then show "j < length (rb_entries ?n) \<Longrightarrow> re_state (rb_at ?n j) = EntryEmpty" by (simp add: len)
  have pk: "rb_pkt ?n j = None" for j using at by (simp add: rb_pkt_def len)
  then show "rb_pkt ?n j = None" .
  have "ring_cap (nat (nextPow2 capacity))" "nat (nextPow2 capacity - 1) = nat (nextPow2 capacity) - Suc 0"
    using R by auto
  then show "rb_inv ?n"
    unfolding rb_inv_def Let_def len f(1-4) using assms(2) pk
    by (auto simp: f(5) is_avail_def filter_replicate)
qed

section \<open>Acknowledgements and loss reports\<close>

text \<open>The loops that walk from the head to the highest number, as functions of the offsets.\<close>

lemma walk_step:
  assumes "rb_inv rb" "j \<le> rb_len rb"
  shows "LessThan (seq_nth (rb_startSeq rb) j) (rb_maxSeq rb) \<longleftrightarrow> j < rb_len rb"
proof (cases "rb_len rb = 0")
  case True
  then show ?thesis using assms rb_len_eq(1) [OF assms(1)] rb_invD(3) [OF assms(1)] by simp
next
  case False
  note D = rb_invD [OF assms(1)]
  have c: "length (rb_entries rb) < H31" using ring_cap_lt [OF D(1)] .
  have "rb_len rb = seq_off (rb_startSeq rb) (rb_maxSeq rb)"
    using False rb_len_eq(2) [OF assms(1)] by (auto split: if_splits)
  then have m: "seq_nth (rb_startSeq rb) (rb_len rb) = rb_maxSeq rb" using seq_nth_off [OF D(3,4)] by simp
  have "LessThan (seq_nth (rb_startSeq rb) j) (seq_nth (rb_startSeq rb) (rb_len rb)) \<longleftrightarrow> j < rb_len rb"
    by (rule LessThan_window [OF D(3)]) (use assms(2) rb_len_eq(3) [OF assms(1)] c in linarith)+
  then show ?thesis unfolding m .
qed

lemma loss_loop_eq:
  assumes "rb_inv rb" "j \<le> rb_len rb"
  shows "loss_loop rb (seq_nth (rb_startSeq rb) j) =
    map (seq_nth (rb_startSeq rb)) (filter (\<lambda>i. re_state (rb_at rb i) = EntryEmpty) [j..<rb_len rb])"
  using assms(2)
proof (induction "rb_len rb - j" arbitrary: j)
  case 0
  then show ?case using walk_step [OF assms(1), of j] by (subst loss_loop.simps) simp
next
  case (Suc n)
  then have j: "j < rb_len rb" by simp
  have "Inc (seq_nth (rb_startSeq rb) j) = seq_nth (rb_startSeq rb) (Suc j)" by (simp add: Inc_eq_nth)
  moreover have "loss_loop rb (seq_nth (rb_startSeq rb) (Suc j)) =
      map (seq_nth (rb_startSeq rb)) (filter (\<lambda>i. re_state (rb_at rb i) = EntryEmpty) [Suc j..<rb_len rb])"
    using Suc by simp
  ultimately show ?case
    using walk_step [OF assms(1), of j] j rb_entry_at [OF assms(1), of j]
    by (subst loss_loop.simps) (simp add: upt_conv_Cons Value_def)
qed

lemma GenerateLossList_eq:
  assumes "rb_inv rb"
  shows "GenerateLossList rb =
    map (seq_nth (rb_startSeq rb)) (filter (\<lambda>i. re_state (rb_at rb i) = EntryEmpty) [0..<rb_len rb])"
proof -
  have "rb_startSeq rb = rb_maxSeq rb \<Longrightarrow> rb_len rb = 0" by (simp add: rb_len_def)
  then show ?thesis
    using loss_loop_eq [OF assms, of 0] rb_invD(3) [OF assms] by (auto simp: GenerateLossList_def)
qed

lemma ack_loop_eq:
  assumes "rb_inv rb" "j \<le> rb_len rb"
  shows "\<exists>m. j \<le> m \<and> m \<le> rb_len rb \<and> ack_loop rb (seq_nth (rb_startSeq rb) j) = seq_nth (rb_startSeq rb) m \<and>
    (\<forall>i. j \<le> i \<and> i < m \<longrightarrow> re_state (rb_at rb i) \<noteq> EntryEmpty) \<and>
    (m < rb_len rb \<longrightarrow> re_state (rb_at rb m) = EntryEmpty)"
  using assms(2)
proof (induction "rb_len rb - j" arbitrary: j)
  case 0
  then have "ack_loop rb (seq_nth (rb_startSeq rb) j) = seq_nth (rb_startSeq rb) j"
    using walk_step [OF assms(1), of j] by (subst ack_loop.simps) simp
  then show ?case using 0 by (intro exI [of _ j]) auto
next
  case (Suc n)
  then have j: "j < rb_len rb" by simp
  have inc: "Inc (seq_nth (rb_startSeq rb) j) = seq_nth (rb_startSeq rb) (Suc j)" by (simp add: Inc_eq_nth)
  have w: "LessThan (seq_nth (rb_startSeq rb) j) (rb_maxSeq rb)" using walk_step [OF assms(1), of j] j by simp
  note e = rb_entry_at [OF assms(1), of j]
  show ?case
  proof (cases "re_state (rb_at rb j) = EntryEmpty")
    case True
    then have "ack_loop rb (seq_nth (rb_startSeq rb) j) = seq_nth (rb_startSeq rb) j"
      using w e by (subst ack_loop.simps) simp
    then show ?thesis using True j by (intro exI [of _ j]) auto
  next
    case False
    then have a: "ack_loop rb (seq_nth (rb_startSeq rb) j) = ack_loop rb (seq_nth (rb_startSeq rb) (Suc j))"
      using w e inc by (subst ack_loop.simps) simp
    have "n = rb_len rb - Suc j" "Suc j \<le> rb_len rb" using Suc.hyps(2) j by simp_all
    from Suc.hyps(1) [OF this] a False show ?thesis by (metis Suc_leD Suc_leI le_neq_implies_less)
  qed
qed

section \<open>The interface to the connection\<close>

lemma from_store_mono:
  "list_all2 (from_store isn A) ps js \<Longrightarrow> A \<subseteq> B \<Longrightarrow> list_all2 (from_store isn B) ps js"
  by (erule list_all2_mono) (auto simp: from_store_def)

locale recv_store =
  fixes inv :: "'b \<Rightarrow> bool" and start :: "'b \<Rightarrow> Number" and store :: "'b \<Rightarrow> nat \<Rightarrow> Packet option"
    and ok :: "rb_op \<Rightarrow> 'b \<Rightarrow> bool" and step :: "rb_op \<Rightarrow> 'b \<Rightarrow> 'b \<times> rb_out"
  assumes inv_step: "inv b \<Longrightarrow> ok opn b \<Longrightarrow> inv (fst (step opn b))"
    and store_seq: "inv b \<Longrightarrow> store b j = Some p \<Longrightarrow> SequenceNumber (Header p) = seq_nth (start b) j"
    and step_moves: "inv b \<Longrightarrow> ok opn b \<Longrightarrow>
      \<exists>n k. k \<le> n \<and> start (fst (step opn b)) = seq_nth (start b) n \<and>
        map (store b) [0..<k] = map Some (delivered (snd (step opn b))) \<and>
        (\<forall>j p. store (fst (step opn b)) j = Some p \<longrightarrow>
               store b (n + j) = Some p \<or> p \<in> set (rb_accepted opn (snd (step opn b))))"
begin

lemma step_delivers:
  assumes "inv b" "ok opn b" "start b = seq_nth isn base"
  shows "\<exists>k n. k \<le> n \<and> start (fst (step opn b)) = seq_nth isn (base + n) \<and>
    list_all2 (from_store isn (ran (store b))) (delivered (snd (step opn b))) [base..<base + k] \<and>
    ran (store (fst (step opn b))) \<subseteq> ran (store b) \<union> set (rb_accepted opn (snd (step opn b)))"
proof -
  let ?D = "delivered (snd (step opn b))"
  obtain n k where nk: "k \<le> n" "start (fst (step opn b)) = seq_nth (start b) n"
    "map (store b) [0..<k] = map Some ?D"
    "\<forall>j p. store (fst (step opn b)) j = Some p \<longrightarrow>
      store b (n + j) = Some p \<or> p \<in> set (rb_accepted opn (snd (step opn b)))"
    using step_moves [OF assms(1,2)] by blast
  have len: "length ?D = k" using nk(3) by (metis diff_zero length_map length_upt)
  have st: "store b i = Some (?D ! i)" if "i < k" for i
  proof -
    have "map (store b) [0..<k] ! i = map Some ?D ! i" using nk(3) by simp
    then show ?thesis using that len by simp
  qed
  have "list_all2 (from_store isn (ran (store b))) ?D [base..<base + k]"
    unfolding list_all2_conv_all_nth using st store_seq [OF assms(1) st] assms(3) len
    by (auto simp: from_store_def ran_def)
  moreover have "ran (store (fst (step opn b))) \<subseteq> ran (store b) \<union> set (rb_accepted opn (snd (step opn b)))"
    using nk(4) by (auto simp: ran_def)
  ultimately show ?thesis using nk(1,2) assms(3) by (metis seq_nth_nth)
qed

lemma run_delivers:
  "inv b \<Longrightarrow> ops_ok ok step ops b \<Longrightarrow> start b = seq_nth isn base \<Longrightarrow> run_ops step ops b = (b', outs) \<Longrightarrow>
   inv b' \<and> (\<exists>ks n. sorted_wrt (<) ks \<and> (\<forall>k \<in> set ks. base \<le> k \<and> k < n) \<and> start b' = seq_nth isn n \<and> base \<le> n \<and>
     list_all2 (from_store isn (ran (store b) \<union> set (all_accepted ops outs))) (all_delivered outs) ks)"
proof (induction ops arbitrary: b base outs)
  case Nil
  then show ?case by (auto simp: all_delivered_def intro!: exI [of _ "[]"] exI [of _ base])
next
  case (Cons opn ops)
  obtain b1 o1 where s: "step opn b = (b1, o1)" by fastforce
  obtain outs' where r: "run_ops step ops b1 = (b', outs')" "outs = o1 # outs'"
    using Cons.prems(4) s by (auto split: prod.splits)
  have i1: "inv b1" "ops_ok ok step ops b1" using Cons.prems inv_step [of b opn] s by auto
  obtain k n where k: "k \<le> n" "start b1 = seq_nth isn (base + n)"
    "list_all2 (from_store isn (ran (store b))) (delivered o1) [base..<base + k]"
    "ran (store b1) \<subseteq> ran (store b) \<union> set (rb_accepted opn o1)"
    using step_delivers [of b opn isn base] Cons.prems s by auto
  from Cons.IH [OF i1 k(2) r(1)] obtain ks m where ks: "inv b'" "sorted_wrt (<) ks"
    "\<forall>x \<in> set ks. base + n \<le> x \<and> x < m" "start b' = seq_nth isn m" "base + n \<le> m"
    "list_all2 (from_store isn (ran (store b1) \<union> set (all_accepted ops outs'))) (all_delivered outs') ks" by blast
  let ?A = "ran (store b) \<union> set (all_accepted (opn # ops) outs)"
  have acc: "set (all_accepted (opn # ops) outs) = set (rb_accepted opn o1) \<union> set (all_accepted ops outs')"
    by (simp add: all_accepted_def r)
  have "list_all2 (from_store isn ?A) (delivered o1 @ all_delivered outs') ([base..<base + k] @ ks)"
    by (rule list_all2_appendI) (rule from_store_mono [OF k(3)] from_store_mono [OF ks(6)]; use k(4) acc in blast)+
  moreover have "sorted_wrt (<) ([base..<base + k] @ ks)"
    using ks(2,3) k(1) by (auto simp: sorted_wrt_append)
  moreover have "\<forall>x \<in> set ([base..<base + k] @ ks). base \<le> x \<and> x < m" using ks(3,5) k(1) by auto
  ultimately show ?case
    using ks(1,4,5) unfolding all_delivered_def r by (intro conjI exI [of _ "[base..<base + k] @ ks"] exI [of _ m]) auto
qed

end

text \<open>
  A trace without drops delivers without gaps: every operation moves the head by exactly what it
  delivers.
\<close>

locale lossless_recv_store = recv_store +
  assumes lossless_moves: "inv b \<Longrightarrow> ok opn b \<Longrightarrow> lossless opn \<Longrightarrow>
    start (fst (step opn b)) = seq_nth (start b) (length (delivered (snd (step opn b))))"
begin

lemma run_gapless:
  "inv b \<Longrightarrow> ops_ok ok step ops b \<Longrightarrow> list_all lossless ops \<Longrightarrow> start b = seq_nth isn base \<Longrightarrow>
   run_ops step ops b = (b', outs) \<Longrightarrow>
   start b' = seq_nth isn (base + length (all_delivered outs)) \<and>
   map (\<lambda>p. SequenceNumber (Header p)) (all_delivered outs) =
     map (seq_nth isn) [base..<base + length (all_delivered outs)]"
proof (induction ops arbitrary: b base outs)
  case Nil
  then show ?case by (auto simp: all_delivered_def)
next
  case (Cons opn ops)
  obtain b1 o1 where s: "step opn b = (b1, o1)" by fastforce
  obtain outs' where r: "run_ops step ops b1 = (b', outs')" "outs = o1 # outs'"
    using Cons.prems(5) s by (auto split: prod.splits)
  have i1: "inv b1" "ops_ok ok step ops b1" "list_all lossless ops"
    using Cons.prems inv_step [of b opn] s by auto
  let ?k = "length (delivered o1)"
  have b1: "start b1 = seq_nth isn (base + ?k)"
    using lossless_moves [of b opn] Cons.prems s by simp
  obtain k n where k: "list_all2 (from_store isn (ran (store b))) (delivered o1) [base..<base + k]"
    using step_delivers [of b opn isn base] Cons.prems s by auto
  then have kk: "k = ?k" by (auto dest: list_all2_lengthD)
  have d: "map (\<lambda>p. SequenceNumber (Header p)) (delivered o1) = map (seq_nth isn) [base..<base + ?k]"
    using k unfolding kk by (auto simp: list_all2_conv_all_nth from_store_def intro!: nth_equalityI)
  have u: "[base..<base + (?k + l)] = [base..<base + ?k] @ [base + ?k..<base + ?k + l]" for l
    using upt_add_eq_append [of base "base + ?k" l] by (simp add: add.assoc)
  note ih = Cons.IH [OF i1 b1 r(1)]
  then show ?case using d by (simp add: all_delivered_def r u add.assoc)
qed

end

lemma rb_step_eqs:
  "rb_step (OpInsert p ts) rb = (fst (Insert rb p ts), OutInsert (snd (Insert rb p ts)))"
  "rb_step OpReadMessage rb = (fst (ReadMessage rb), OutPkts (fst (snd (ReadMessage rb))))"
  "rb_step (OpDrop u) rb = (fst (Drop rb u), OutCount (fst (snd (Drop rb u))))"
  "rb_step (OpDropTooLate now dt) rb = (fst (DropTooLate rb now dt), OutCount (snd (DropTooLate rb now dt)))"
  by (simp_all add: case_prod_unfold)

lemma in_order_moves: "in_order_inv rb \<Longrightarrow> rb_inv rb' \<Longrightarrow> rb_moves n rb rb' \<Longrightarrow> in_order_inv rb'"
  by (simp add: in_order_inv_def rb_moves_def)

lemma step_effectI:
  assumes "in_order_inv rb" "rb_inv (fst (rb_step opn rb))" "rb_moves n rb (fst (rb_step opn rb))" "k \<le> n"
    "map (rb_pkt rb) [0..<k] = map Some (delivered (snd (rb_step opn rb)))" "lossless opn \<longrightarrow> n = k"
  shows "step_effect rb opn"
  unfolding step_effect_def
  by (rule conjI [OF in_order_moves [OF assms(1-3)]], rule exI [of _ n], rule exI [of _ k])
    (use assms(3-6) in \<open>simp add: rb_moves_def\<close>)

lemma read_effect:
  assumes "in_order_inv rb"
    "rb_step opn rb = (if re_state (rb_at rb 0) = EntryAvailable \<and> P then (rb_advance rb, OutPkts [re_pkt (rb_at rb 0)])
                       else (rb, OutPkts []))"
  shows "step_effect rb opn"
proof (cases "re_state (rb_at rb 0) = EntryAvailable \<and> P")
  case True
  have inv: "rb_inv rb" using assms(1) by (simp add: in_order_inv_def)
  have s: "rb_step opn rb = (rb_advance rb, OutPkts [re_pkt (rb_at rb 0)])" using True assms(2) by simp
  show ?thesis
  proof (rule step_effectI [OF assms(1), of opn 1 1])
    show "rb_inv (fst (rb_step opn rb))" "rb_moves 1 rb (fst (rb_step opn rb))"
      using rb_advance_step [OF inv] True by (simp_all add: s)
    show "map (rb_pkt rb) [0..<1] = map Some (delivered (snd (rb_step opn rb)))"
      using rb_pkt_head [OF inv] True by (simp add: s)
  qed simp_all
next
  case False
  then have s: "rb_step opn rb = (rb, OutPkts [])" using assms(2) by auto
  show ?thesis
    by (rule step_effectI [OF assms(1), of opn 0 0]) (use assms(1) in \<open>simp_all add: s in_order_inv_def\<close>)
qed

lemma Insert_effect:
  assumes "in_order_inv rb" "valid_seq (SequenceNumber (Header p))"
  shows "step_effect rb (OpInsert p ts)"
proof (cases "Inserted (snd (Insert rb p ts))")
  case True
  have inv: "rb_inv rb" and api: "\<not> rb_messageAPI rb" "rb_firstReadableOOO rb < 0"
    using assms(1) by (auto simp: in_order_inv_def)
  note S = Insert_step [OF inv assms(2) True]
  let ?o = "rb_step (OpInsert p ts) rb"
  note o = rb_step_eqs(1)
  have "in_order_inv (fst ?o)" using S(1,7,8) api by (simp add: o in_order_inv_def del: rb_step.simps)
  moreover have "rb_startSeq (fst ?o) = seq_nth (rb_startSeq rb) 0" using S(3) rb_invD(3) [OF inv] by (simp add: o del: rb_step.simps)
  moreover have "rb_pkt (fst ?o) j = Some q \<Longrightarrow> rb_pkt rb (0 + j) = Some q \<or> q \<in> set (rb_accepted (OpInsert p ts) (snd ?o))" for j q
    using S(2) True by (auto simp: o simp del: rb_step.simps split: if_splits)
  moreover have "map (rb_pkt rb) [0..<0] = map Some (delivered (snd ?o))" by (simp add: o del: rb_step.simps)
  ultimately show ?thesis unfolding step_effect_def by blast
next
  case False
  have inv: "rb_inv rb" using assms(1) by (auto simp: in_order_inv_def)
  have "rb_step (OpInsert p ts) rb = (rb, OutInsert zero_InsertResult)"
    using Insert_result(2) [OF inv assms(2) False] by simp
  then show ?thesis using step_effectI [OF assms(1), of "OpInsert p ts" 0 0] inv by auto
qed

lemma rb_step_effect:
  assumes "in_order_inv rb" "rb_op_ok opn rb"
  shows "step_effect rb opn"
proof -
  have inv: "rb_inv rb" and o: "rb_firstReadableOOO rb < 0" using assms(1) by (simp_all add: in_order_inv_def)
  note e = rb_entry_head [OF inv]
  have E: "step_effect rb op'" if "rb_inv (fst (rb_step op' rb)) \<and> (\<exists>n. rb_moves n rb (fst (rb_step op' rb)))"
    "delivered (snd (rb_step op' rb)) = []" "\<not> lossless op'" for op'
    using that step_effectI [OF assms(1), of op' _ 0] by auto
  show ?thesis
  proof (cases opn)
    case (OpInsert p ts)
    then show ?thesis using Insert_effect assms by simp
  next
    case OpReadNext
    show ?thesis unfolding OpReadNext
      by (rule read_effect [OF assms(1), where P = True]) (simp add: ReadNext_def e)
  next
    case (OpReadTSBPD now dt)
    show ?thesis unfolding OpReadTSBPD
      by (rule read_effect [OF assms(1), where P = "\<not> Before now (dt (Timestamp (Header (re_pkt (rb_at rb 0)))))"])
        (simp add: ReadTSBPD_def e Let_def)
  next
    case (OpReadMessageTSBPD now dt)
    show ?thesis unfolding OpReadMessageTSBPD
      by (rule read_effect [OF assms(1), where P = "\<not> Before now (dt (Timestamp (Header (re_pkt (rb_at rb 0)))))"])
        (simp add: ReadMessageTSBPD_def e Let_def)
  next
    case OpReadMessage
    obtain n k where "k \<le> n" "rb_moves n rb (fst (ReadMessage rb))" "rb_inv (fst (ReadMessage rb))"
      "map (rb_pkt rb) [0..<k] = map Some (fst (snd (ReadMessage rb)))"
      using ReadMessage_moves [OF inv o] by blast
    then show ?thesis
      unfolding OpReadMessage by (intro step_effectI [OF assms(1)]) (simp_all add: rb_step_eqs del: rb_step.simps)
  next
    case (OpDrop u)
    then show ?thesis using E [of opn] Drop_moves [OF inv, of u] assms(2) by (simp add: rb_step_eqs del: rb_step.simps)
  next
    case (OpDropTooLate now dt)
    then show ?thesis using E [of opn] DropTooLate_moves [OF inv, of now dt] by (simp add: rb_step_eqs del: rb_step.simps)
  qed
qed

interpretation recvbuf: lossless_recv_store in_order_inv rb_startSeq rb_pkt rb_op_ok rb_step
proof
  fix b :: RecvBuffer and opn :: rb_op
  assume i: "in_order_inv b" "rb_op_ok opn b"
  note E = rb_step_effect [OF i, unfolded step_effect_def]
  show "in_order_inv (fst (rb_step opn b))" using E by blast
  show "\<exists>n k. k \<le> n \<and> rb_startSeq (fst (rb_step opn b)) = seq_nth (rb_startSeq b) n \<and>
        map (rb_pkt b) [0..<k] = map Some (delivered (snd (rb_step opn b))) \<and>
        (\<forall>j p. rb_pkt (fst (rb_step opn b)) j = Some p \<longrightarrow>
               rb_pkt b (n + j) = Some p \<or> p \<in> set (rb_accepted opn (snd (rb_step opn b))))"
    using E by blast
  show "rb_startSeq (fst (rb_step opn b)) = seq_nth (rb_startSeq b) (length (delivered (snd (rb_step opn b))))"
    if l: "lossless opn"
  proof -
    obtain k where "rb_startSeq (fst (rb_step opn b)) = seq_nth (rb_startSeq b) k"
      "map (rb_pkt b) [0..<k] = map Some (delivered (snd (rb_step opn b)))" using E l by blast
    then show ?thesis by (metis diff_zero length_map length_upt)
  qed
next
  fix b :: RecvBuffer and j p
  assume "in_order_inv b" "rb_pkt b j = Some p"
  then show "SequenceNumber (Header p) = seq_nth (rb_startSeq b) j"
    using rb_inv_pkt(2) by (simp add: in_order_inv_def)
qed

lemma no_fillers_step:
  assumes "in_order_inv rb" "rb_op_ok opn rb" "lossless opn" "no_fillers rb"
  shows "no_fillers (fst (rb_step opn rb))"
proof -
  have adv: "no_fillers (rb_advance rb)"
    using assms(4) set_update_subset_insert [of "rb_entries rb"] by (fastforce simp: no_fillers_def rb_advance_def)
  have ins: "no_fillers (fst (Insert rb p ts))" for p ts
  proof (cases "Inserted (snd (Insert rb p ts))")
    case True
    have "rb_entries (fst (Insert rb p ts)) = rb_entries (insert_ring rb p ts)"
      using Insert_same_ring [OF True] by (simp add: same_ring_def)
    then show ?thesis using assms(4) set_update_subset_insert [of "rb_entries rb"]
      by (fastforce simp: no_fillers_def insert_ring_def Let_def)
  next
    case False
    then have "fst (Insert rb p ts) = rb"
      by (auto simp: Insert_def Let_def zero_InsertResult_def split: if_splits)
    then show ?thesis using assms(4) by simp
  qed
  show ?thesis using adv ins assms(3,4)
    by (cases opn) (simp_all add: ReadNext_def ReadTSBPD_def ReadMessageTSBPD_def Let_def case_prod_unfold)
qed

lemma run_no_fillers:
  "in_order_inv rb \<Longrightarrow> ops_ok rb_op_ok rb_step ops rb \<Longrightarrow> list_all lossless ops \<Longrightarrow> no_fillers rb \<Longrightarrow>
   no_fillers (fst (run_ops rb_step ops rb))"
proof (induction ops arbitrary: rb)
  case (Cons opn ops)
  then have "no_fillers (fst (run_ops rb_step ops (fst (rb_step opn rb))))"
    using no_fillers_step recvbuf.inv_step by simp
  then show ?case by (simp add: case_prod_unfold)
qed simp

lemma no_fillers_state:
  assumes "rb_inv rb" "no_fillers rb" "j < length (rb_entries rb)"
  shows "re_state (rb_at rb j) = EntryEmpty \<longleftrightarrow> rb_pkt rb j = None"
proof -
  have "rb_at rb j \<in> set (rb_entries rb)" using rb_invD(1) [OF assms(1)] by (simp add: rb_at_def)
  then show ?thesis using assms(2,3) by (auto simp: no_fillers_def rb_pkt_def)
qed

lemma data_packet_seq [simp]: "SequenceNumber (Header (data_packet s)) = s"
  by (simp add: data_packet_def)

lemma New_in_order:
  assumes "capacity \<le> 2 ^ 29" "valid_seq isn"
  shows "in_order_inv (NewRecvBuffer capacity isn)" "no_fillers (NewRecvBuffer capacity isn)"
    "rb_startSeq (NewRecvBuffer capacity isn) = seq_nth isn 0" "ran (rb_pkt (NewRecvBuffer capacity isn)) = {}"
proof -
  note N = New_inv [OF assms]
  show "in_order_inv (NewRecvBuffer capacity isn)" using N(1,5,6) by (simp add: in_order_inv_def)
  show "no_fillers (NewRecvBuffer capacity isn)" by (simp add: no_fillers_def NewRecvBuffer_def Let_def)
  show "rb_startSeq (NewRecvBuffer capacity isn) = seq_nth isn 0" using N(3) assms(2) by simp
  show "ran (rb_pkt (NewRecvBuffer capacity isn)) = {}" using N(2) by (auto simp: ran_def)
qed

lemma ack_no_fillers:
  assumes inv: "rb_inv rb" and nf: "no_fillers rb"
  shows "\<exists>m. ACKSequence rb = seq_nth (rb_startSeq rb) m \<and> (\<forall>i < m. rb_pkt rb i \<noteq> None) \<and> rb_pkt rb m = None"
proof -
  obtain m where m: "m \<le> rb_len rb" "ack_loop rb (rb_startSeq rb) = seq_nth (rb_startSeq rb) m"
    "\<forall>i. i < m \<longrightarrow> re_state (rb_at rb i) \<noteq> EntryEmpty" "m < rb_len rb \<longrightarrow> re_state (rb_at rb m) = EntryEmpty"
    using ack_loop_eq [OF inv, of 0] rb_invD(3) [OF inv] by auto
  have l: "rb_len rb < length (rb_entries rb)" using rb_len_eq(3) [OF inv] .
  have "rb_pkt rb i \<noteq> None" if "i < m" for i
    using m(1,3) l that no_fillers_state [OF inv nf, of i] by auto
  moreover have "rb_pkt rb m = None"
  proof (cases "m < rb_len rb")
    case True
    then show ?thesis using m(4) l no_fillers_state [OF inv nf, of m] by auto
  next
    case False
    then show ?thesis using rb_inv_pkt(1) [OF inv, of m] by (cases "rb_pkt rb m") auto
  qed
  ultimately show ?thesis using m(2) by (auto simp: ACKSequence_def)
qed

lemma loss_no_fillers:
  assumes inv: "rb_inv rb" and nf: "no_fillers rb"
  shows "GenerateLossList rb =
    map (seq_nth (rb_startSeq rb)) (filter (\<lambda>i. rb_pkt rb i = None) [0..<rb_len rb])"
  unfolding GenerateLossList_eq [OF inv]
  using rb_len_eq(3) [OF inv] no_fillers_state [OF inv nf]
  by (intro arg_cong [where f = "map _"] filter_cong) auto

lemma gap_iff:
  assumes inv: "rb_inv rb" and k: "k < length (rb_entries rb)" and l: "0 < rb_len rb"
  shows "LessThan (rb_maxSeq rb) (seq_nth (rb_startSeq rb) k) \<longleftrightarrow> rb_len rb < k"
    and "rb_maxSeq rb = seq_nth (rb_startSeq rb) (rb_len rb)"
proof -
  note D = rb_invD [OF inv]
  have c: "length (rb_entries rb) < H31" using ring_cap_lt [OF D(1)] .
  have "rb_len rb = seq_off (rb_startSeq rb) (rb_maxSeq rb)"
    using l rb_len_eq(2) [OF inv] by (auto split: if_splits)
  then show m: "rb_maxSeq rb = seq_nth (rb_startSeq rb) (rb_len rb)" using seq_nth_off [OF D(3,4)] by simp
  have "LessThan (seq_nth (rb_startSeq rb) (rb_len rb)) (seq_nth (rb_startSeq rb) k) \<longleftrightarrow> rb_len rb < k"
    by (rule LessThan_window [OF D(3)]) (use k c rb_len_eq(3) [OF inv] in linarith)+
  then show "LessThan (rb_maxSeq rb) (seq_nth (rb_startSeq rb) k) \<longleftrightarrow> rb_len rb < k" unfolding m .
qed

lemma Insert_gap:
  assumes inv: "rb_inv rb" and s: "valid_seq (SequenceNumber (Header p))"
    and i: "Inserted (snd (Insert rb p ts))" and l: "0 < rb_len rb"
  defines "k \<equiv> seq_off (rb_startSeq rb) (SequenceNumber (Header p))"
  shows "GapStart (snd (Insert rb p ts)) = (if rb_len rb < k then seq_nth (rb_startSeq rb) (rb_len rb) else 0)"
    "GapEnd (snd (Insert rb p ts)) = (if rb_len rb < k then seq_nth (rb_startSeq rb) (k - 1) else 0)"
proof -
  let ?s = "SequenceNumber (Header p)"
  note S = Insert_step [OF inv s i]
  have sk: "?s = seq_nth (rb_startSeq rb) k" using S(11) by (simp add: k_def)
  have c: "k < length (rb_entries rb)" using S(10) by (simp add: k_def)
  have ne: "rb_maxSeq rb \<noteq> rb_startSeq rb" using l by (auto simp: rb_len_def split: if_splits)
  have "GapStart (snd (Insert rb p ts)) = (if LessThan (rb_maxSeq rb) ?s then rb_maxSeq rb else 0)"
    "GapEnd (snd (Insert rb p ts)) = (if LessThan (rb_maxSeq rb) ?s then Dec ?s else 0)"
    using i ne by (simp_all add: Insert_def Let_def zero_InsertResult_def Value_def split: if_splits)
  then show "GapStart (snd (Insert rb p ts)) = (if rb_len rb < k then seq_nth (rb_startSeq rb) (rb_len rb) else 0)"
    "GapEnd (snd (Insert rb p ts)) = (if rb_len rb < k then seq_nth (rb_startSeq rb) (k - 1) else 0)"
    unfolding sk gap_iff(1) [OF inv c l] using gap_iff(2) [OF inv c l] seq_nth_Dec [of k] by auto
qed

lemma insert_list:
  fixes ts :: "nat \<Rightarrow> Timestamp"
  assumes "in_order_inv rb" "\<And>k. k < n \<Longrightarrow> SequenceNumber (Header (f k)) = seq_nth (rb_startSeq rb) k"
    "n < length (rb_entries rb)" "set ks \<subseteq> {..<n}" "no_fillers rb"
    "\<And>j p. rb_pkt rb j = Some p \<Longrightarrow> p = f j"
  defines "rb' \<equiv> fold (\<lambda>k rb. fst (Insert rb (f k) (ts k))) ks rb"
  shows "in_order_inv rb' \<and> rb_startSeq rb' = rb_startSeq rb \<and>
         (\<forall>j \<in> set ks. rb_pkt rb' j = Some (f j)) \<and> (\<forall>j p. rb_pkt rb j = Some p \<longrightarrow> rb_pkt rb' j = Some p)"
  using assms(1-6) unfolding rb'_def
proof (induction ks arbitrary: rb)
  case (Cons k ks)
  have inv: "rb_inv rb" using Cons.prems(1) by (simp add: in_order_inv_def)
  have k: "k < n" using Cons.prems(4) by simp
  have sk: "SequenceNumber (Header (f k)) = seq_nth (rb_startSeq rb) k" using Cons.prems(2) k by blast
  have v: "valid_seq (SequenceNumber (Header (f k)))" by (simp add: sk)
  let ?rb = "fst (Insert rb (f k) (ts k))"
  have cM: "n < M31" using Cons.prems(3) ring_cap_lt [OF rb_invD(1) [OF inv]] by linarith
  have off: "seq_off (rb_startSeq rb) (SequenceNumber (Header (f k))) = k"
    unfolding sk using k cM rb_invD(3) [OF inv] by simp
  have eff: "in_order_inv ?rb" "no_fillers ?rb"
    using rb_step_effect [of rb "OpInsert (f k) (ts k)"] no_fillers_step [of rb "OpInsert (f k) (ts k)"]
      Cons.prems(1,5) v by (simp_all add: step_effect_def rb_step_eqs del: rb_step.simps)
  have pkt: "rb_pkt ?rb k = Some (f k) \<and> (\<forall>j. j \<noteq> k \<longrightarrow> rb_pkt ?rb j = rb_pkt rb j) \<and>
      rb_startSeq ?rb = rb_startSeq rb \<and> length (rb_entries ?rb) = length (rb_entries rb)"
  proof (cases "Inserted (snd (Insert rb (f k) (ts k)))")
    case True
    then show ?thesis using Insert_step(2,3,4) [OF inv v True] off by simp
  next
    case False
    then have "re_state (rb_at rb k) \<noteq> EntryEmpty"
      using Insert_result(1) [OF inv v, of "ts k"] off k Cons.prems(3) by simp
    then have "rb_pkt rb k \<noteq> None"
      using no_fillers_state [OF inv Cons.prems(5), of k] k Cons.prems(3) by simp
    then show ?thesis using Insert_result(2) [OF inv v False] Cons.prems(6) [of k] by (cases "rb_pkt rb k") simp_all
  qed
  have p6: "p = f j" if "rb_pkt ?rb j = Some p" for j p
    using that pkt Cons.prems(6) [of j p] by (cases "j = k") simp_all
  have s2: "\<And>k. k < n \<Longrightarrow> SequenceNumber (Header (f k)) = seq_nth (rb_startSeq ?rb) k"
    using pkt Cons.prems(2) by simp
  have c3: "n < length (rb_entries ?rb)" "set ks \<subseteq> {..<n}" using pkt Cons.prems(3,4) by simp_all
  note ih = Cons.IH [OF eff(1) s2 c3 eff(2) p6]
  have old: "rb_pkt ?rb j = Some p" if "rb_pkt rb j = Some p" for j p
    using that pkt Cons.prems(6) [OF that] by (cases "j = k") simp_all
  let ?rb' = "fold (\<lambda>k rb. fst (Insert rb (f k) (ts k))) ks ?rb"
  have "rb_pkt ?rb' k = Some (f k)" using ih pkt by blast
  moreover have "rb_pkt ?rb' j = Some p" if "rb_pkt rb j = Some p" for j p using ih old [OF that] by blast
  ultimately show ?case using ih pkt by simp
qed simp

lemma read_list:
  "in_order_inv rb \<Longrightarrow> (\<And>j. j < n \<Longrightarrow> rb_pkt rb j = Some (g j)) \<Longrightarrow>
   snd (run_ops rb_step (replicate n OpReadNext) rb) = map (\<lambda>j. OutPkts [g j]) [0..<n]"
proof (induction n arbitrary: rb g)
  case (Suc n)
  have inv: "rb_inv rb" using Suc.prems(1) by (simp add: in_order_inv_def)
  have p0: "re_state (rb_at rb 0) = EntryAvailable" "re_pkt (rb_at rb 0) = g 0"
    using Suc.prems(2) [of 0] by (auto simp: rb_pkt_def split: if_splits)
  have st: "rb_step OpReadNext rb = (rb_advance rb, OutPkts [g 0])"
    using p0 by (simp add: ReadNext_def rb_entry_head [OF inv])
  have mv: "rb_inv (rb_advance rb)" "rb_moves 1 rb (rb_advance rb)" using rb_advance_step [OF inv p0(1)] by blast+
  have "rb_pkt (rb_advance rb) j = Some (g (Suc j))" if "j < n" for j
    using mv(2) Suc.prems(2) [of "Suc j"] that by (simp add: rb_moves_def)
  note ih = Suc.IH [OF in_order_moves [OF Suc.prems(1) mv] this]
  have "[0..<Suc n] = 0 # map Suc [0..<n]" by (simp only: upt_conv_Cons [OF zero_less_Suc] map_Suc_upt)
  then show ?case using ih st by (simp add: case_prod_unfold del: upt_Suc)
qed simp

section \<open>Properties\<close>



text \<open>
  C15. Without drops the application reads the numbers from the initial one on without a gap. The
  acknowledgement names the first packet not yet received, all earlier ones being delivered or stored,
  and the loss report lists exactly the packets missing below the highest one received, in order.
\<close>

theorem RecvBuffer_ack_and_loss:
  assumes "capacity \<le> 2 ^ 29" and "isn \<le> Max" and "list_all lossless ops"
    and "ops_ok rb_op_ok rb_step ops (NewRecvBuffer capacity isn)"
    and "run_ops rb_step ops (NewRecvBuffer capacity isn) = (rb, outs)"
  defines "n \<equiv> length (all_delivered outs)"
  shows "map (\<lambda>p. SequenceNumber (Header p)) (all_delivered outs) = map (seq_nth isn) [0..<n] \<and>
    (\<exists>m. ACKSequence rb = seq_nth isn (n + m) \<and> (\<forall>i < m. rb_pkt rb i \<noteq> None) \<and> rb_pkt rb m = None) \<and>
    GenerateLossList rb = map (\<lambda>i. seq_nth isn (n + i)) (filter (\<lambda>i. rb_pkt rb i = None) [0..<rb_len rb])"
proof -
  have v: "valid_seq isn" using assms(2) by (simp add: valid_seq_le_Max)
  note N = New_in_order [OF assms(1) v]
  note G = recvbuf.run_gapless [OF N(1) assms(4,3) N(3) assms(5)]
  have st: "rb_startSeq rb = seq_nth isn n" using G by (simp add: n_def)
  have inv: "rb_inv rb"
    using recvbuf.run_delivers [OF N(1) assms(4) N(3) assms(5)] by (simp add: in_order_inv_def)
  have nf: "no_fillers rb" using run_no_fillers [OF N(1) assms(4,3) N(2)] assms(5) by simp
  have "map (seq_nth (seq_nth isn n)) xs = map (\<lambda>i. seq_nth isn (n + i)) xs" for xs by simp
  then show ?thesis
    using G ack_no_fillers [OF inv nf] loss_no_fillers [OF inv nf] by (simp add: n_def st [unfolded n_def])
qed

theorem RecvBuffer_ack_and_loss_witness:
  "let ops = [OpInsert (data_packet 0x7FFFFFFF) 5, OpReadNext, OpInsert (data_packet 0) 6, OpInsert (data_packet 3) 7];
       r = run_ops rb_step ops (NewRecvBuffer 8 0x7FFFFFFF); n = length (all_delivered (snd r)) in
   map (\<lambda>p. SequenceNumber (Header p)) (all_delivered (snd r)) = map (seq_nth 0x7FFFFFFF) [0..<n] \<and>
   (\<exists>m. ACKSequence (fst r) = seq_nth 0x7FFFFFFF (n + m) \<and> (\<forall>i < m. rb_pkt (fst r) i \<noteq> None) \<and>
        rb_pkt (fst r) m = None) \<and>
   GenerateLossList (fst r) =
     map (\<lambda>i. seq_nth 0x7FFFFFFF (n + i)) (filter (\<lambda>i. rb_pkt (fst r) i = None) [0..<rb_len (fst r)])"
  unfolding Let_def
proof (rule RecvBuffer_ack_and_loss)
  show "ops_ok rb_op_ok rb_step [OpInsert (data_packet 0x7FFFFFFF) 5, OpReadNext, OpInsert (data_packet 0) 6,
      OpInsert (data_packet 3) 7] (NewRecvBuffer 8 0x7FFFFFFF)"
    by (simp only: ops_ok.simps rb_op_ok.simps data_packet_seq) (simp add: valid_seq_def)
qed (simp_all add: Max_def del: run_ops.simps)

text \<open>
  C16. Packets of a window arriving in any order and with any repetitions are read back in the order of
  their sequence numbers, each once.
\<close>

theorem RecvBuffer_reorders:
  assumes "capacity \<le> 2 ^ 29" and "isn \<le> Max" and "int n < nextPow2 capacity" and "set ks = {..<n}"
    and "\<And>k. k < n \<Longrightarrow> SequenceNumber (Header (f k)) = seq_nth isn k"
  shows "snd (run_ops rb_step (replicate n OpReadNext)
           (fold (\<lambda>k rb. fst (Insert rb (f k) (ts k))) ks (NewRecvBuffer capacity isn)))
         = map (\<lambda>k. OutPkts [f k]) [0..<n]"
proof -
  have v: "valid_seq isn" using assms(2) by (simp add: valid_seq_le_Max)
  note N = New_inv [OF assms(1) v] and M = New_in_order [OF assms(1) v]
  have "n < length (rb_entries (NewRecvBuffer capacity isn))" using assms(3) N(8) by linarith
  from insert_list [OF M(1) _ this _ M(2), of f ks ts] show ?thesis
    using assms(4,5) N(2,3) by (intro read_list) auto
qed

theorem RecvBuffer_reorders_witness:
  "snd (run_ops rb_step (replicate 3 OpReadNext)
     (fold (\<lambda>k rb. fst (Insert rb (data_packet (seq_nth 0x7FFFFFFE k)) (int k))) [2, 0, 2, 1, 0]
       (NewRecvBuffer 4 0x7FFFFFFE)))
   = map (\<lambda>k. OutPkts [data_packet (seq_nth 0x7FFFFFFE k)]) [0..<3]"
proof (rule RecvBuffer_reorders)
  show "int 3 < nextPow2 4" by code_simp
qed (auto simp: Max_def)




end
