(* ===== verification/Tsbpd.thy ===== *)
theory Tsbpd
  imports Clock
begin

text \<open>
  The delivery timer of \<^verbatim>\<open>internal/tsbpd/tsbpd.go\<close>: it turns the 32-bit timestamps of data packets into the
  local times at which they are handed to the application. A sender's clock runs on beyond \<open>2^32\<close>
  microseconds, so the model speaks of true sender times, which are unbounded, and of the words that
  travel in the packets. Microsecond values are integers, as in \<^verbatim>\<open>Clock\<close>.
\<close>

section \<open>The timer\<close>

definition maxTimestamp :: Microseconds where "maxTimestamp = 0xFFFFFFFF"

definition timestampWrap :: Microseconds where "timestampWrap = 4294967296"

definition wrapThreshold :: Microseconds where "wrapThreshold = 30 * Second"

definition driftMaxSamples :: int where "driftMaxSamples = 1000"

definition driftMaxValue :: Microseconds where "driftMaxValue = 5000"

record Timer =
  tm_delay :: Microseconds
  tm_timeBase :: Timestamp
  tm_driftEnabled :: bool
  tm_driftSum :: Microseconds
  tm_driftCount :: int
  tm_driftOffset :: Microseconds
  tm_firstRTT :: int
  tm_wrapPeriod :: bool
  tm_wrapOffset :: Microseconds

definition tsbpd_New :: "Microseconds \<Rightarrow> Timestamp \<Rightarrow> Timer" where
  "tsbpd_New delay timeBase =
     \<lparr>tm_delay = delay, tm_timeBase = timeBase, tm_driftEnabled = True, tm_driftSum = 0, tm_driftCount = 0,
      tm_driftOffset = 0, tm_firstRTT = -1, tm_wrapPeriod = False, tm_wrapOffset = 0\<rparr>"

definition SetDriftEnabled :: "Timer \<Rightarrow> bool \<Rightarrow> Timer" where
  "SetDriftEnabled t enabled = t\<lparr>tm_driftEnabled := enabled\<rparr>"

text \<open>The full timestamp of a packet: the wrap offset, the carry of the wrap period and the 32 bits.\<close>

definition full_timestamp :: "Timer \<Rightarrow> u32 \<Rightarrow> Microseconds" where
  "full_timestamp t pktTimestamp =
     (let offset = tm_wrapOffset t;
          offset = (if tm_wrapPeriod t \<and> uint pktTimestamp \<le> 2 * wrapThreshold
                    then offset + timestampWrap else offset)
      in offset + uint pktTimestamp)"

definition DeliveryTime :: "Timer \<Rightarrow> u32 \<Rightarrow> Timestamp" where
  "DeliveryTime t pktTimestamp =
     Timestamp_Add (tm_timeBase t) (full_timestamp t pktTimestamp + tm_delay t + tm_driftOffset t)"

definition IsReady :: "Timer \<Rightarrow> u32 \<Rightarrow> Timestamp \<Rightarrow> bool" where
  "IsReady t pktTimestamp now = (\<not> Before now (DeliveryTime t pktTimestamp))"

definition UpdateWrap :: "Timer \<Rightarrow> u32 \<Rightarrow> Timer" where
  "UpdateWrap t pktTimestamp =
     (let ts = uint pktTimestamp in
      if \<not> tm_wrapPeriod t then
        if ts > maxTimestamp - wrapThreshold then t\<lparr>tm_wrapPeriod := True\<rparr> else t
      else
        if ts \<ge> wrapThreshold \<and> ts \<le> 2 * wrapThreshold
        then t\<lparr>tm_wrapPeriod := False, tm_wrapOffset := tm_wrapOffset t + timestampWrap\<rparr> else t)"

text \<open>\<^verbatim>\<open>(rttSample - firstRTT) / 2\<close>, when both are known.\<close>

definition rtt_delta :: "int \<Rightarrow> int \<Rightarrow> Microseconds" where
  "rtt_delta firstRTT rttSample =
     (if rttSample \<ge> 0 \<and> firstRTT \<ge> 0 then go_div (rttSample - firstRTT) 2 else 0)"

definition tsbpd_OnACK :: "Timer \<Rightarrow> u32 \<Rightarrow> Timestamp \<Rightarrow> int \<Rightarrow> Timer" where
  "tsbpd_OnACK t pktTimestamp localRecvTime rttSample =
     (if \<not> tm_driftEnabled t then t
      else
        let t = (if tm_firstRTT t = -1 then t\<lparr>tm_firstRTT := rttSample\<rparr> else t);
            expectedArrival = Timestamp_Add (tm_timeBase t) (full_timestamp t pktTimestamp);
            drift = Timestamp_Sub localRecvTime expectedArrival - rtt_delta (tm_firstRTT t) rttSample;
            t = t\<lparr>tm_driftSum := tm_driftSum t + drift, tm_driftCount := tm_driftCount t + 1\<rparr>
        in if tm_driftCount t \<ge> driftMaxSamples then
             let avgDrift = go_div (tm_driftSum t) (tm_driftCount t);
                 t = t\<lparr>tm_driftSum := 0, tm_driftCount := 0\<rparr>;
                 (t, avgDrift) =
                   (if avgDrift > driftMaxValue
                    then (t\<lparr>tm_timeBase := Timestamp_Add (tm_timeBase t) driftMaxValue\<rparr>, avgDrift - driftMaxValue)
                    else if avgDrift < - driftMaxValue
                    then (t\<lparr>tm_timeBase := Timestamp_Add (tm_timeBase t) (- driftMaxValue)\<rparr>, avgDrift + driftMaxValue)
                    else (t, avgDrift))
             in t\<lparr>tm_driftOffset := avgDrift\<rparr>
           else t)"

definition SetTimeBase :: "Timer \<Rightarrow> Timestamp \<Rightarrow> Timer" where
  "SetTimeBase t timeBase = t\<lparr>tm_timeBase := timeBase\<rparr>"

definition SetDelay :: "Timer \<Rightarrow> Microseconds \<Rightarrow> Timer" where
  "SetDelay t delay = t\<lparr>tm_delay := delay\<rparr>"

definition Delay :: "Timer \<Rightarrow> Microseconds" where
  "Delay t = tm_delay t"

definition DriftOffset :: "Timer \<Rightarrow> Microseconds" where
  "DriftOffset t = tm_driftOffset t"

record GroupTimeBase =
  TimeBase :: Timestamp
  WrapPeriod :: bool
  Drift :: Microseconds

definition GetInternalTimeBase :: "Timer \<Rightarrow> GroupTimeBase" where
  "GetInternalTimeBase t =
     \<lparr>TimeBase = tm_timeBase t, WrapPeriod = tm_wrapPeriod t, Drift = tm_driftOffset t\<rparr>"

definition ApplyGroupDrift :: "Timer \<Rightarrow> GroupTimeBase \<Rightarrow> Timer" where
  "ApplyGroupDrift t tb =
     t\<lparr>tm_timeBase := TimeBase tb, tm_wrapPeriod := WrapPeriod tb, tm_driftOffset := Drift tb\<rparr>"

definition ApplyGroupTime :: "Timer \<Rightarrow> GroupTimeBase \<Rightarrow> Microseconds \<Rightarrow> Timer" where
  "ApplyGroupTime t tb delay =
     t\<lparr>tm_timeBase := TimeBase tb, tm_wrapPeriod := WrapPeriod tb, tm_delay := delay,
       tm_driftOffset := Drift tb\<rparr>"

lemmas tsbpd_consts = maxTimestamp_def timestampWrap_def wrapThreshold_def driftMaxSamples_def
  driftMaxValue_def Second_def Millisecond_def

section \<open>Streams of true sender times\<close>

text \<open>
  The packets of a stream reach the timer with bounded disorder: each true sender time is at most the
  wrap threshold away from the latest one seen so far.
\<close>

fun bounded_disorder :: "int \<Rightarrow> int list \<Rightarrow> bool" where
  "bounded_disorder h [] = True"
| "bounded_disorder h (T # Ts) = (0 \<le> T \<and> \<bar>T - h\<bar> \<le> wrapThreshold \<and> bounded_disorder (max h T) Ts)"

definition feed :: "int list \<Rightarrow> Timer \<Rightarrow> Timer" where
  "feed Ts t = fold (\<lambda>T t. UpdateWrap t (SRTTimestamp T)) Ts t"

text \<open>The timer agrees with the latest sender time \<open>h\<close>: \<open>q\<close> cycles of \<open>2^32\<close> are accounted for.\<close>

definition wrap_sync :: "Timer \<Rightarrow> int \<Rightarrow> bool" where
  "wrap_sync t h \<longleftrightarrow>
     (\<exists>q. 0 \<le> q \<and> tm_wrapOffset t = q * timestampWrap \<and> 0 \<le> h \<and>
       (if tm_wrapPeriod t
        then (q + 1) * timestampWrap - wrapThreshold \<le> h \<and> h < (q + 1) * timestampWrap + wrapThreshold
        else (q = 0 \<or> q * timestampWrap + wrapThreshold \<le> h) \<and> h \<le> q * timestampWrap + maxTimestamp - wrapThreshold))"

text \<open>The stream of drift samples of an epoch.\<close>

definition feed_acks :: "(u32 \<times> Timestamp \<times> int) list \<Rightarrow> Timer \<Rightarrow> Timer" where
  "feed_acks as t = fold (\<lambda>(ts, recv, rtt) t. tsbpd_OnACK t ts recv rtt) as t"

text \<open>
  With samples that are all off by the same \<open>d\<close>, the sum of an epoch is exact, so the average is too.
  \<open>drift_inv n\<close> holds after \<open>n\<close> samples.
\<close>

definition drift_inv :: "Timer \<Rightarrow> Timestamp \<Rightarrow> Microseconds \<Rightarrow> int \<Rightarrow> nat \<Rightarrow> Timer \<Rightarrow> bool" where
  "drift_inv t0 base d r0 n t \<longleftrightarrow>
     (let g = base + d - tm_timeBase t in
      tm_driftEnabled t \<and> tm_firstRTT t = r0 \<and> tm_delay t = tm_delay t0 \<and>
      tm_wrapPeriod t = tm_wrapPeriod t0 \<and> tm_wrapOffset t = tm_wrapOffset t0 \<and>
      tm_driftCount t = int (n mod 1000) \<and> tm_driftSum t = tm_driftCount t * g \<and>
      \<bar>g\<bar> \<le> max driftMaxValue (\<bar>d\<bar> - driftMaxValue * int (n div 1000)) \<and>
      (1000 \<le> n \<longrightarrow> tm_driftOffset t = g))"

section \<open>Wrap-around\<close>

lemma uint_timestamp_mod: "uint (SRTTimestamp T) = T mod timestampWrap"
  by (simp add: SRTTimestamp_def timestampWrap_def unsigned_of_int take_bit_eq_mod)

lemma mod_cycle: "0 \<le> r \<Longrightarrow> r < timestampWrap \<Longrightarrow> (q * timestampWrap + r) mod timestampWrap = r"
  by (simp add: timestampWrap_def)

lemma wrap_sync_cases:
  assumes "wrap_sync t h" and "0 \<le> T" and "\<bar>T - h\<bar> \<le> wrapThreshold"
  obtains (plain) q where "0 \<le> q" "\<not> tm_wrapPeriod t" "tm_wrapOffset t = q * timestampWrap"
      "uint (SRTTimestamp T) = T - q * timestampWrap"
  | (old) q where "0 \<le> q" "tm_wrapPeriod t" "tm_wrapOffset t = q * timestampWrap"
      "uint (SRTTimestamp T) = T - q * timestampWrap" "uint (SRTTimestamp T) > 2 * wrapThreshold"
  | (carried) q where "0 \<le> q" "tm_wrapPeriod t" "tm_wrapOffset t = q * timestampWrap"
      "uint (SRTTimestamp T) = T - (q + 1) * timestampWrap" "uint (SRTTimestamp T) \<le> 2 * wrapThreshold"
proof -
  obtain q where q: "0 \<le> q" "tm_wrapOffset t = q * timestampWrap" "0 \<le> h"
    "if tm_wrapPeriod t
     then (q + 1) * timestampWrap - wrapThreshold \<le> h \<and> h < (q + 1) * timestampWrap + wrapThreshold
     else (q = 0 \<or> q * timestampWrap + wrapThreshold \<le> h) \<and> h \<le> q * timestampWrap + maxTimestamp - wrapThreshold"
    using assms(1) unfolding wrap_sync_def by blast
  have u: "uint (SRTTimestamp T) = T - p * timestampWrap"
    if "p * timestampWrap \<le> T" "T < (p + 1) * timestampWrap" for p
    using mod_cycle [of "T - p * timestampWrap" p] that by (simp add: uint_timestamp_mod algebra_simps)
  consider (a) "\<not> tm_wrapPeriod t" | (b) "tm_wrapPeriod t" "T < (q + 1) * timestampWrap"
    | (c) "tm_wrapPeriod t" "(q + 1) * timestampWrap \<le> T" by linarith
  then show ?thesis
  proof cases
    case a
    then have "q * timestampWrap \<le> T" "T < (q + 1) * timestampWrap"
      using q assms(2,3) by (auto simp: tsbpd_consts)
    from plain [OF q(1) a q(2) u [OF this]] show ?thesis .
  next
    case b
    then have "q * timestampWrap \<le> T" "2 * wrapThreshold < T - q * timestampWrap"
      using q assms(2,3) by (auto simp: tsbpd_consts)
    then show ?thesis using old [OF q(1) b(1) q(2)] u [OF _ b(2)] by simp
  next
    case c
    then have "T < (q + 1 + 1) * timestampWrap" "T - (q + 1) * timestampWrap \<le> 2 * wrapThreshold"
      using q assms(2,3) by (auto simp: tsbpd_consts)
    then show ?thesis using carried [OF q(1) c(1) q(2)] u [OF c(2)] by simp
  qed
qed

lemma full_timestamp_sync:
  assumes "wrap_sync t h" and "0 \<le> T" and "\<bar>T - h\<bar> \<le> wrapThreshold"
  shows "full_timestamp t (SRTTimestamp T) = T"
  using assms by (cases rule: wrap_sync_cases) (simp_all add: full_timestamp_def algebra_simps)

lemma UpdateWrap_sync:
  assumes "wrap_sync t h" and "0 \<le> T" and "\<bar>T - h\<bar> \<le> wrapThreshold"
  shows "wrap_sync (UpdateWrap t (SRTTimestamp T)) (max h T)"
proof -
  obtain q where q: "0 \<le> q" "tm_wrapOffset t = q * timestampWrap" "0 \<le> h"
    "if tm_wrapPeriod t
     then (q + 1) * timestampWrap - wrapThreshold \<le> h \<and> h < (q + 1) * timestampWrap + wrapThreshold
     else (q = 0 \<or> q * timestampWrap + wrapThreshold \<le> h) \<and> h \<le> q * timestampWrap + maxTimestamp - wrapThreshold"
    using assms(1) unfolding wrap_sync_def by blast
  have same: "p = q" if "tm_wrapOffset t = p * timestampWrap" for p
    using that q(2) by (simp add: timestampWrap_def)
  show ?thesis
    using assms
  proof (cases rule: wrap_sync_cases)
    case (plain p)
    then have p: "p = q" using same by blast
    show ?thesis unfolding wrap_sync_def
      by (rule exI [of _ q]) (use plain p q assms(3) in \<open>auto simp: UpdateWrap_def Let_def tsbpd_consts\<close>)
  next
    case (old p)
    then have p: "p = q" using same by blast
    then have "UpdateWrap t (SRTTimestamp T) = t" using old by (simp add: UpdateWrap_def)
    moreover have "T < (q + 1) * timestampWrap"
      using old(4) p uint_timestamp_mod [of T] by (simp add: timestampWrap_def algebra_simps)
    ultimately show ?thesis unfolding wrap_sync_def
      by (intro exI [of _ q]) (use old p q assms(2,3) in \<open>auto simp: tsbpd_consts\<close>)
  next
    case (carried p)
    then have p: "p = q" using same by blast
    show ?thesis
    proof (cases "wrapThreshold \<le> uint (SRTTimestamp T)")
      case True
      then have w: "UpdateWrap t (SRTTimestamp T) =
          t\<lparr>tm_wrapPeriod := False, tm_wrapOffset := (q + 1) * timestampWrap\<rparr>"
        using carried p by (simp add: UpdateWrap_def algebra_simps)
      show ?thesis unfolding wrap_sync_def w
        by (rule exI [of _ "q + 1"]) (use carried True p q assms(2,3) in \<open>auto simp: tsbpd_consts\<close>)
    next
      case False
      then have "UpdateWrap t (SRTTimestamp T) = t" using carried by (simp add: UpdateWrap_def)
      then show ?thesis unfolding wrap_sync_def
        by (intro exI [of _ q]) (use carried False p q assms(2,3) in \<open>auto simp: tsbpd_consts\<close>)
    qed
  qed
qed

lemma feed_sync:
  "wrap_sync t h \<Longrightarrow> bounded_disorder h Ts \<Longrightarrow> wrap_sync (feed Ts t) (fold max Ts h)"
proof (induction Ts arbitrary: t h)
  case (Cons T Ts)
  then have "wrap_sync (UpdateWrap t (SRTTimestamp T)) (max h T)" using UpdateWrap_sync by simp
  from Cons.IH [OF this] Cons.prems(2) show ?case by (simp add: feed_def max.commute)
qed (simp add: feed_def)

lemma UpdateWrap_frame [simp]:
  "tm_timeBase (UpdateWrap t ts) = tm_timeBase t" "tm_delay (UpdateWrap t ts) = tm_delay t"
  "tm_driftOffset (UpdateWrap t ts) = tm_driftOffset t"
  by (simp_all add: UpdateWrap_def Let_def)

lemma feed_frame [simp]:
  "tm_timeBase (feed Ts t) = tm_timeBase t" "tm_delay (feed Ts t) = tm_delay t"
  "tm_driftOffset (feed Ts t) = tm_driftOffset t"
  by (induction Ts arbitrary: t) (simp_all add: feed_def)

section \<open>Drift\<close>

lemma go_div_exact: "0 < b \<Longrightarrow> go_div (b * a) b = a"
  by (simp add: go_div_def sgn_mult abs_mult sgn_mult_abs)

lemma full_timestamp_cong:
  "tm_wrapPeriod t = tm_wrapPeriod t0 \<Longrightarrow> tm_wrapOffset t = tm_wrapOffset t0 \<Longrightarrow>
   full_timestamp t ts = full_timestamp t0 ts"
  by (simp add: full_timestamp_def)

lemma OnACK_sample:
  assumes e: "tm_driftEnabled t" and r0: "r0 \<noteq> -1" and r: "tm_firstRTT t = r0 \<or> tm_firstRTT t = -1 \<and> rtt = r0"
    and recv: "recv = base + full_timestamp t ts + d + rtt_delta r0 rtt"
    and s: "tm_driftSum t = tm_driftCount t * (base + d - tm_timeBase t)" and c: "0 \<le> tm_driftCount t"
  defines "g \<equiv> base + d - tm_timeBase t"
  defines "t' \<equiv> tsbpd_OnACK t ts recv rtt"
  shows "tm_driftEnabled t'" "tm_firstRTT t' = r0" "tm_delay t' = tm_delay t"
    "tm_wrapPeriod t' = tm_wrapPeriod t" "tm_wrapOffset t' = tm_wrapOffset t"
    "tm_driftCount t + 1 < 1000 \<Longrightarrow> tm_driftCount t' = tm_driftCount t + 1 \<and>
       tm_driftSum t' = (tm_driftCount t + 1) * g \<and> tm_timeBase t' = tm_timeBase t \<and> tm_driftOffset t' = tm_driftOffset t"
    "1000 \<le> tm_driftCount t + 1 \<Longrightarrow> tm_driftCount t' = 0 \<and> tm_driftSum t' = 0 \<and>
       tm_driftOffset t' = base + d - tm_timeBase t' \<and>
       tm_timeBase t' = tm_timeBase t + (if g > driftMaxValue then driftMaxValue else if g < - driftMaxValue then - driftMaxValue else 0)"
proof -
  define u where "u = (if tm_firstRTT t = -1 then t\<lparr>tm_firstRTT := rtt\<rparr> else t)"
  have u: "tm_firstRTT u = r0" "tm_timeBase u = tm_timeBase t" "full_timestamp u ts = full_timestamp t ts"
    "tm_driftSum u = tm_driftSum t" "tm_driftCount u = tm_driftCount t" "tm_delay u = tm_delay t"
    "tm_wrapPeriod u = tm_wrapPeriod t" "tm_wrapOffset u = tm_wrapOffset t" "tm_driftEnabled u"
    "tm_driftOffset u = tm_driftOffset t"
    using r r0 e by (auto simp: u_def full_timestamp_def)
  let ?c = "tm_driftCount t + 1"
  have drift: "Timestamp_Sub recv (Timestamp_Add (tm_timeBase u) (full_timestamp u ts)) - rtt_delta (tm_firstRTT u) rtt = g"
    by (simp add: u recv g_def clock_defs)
  have sum: "tm_driftSum u + g = ?c * g" by (simp add: u s g_def algebra_simps)
  have avg: "go_div (?c * g) ?c = g" using c by (intro go_div_exact) simp
  have t': "t' = (if ?c \<ge> driftMaxSamples then
      (if g > driftMaxValue then u\<lparr>tm_driftSum := 0, tm_driftCount := 0, tm_timeBase := tm_timeBase t + driftMaxValue, tm_driftOffset := g - driftMaxValue\<rparr>
       else if g < - driftMaxValue then u\<lparr>tm_driftSum := 0, tm_driftCount := 0, tm_timeBase := tm_timeBase t - driftMaxValue, tm_driftOffset := g + driftMaxValue\<rparr>
       else u\<lparr>tm_driftSum := 0, tm_driftCount := 0, tm_driftOffset := g\<rparr>)
      else u\<lparr>tm_driftSum := ?c * g, tm_driftCount := ?c\<rparr>)"
    unfolding t'_def tsbpd_OnACK_def u_def [symmetric] Let_def drift using e
    by (simp add: sum u(2,5) avg Timestamp_Add_def)
  show "tm_driftEnabled t'" "tm_firstRTT t' = r0" "tm_delay t' = tm_delay t"
    "tm_wrapPeriod t' = tm_wrapPeriod t" "tm_wrapOffset t' = tm_wrapOffset t"
    by (simp_all add: t' u)
  show "?c < 1000 \<Longrightarrow> tm_driftCount t' = ?c \<and> tm_driftSum t' = ?c * g \<and> tm_timeBase t' = tm_timeBase t \<and>
      tm_driftOffset t' = tm_driftOffset t"
    by (simp add: t' u driftMaxSamples_def)
  show "1000 \<le> ?c \<Longrightarrow> tm_driftCount t' = 0 \<and> tm_driftSum t' = 0 \<and>
       tm_driftOffset t' = base + d - tm_timeBase t' \<and>
       tm_timeBase t' = tm_timeBase t + (if g > driftMaxValue then driftMaxValue else if g < - driftMaxValue then - driftMaxValue else 0)"
    by (simp add: t' u driftMaxSamples_def g_def)
qed

lemma drift_inv_step:
  assumes i: "drift_inv t0 base d r0 n t" and r0: "r0 \<noteq> -1"
    and recv: "recv = base + full_timestamp t0 ts + d + rtt_delta r0 rtt"
  shows "drift_inv t0 base d r0 (Suc n) (tsbpd_OnACK t ts recv rtt)"
proof -
  note I = i [unfolded drift_inv_def Let_def]
  have f: "full_timestamp t ts = full_timestamp t0 ts" using I by (intro full_timestamp_cong) auto
  have h: "tm_driftEnabled t" "tm_firstRTT t = r0 \<or> tm_firstRTT t = -1 \<and> rtt = r0"
    "recv = base + full_timestamp t ts + d + rtt_delta r0 rtt"
    "tm_driftSum t = tm_driftCount t * (base + d - tm_timeBase t)" "0 \<le> tm_driftCount t"
    using I recv f by auto
  note S = OnACK_sample [OF h(1) r0 h(2-5)]
  have cnt: "tm_driftCount t = int (n mod 1000)" using I by blast
  have g: "\<bar>base + d - tm_timeBase t\<bar> \<le> max driftMaxValue (\<bar>d\<bar> - driftMaxValue * int (n div 1000))"
    using I by blast
  show ?thesis
  proof (cases "n mod 1000 = 999")
    case True
    have d: "Suc n mod 1000 = 0" "Suc n div 1000 = Suc (n div 1000)" by (simp_all add: mod_Suc div_Suc True)
    note S7 = S(7) [unfolded cnt True, simplified]
    have "\<bar>base + d - tm_timeBase (tsbpd_OnACK t ts recv rtt)\<bar>
        \<le> max driftMaxValue (\<bar>d\<bar> - driftMaxValue * int (Suc (n div 1000)))"
      using S7 g by (simp add: driftMaxValue_def max_def abs_if split: if_splits)
    then show ?thesis unfolding drift_inv_def Let_def d
      using S(1-5) S7 I by simp
  next
    case False
    have d: "Suc n mod 1000 = Suc (n mod 1000)" "Suc n div 1000 = n div 1000"
      using False by (simp_all add: mod_Suc div_Suc)
    have lt: "tm_driftCount t + 1 < 1000" using cnt False mod_less_divisor [of 1000 n] by linarith
    have "1000 \<le> Suc n \<Longrightarrow> 1000 \<le> n" using False by (cases "n = 999") auto
    then show ?thesis unfolding drift_inv_def Let_def d
      using S(1-5) S(6) [OF lt] I cnt by auto
  qed
qed

lemma feed_acks_drift:
  "drift_inv t0 base d r0 n t \<Longrightarrow> r0 \<noteq> -1 \<Longrightarrow>
   (\<And>ts recv rtt. (ts, recv, rtt) \<in> set as \<Longrightarrow> recv = base + full_timestamp t0 ts + d + rtt_delta r0 rtt) \<Longrightarrow>
   drift_inv t0 base d r0 (n + length as) (feed_acks as t)"
proof (induction as arbitrary: n t)
  case (Cons a as)
  obtain ts recv rtt where a: "a = (ts, recv, rtt)" by (cases a)
  have "drift_inv t0 base d r0 (Suc n) (tsbpd_OnACK t ts recv rtt)"
    using drift_inv_step Cons.prems a by (metis list.set_intros(1))
  from Cons.IH [OF this Cons.prems(2)] Cons.prems(3) show ?case by (simp add: feed_acks_def a)
qed (simp add: feed_acks_def)

section \<open>Properties\<close>

text \<open>
  C19. While packets reach the timer at most 30 seconds away from the latest sender time, however long
  the stream runs and however often its 32-bit timestamps wrap, every packet within 30 seconds of the
  latest one is due at the time base plus its true sender time, latency and drift correction.
\<close>

theorem DeliveryTime_across_wraps:
  assumes "0 \<le> h0" and "h0 \<le> maxTimestamp - wrapThreshold" and "bounded_disorder h0 Ts"
    and "0 \<le> T" and "\<bar>T - fold max Ts h0\<bar> \<le> wrapThreshold"
  shows "DeliveryTime (feed Ts (tsbpd_New delay base)) (SRTTimestamp T) = base + T + delay"
proof -
  have "wrap_sync (tsbpd_New delay base) h0"
    unfolding wrap_sync_def by (rule exI [of _ 0]) (use assms in \<open>auto simp: tsbpd_New_def\<close>)
  then have "wrap_sync (feed Ts (tsbpd_New delay base)) (fold max Ts h0)" using feed_sync assms(3) by blast
  then have "full_timestamp (feed Ts (tsbpd_New delay base)) (SRTTimestamp T) = T"
    using full_timestamp_sync assms(4,5) by blast
  then show ?thesis by (simp add: DeliveryTime_def Timestamp_Add_def tsbpd_New_def)
qed

theorem DeliveryTime_across_wraps_witness:
  "DeliveryTime (feed [4264967295, 4294967290, 4294967299, 4294967280, 4324967298, 4324967297] (tsbpd_New 120000 77))
     (SRTTimestamp 4324967299) = 77 + 4324967299 + 120000"
  using DeliveryTime_across_wraps [of 4264967295 "[4264967295, 4294967290, 4294967299, 4294967280, 4324967298, 4324967297]"
      4324967299 120000 77] by (simp add: tsbpd_consts)

text \<open>
  C20. The drift tracer follows a constant clock offset exactly: after the first thousand samples, time
  base and drift correction together are the original base plus that offset, and each further epoch
  moves the correction 5 ms closer to the 5 ms it is bounded by in the end.
\<close>

theorem OnACK_tracks_offset:
  fixes d r0 :: int
  assumes "0 \<le> r0" and "tm_driftEnabled t" and "tm_driftSum t = 0" and "tm_driftCount t = 0"
    and "tm_firstRTT t = r0"
    and "\<And>ts recv rtt. (ts, recv, rtt) \<in> set as \<Longrightarrow>
           recv = tm_timeBase t + full_timestamp t ts + d + rtt_delta r0 rtt"
    and "1000 \<le> length as"
  defines "t' \<equiv> feed_acks as t"
  shows "tm_timeBase t' + DriftOffset t' = tm_timeBase t + d \<and>
         \<bar>DriftOffset t'\<bar> \<le> max driftMaxValue (\<bar>d\<bar> - driftMaxValue * int (length as div 1000)) \<and>
         DeliveryTime t' ts = tm_timeBase t + d + full_timestamp t ts + Delay t"
proof -
  have "drift_inv t (tm_timeBase t) d r0 0 t" using assms(2-5) by (simp add: drift_inv_def)
  then have "drift_inv t (tm_timeBase t) d r0 (0 + length as) t'"
    unfolding t'_def by (rule feed_acks_drift) (use assms(1,6) in auto)
  then have i: "drift_inv t (tm_timeBase t) d r0 (length as) t'" by simp
  note I = i [unfolded drift_inv_def Let_def]
  have "full_timestamp t' ts = full_timestamp t ts" using I by (intro full_timestamp_cong) auto
  moreover have "tm_driftOffset t' = tm_timeBase t + d - tm_timeBase t'" using I assms(7) by blast
  ultimately show ?thesis
    using I by (simp add: DriftOffset_def Delay_def DeliveryTime_def Timestamp_Add_def)
qed

theorem OnACK_tracks_offset_witness:
  "let t = (tsbpd_New 120000 1000)\<lparr>tm_firstRTT := 40\<rparr>; t' = feed_acks (replicate 2000 (0, 13000, 40)) t in
   tm_timeBase t' + DriftOffset t' = 13000 \<and> \<bar>DriftOffset t'\<bar> \<le> 5000 \<and> DeliveryTime t' 500 = 133500"
proof -
  let ?t = "(tsbpd_New 120000 1000)\<lparr>tm_firstRTT := 40\<rparr>"
  let ?t' = "feed_acks (replicate 2000 (0, 13000, 40)) ?t"
  have "tm_timeBase ?t' + DriftOffset ?t' = tm_timeBase ?t + 12000 \<and>
     \<bar>DriftOffset ?t'\<bar> \<le> max driftMaxValue (\<bar>12000\<bar> - driftMaxValue * int (length (replicate 2000 (0 :: u32, 13000 :: int, 40 :: int)) div 1000)) \<and>
     DeliveryTime ?t' 500 = tm_timeBase ?t + 12000 + full_timestamp ?t 500 + Delay ?t"
    by (rule OnACK_tracks_offset)
      (auto simp: tsbpd_New_def full_timestamp_def rtt_delta_def go_div_def)
  then show ?thesis
    by (simp add: Let_def tsbpd_New_def full_timestamp_def Delay_def driftMaxValue_def)
qed

text \<open>
  C21. A timer that joins a group adopts its time base, wrap period and drift, but not the offset of the
  wraps the group has completed: a member created after the group's timestamps have wrapped computes
  delivery times that are earlier than the group's by a positive multiple of \<open>2^32\<close> microseconds.
\<close>

theorem ApplyGroupTime_loses_wraps:
  fixes delay base d b :: int
  assumes "0 \<le> h0" and "h0 \<le> maxTimestamp - wrapThreshold" and "bounded_disorder h0 Ts"
    and "timestampWrap + wrapThreshold \<le> fold max Ts h0"
  defines "g \<equiv> feed Ts (tsbpd_New delay base)"
  shows "\<exists>q \<ge> 1. \<forall>ts. DeliveryTime (ApplyGroupTime (tsbpd_New d b) (GetInternalTimeBase g) (Delay g)) ts
                       = DeliveryTime g ts - q * timestampWrap"
proof -
  have "wrap_sync (tsbpd_New delay base) h0"
    unfolding wrap_sync_def by (rule exI [of _ 0]) (use assms in \<open>auto simp: tsbpd_New_def\<close>)
  then have "wrap_sync g (fold max Ts h0)" using feed_sync assms(3) unfolding g_def by blast
  then obtain q where q: "tm_wrapOffset g = q * timestampWrap" "1 \<le> q"
    using assms(4) unfolding wrap_sync_def
    by (auto simp: tsbpd_consts split: if_splits)
  have "DeliveryTime (ApplyGroupTime (tsbpd_New d b) (GetInternalTimeBase g) (Delay g)) ts
      = DeliveryTime g ts - tm_wrapOffset g" for ts
    by (simp add: DeliveryTime_def ApplyGroupTime_def GetInternalTimeBase_def Delay_def full_timestamp_def
        tsbpd_New_def Timestamp_Add_def Let_def)
  with q show ?thesis by auto
qed

theorem ApplyGroupTime_loses_wraps_witness:
  "\<exists>q \<ge> 1. \<forall>ts. DeliveryTime (ApplyGroupTime (tsbpd_New 120000 0)
      (GetInternalTimeBase (feed [4264967290, 4294967290, 4324967290, 4324967296] (tsbpd_New 120000 77)))
      (Delay (feed [4264967290, 4294967290, 4324967290, 4324967296] (tsbpd_New 120000 77)))) ts
    = DeliveryTime (feed [4264967290, 4294967290, 4324967290, 4324967296] (tsbpd_New 120000 77)) ts - q * timestampWrap"
  by (rule ApplyGroupTime_loses_wraps [of 4264967290]) (simp_all add: tsbpd_consts)

end
