(* ===== verification/Filter_Config.thy ===== *)
theory Filter_Config
  imports Go_Strings
begin

text \<open>
  The configuration strings of the packet filter, \<^verbatim>\<open>internal/filter/filter.go\<close>. The package's registry of
  filter factories is a partial function from names, passed to the functions that read it.
\<close>

section \<open>Configurations\<close>

datatype ARQLevel = ARQAlways | ARQOnReq | ARQNever

datatype Layout = LayoutStaircase | LayoutEven

record FilterConfig =
  Cols :: int
  Rows :: int
  fc_Layout :: Layout
  ARQ :: ARQLevel
  ColsOnly :: bool

datatype filter_err =
  EmptyConfig | UnknownFilter string | InvalidParameter string | InvalidCols string | ColsTooSmall int
| InvalidRows string | RowsNotPositive int | InvalidLayout string | InvalidArq string
| UnknownParameter string | ColsMandatory
| ColsMismatch int int | RowsMismatch int int | LayoutMismatch | ArqMismatch

type_synonym 'f registry = "string \<Rightarrow> 'f option"

definition Register :: "'f registry \<Rightarrow> string \<Rightarrow> 'f \<Rightarrow> 'f registry" where
  "Register registry name factory = registry(name \<mapsto> factory)"

definition Lookup :: "'f registry \<Rightarrow> string \<Rightarrow> 'f option" where
  "Lookup registry name = registry name"

definition FilterName :: "string \<Rightarrow> string" where
  "FilterName config = fst (cut (CHR '','') config)"

definition ExtraHeaderSize :: nat where "ExtraHeaderSize = 4"

section \<open>Parsing and printing\<close>

text \<open>The body of the loop of \<^verbatim>\<open>ParseConfig\<close> for one key and value; the flag is \<^verbatim>\<open>hasCols\<close>.\<close>

definition parse_param :: "string \<Rightarrow> string \<Rightarrow> FilterConfig \<times> bool \<Rightarrow> filter_err + FilterConfig \<times> bool" where
  "parse_param key val st =
     (case st of (cfg, hasCols) \<Rightarrow>
        if key = ''cols'' then
          (case Atoi val of
             None \<Rightarrow> Inl (InvalidCols val)
           | Some v \<Rightarrow> if v < 2 then Inl (ColsTooSmall v) else Inr (cfg\<lparr>Cols := v\<rparr>, True))
        else if key = ''rows'' then
          (case Atoi val of
             None \<Rightarrow> Inl (InvalidRows val)
           | Some v \<Rightarrow> if v \<le> 0 then Inl (RowsNotPositive v) else Inr (cfg\<lparr>Rows := v\<rparr>, hasCols))
        else if key = ''layout'' then
          (if val = ''staircase'' then Inr (cfg\<lparr>fc_Layout := LayoutStaircase\<rparr>, hasCols)
           else if val = ''even'' then Inr (cfg\<lparr>fc_Layout := LayoutEven\<rparr>, hasCols)
           else Inl (InvalidLayout val))
        else if key = ''arq'' then
          (if val = ''always'' then Inr (cfg\<lparr>ARQ := ARQAlways\<rparr>, hasCols)
           else if val = ''onreq'' then Inr (cfg\<lparr>ARQ := ARQOnReq\<rparr>, hasCols)
           else if val = ''never'' then Inr (cfg\<lparr>ARQ := ARQNever\<rparr>, hasCols)
           else Inl (InvalidArq val))
        else Inl (UnknownParameter key))"

fun parse_params :: "string list \<Rightarrow> FilterConfig \<times> bool \<Rightarrow> filter_err + FilterConfig \<times> bool" where
  "parse_params [] st = Inr st"
| "parse_params (part # parts) st =
     (case cut (CHR '':'') part of
        (key, val, found) \<Rightarrow>
          if \<not> found then Inl (InvalidParameter part)
          else case parse_param key val st of Inl e \<Rightarrow> Inl e | Inr st \<Rightarrow> parse_params parts st)"

definition default_config :: FilterConfig where
  "default_config = \<lparr>Cols = 0, Rows = 1, fc_Layout = LayoutStaircase, ARQ = ARQOnReq, ColsOnly = False\<rparr>"

definition ParseConfig :: "'f registry \<Rightarrow> string \<Rightarrow> filter_err + FilterConfig" where
  "ParseConfig registry s =
     (if s = [] then Inl EmptyConfig
      else
        let parts = split_on (CHR '','') s; filterName = hd parts in
        if filterName \<noteq> ''fec'' \<and> Lookup registry filterName = None then Inl (UnknownFilter filterName)
        else case parse_params (tl parts) (default_config, False) of
               Inl e \<Rightarrow> Inl e
             | Inr (cfg, hasCols) \<Rightarrow> if \<not> hasCols then Inl ColsMandatory else Inr cfg)"

definition FormatConfig :: "FilterConfig \<Rightarrow> string" where
  "FormatConfig c =
     ''fec'' @ '',cols:'' @ show_int (Cols c) @
     (if Rows c > 1 then '',rows:'' @ show_int (Rows c) else []) @
     (case fc_Layout c of LayoutEven \<Rightarrow> '',layout:even'' | _ \<Rightarrow> '',layout:staircase'') @
     (case ARQ c of ARQAlways \<Rightarrow> '',arq:always'' | ARQNever \<Rightarrow> '',arq:never'' | _ \<Rightarrow> '',arq:onreq'')"

definition NegotiateConfig :: "FilterConfig \<Rightarrow> FilterConfig \<Rightarrow> filter_err + FilterConfig" where
  "NegotiateConfig local peer =
     (if Cols local \<noteq> Cols peer then Inl (ColsMismatch (Cols local) (Cols peer))
      else if Rows local \<noteq> Rows peer then Inl (RowsMismatch (Rows local) (Rows peer))
      else if fc_Layout local \<noteq> fc_Layout peer then Inl LayoutMismatch
      else if ARQ local \<noteq> ARQ peer then Inl ArqMismatch
      else Inr local)"

text \<open>What a configuration accepted by the parser satisfies.\<close>

definition config_ok :: "FilterConfig \<Rightarrow> bool" where
  "config_ok c \<longleftrightarrow> 2 \<le> Cols c \<and> Cols c < 2 ^ 63 \<and> 1 \<le> Rows c \<and> Rows c < 2 ^ 63 \<and> \<not> ColsOnly c"

text \<open>The parameters of the printed form, as separate words.\<close>

definition format_words :: "FilterConfig \<Rightarrow> string list" where
  "format_words c =
     [''fec'', ''cols:'' @ show_int (Cols c)] @
     (if Rows c > 1 then [''rows:'' @ show_int (Rows c)] else []) @
     [case fc_Layout c of LayoutEven \<Rightarrow> ''layout:even'' | _ \<Rightarrow> ''layout:staircase'',
      case ARQ c of ARQAlways \<Rightarrow> ''arq:always'' | ARQNever \<Rightarrow> ''arq:never'' | _ \<Rightarrow> ''arq:onreq'']"

section \<open>The printed form\<close>

lemma Atoi_range: "Atoi s = Some v \<Longrightarrow> v < 2 ^ 63"
  by (auto simp: Atoi_def Let_def split: option.splits prod.splits if_splits)

lemma parse_param_ok:
  assumes "parse_param k v (cfg, h) = Inr (cfg', h')" and "1 \<le> Rows cfg" "Rows cfg < 2 ^ 63" "\<not> ColsOnly cfg"
    and "h \<Longrightarrow> 2 \<le> Cols cfg \<and> Cols cfg < 2 ^ 63"
  shows "1 \<le> Rows cfg' \<and> Rows cfg' < 2 ^ 63 \<and> \<not> ColsOnly cfg' \<and> (h' \<longrightarrow> 2 \<le> Cols cfg' \<and> Cols cfg' < 2 ^ 63)"
  using assms by (auto simp: parse_param_def dest: Atoi_range split: option.splits if_splits)

lemma parse_params_ok:
  "parse_params ps (cfg, h) = Inr (cfg', h') \<Longrightarrow> 1 \<le> Rows cfg \<Longrightarrow> Rows cfg < 2 ^ 63 \<Longrightarrow> \<not> ColsOnly cfg \<Longrightarrow>
   (h \<Longrightarrow> 2 \<le> Cols cfg \<and> Cols cfg < 2 ^ 63) \<Longrightarrow>
   1 \<le> Rows cfg' \<and> Rows cfg' < 2 ^ 63 \<and> \<not> ColsOnly cfg' \<and> (h' \<longrightarrow> 2 \<le> Cols cfg' \<and> Cols cfg' < 2 ^ 63)"
proof (induction ps arbitrary: cfg h)
  case (Cons p ps)
  obtain k v f where c: "cut (CHR '':'') p = (k, v, f)" by (cases "cut (CHR '':'') p")
  obtain cfg1 h1 where s: "parse_param k v (cfg, h) = Inr (cfg1, h1)" "parse_params ps (cfg1, h1) = Inr (cfg', h')"
    using Cons.prems(1) c by (auto split: if_splits sum.splits prod.splits)
  note P = parse_param_ok [OF s(1) Cons.prems(2-5)]
  show ?case by (rule Cons.IH [OF s(2)]) (use P in auto)
qed auto

lemma digits_no_sep:
  assumes "0 \<le> v"
  shows "CHR '','' \<notin> set (show_int v)" "CHR '':'' \<notin> set (show_int v)"
  using show_int_chars [OF assms] by (fastforce simp: is_digit_def less_eq_char_def)+

lemma FormatConfig_words: "FormatConfig c = join_with (CHR '','') (format_words c)"
  by (simp add: FormatConfig_def format_words_def split: Layout.splits ARQLevel.splits)

lemma format_words_sep:
  assumes "config_ok c" "w \<in> set (format_words c)"
  shows "CHR '','' \<notin> set w"
  using assms digits_no_sep(1) [of "Cols c"] digits_no_sep(1) [of "Rows c"]
  by (auto simp: format_words_def config_ok_def split: Layout.splits ARQLevel.splits if_splits)

lemma cut_key: "CHR '':'' \<notin> set k \<Longrightarrow> cut (CHR '':'') (k @ CHR '':'' # v) = (k, v, True)"
  by (rule cut_found)

lemma cut_keys:
  "cut (CHR '':'') (''cols:'' @ v) = (''cols'', v, True)" "cut (CHR '':'') (''rows:'' @ v) = (''rows'', v, True)"
  "cut (CHR '':'') (''layout:'' @ v) = (''layout'', v, True)" "cut (CHR '':'') (''arq:'' @ v) = (''arq'', v, True)"
  using cut_key [of "''cols''" v] cut_key [of "''rows''" v] cut_key [of "''layout''" v] cut_key [of "''arq''" v]
  by simp_all

lemma Parse_of_Format:
  assumes ok: "config_ok c"
  shows "ParseConfig registry (FormatConfig c) = Inr c"
proof -
  have s: "split_on (CHR '','') (FormatConfig c) = format_words c"
    unfolding FormatConfig_words using split_join [of "format_words c" "CHR '',''"] format_words_sep [OF ok]
    by (auto simp: format_words_def)
  have ne: "FormatConfig c \<noteq> []" by (simp add: FormatConfig_def)
  have at: "Atoi (show_int (Cols c)) = Some (Cols c)" "Atoi (show_int (Rows c)) = Some (Rows c)"
    using ok by (auto simp: config_ok_def intro!: Atoi_show_int)
  have "parse_params (tl (format_words c)) (default_config, False) = Inr (c, True)"
    using ok at cut_keys(3) [of "''even''"] cut_keys(3) [of "''staircase''"] cut_keys(4) [of "''always''"]
      cut_keys(4) [of "''never''"] cut_keys(4) [of "''onreq''"]
    by (cases c; cases "fc_Layout c"; cases "ARQ c")
      (auto simp: format_words_def cut_keys(1,2) [simplified] parse_param_def default_config_def config_ok_def)
  moreover have "hd (format_words c) = ''fec''" by (simp add: format_words_def)
  ultimately show ?thesis
    using ne s by (simp add: ParseConfig_def)
qed

lemma ParseConfig_ok:
  assumes "ParseConfig registry s = Inr c"
  shows "config_ok c"
proof -
  have "parse_params (tl (split_on (CHR '','') s)) (default_config, False) = Inr (c, True)"
    using assms by (auto simp: ParseConfig_def Let_def split: if_splits sum.splits prod.splits)
  from parse_params_ok [OF this] show ?thesis by (simp add: default_config_def config_ok_def)
qed

section \<open>Properties\<close>

text \<open>
  C23. Every configuration that the parser can produce is printed to a string that parses back to it,
  and everything the parser accepts has at least two columns and one row.
\<close>

theorem ParseConfig_FormatConfig:
  "(config_ok c \<longrightarrow> ParseConfig registry (FormatConfig c) = Inr c) \<and>
   (ParseConfig registry s = Inr c \<longrightarrow> config_ok c)"
  by (simp add: Parse_of_Format ParseConfig_ok)

theorem ParseConfig_FormatConfig_witness:
  "ParseConfig (\<lambda>_. None :: nat option)
     (FormatConfig \<lparr>Cols = 10, Rows = 5, fc_Layout = LayoutEven, ARQ = ARQNever, ColsOnly = False\<rparr>)
   = Inr \<lparr>Cols = 10, Rows = 5, fc_Layout = LayoutEven, ARQ = ARQNever, ColsOnly = False\<rparr>"
  using ParseConfig_FormatConfig [of "\<lparr>Cols = 10, Rows = 5, fc_Layout = LayoutEven, ARQ = ARQNever, ColsOnly = False\<rparr>"
      "\<lambda>_. None :: nat option" "''x''"] by (simp add: config_ok_def)

text \<open>
  C24. Two peers that have parsed their configuration strings reach the same verdict whichever of them
  negotiates: they agree exactly when the configurations print to the same string, and then on one and
  the same configuration.
\<close>

theorem NegotiateConfig_agrees:
  assumes "ParseConfig registry s = Inr a" and "ParseConfig registry' s' = Inr b"
  shows "(NegotiateConfig a b = Inr c \<longleftrightarrow> NegotiateConfig b a = Inr c) \<and>
    (NegotiateConfig a b = Inr c \<longleftrightarrow> c = a \<and> FormatConfig a = FormatConfig b)"
proof -
  have ok: "config_ok a" "config_ok b" using ParseConfig_ok assms by blast+
  have same: "NegotiateConfig a b = Inr c \<longleftrightarrow> c = a \<and> a = b" if "config_ok a" "config_ok b" for a b c
    using that by (cases a; cases b) (auto simp: NegotiateConfig_def config_ok_def)
  have "a = b" if "FormatConfig a = FormatConfig b"
    using Parse_of_Format [OF ok(1), of registry] Parse_of_Format [OF ok(2), of registry] unfolding that by simp
  then have "FormatConfig a = FormatConfig b \<longleftrightarrow> a = b" by blast
  then show ?thesis unfolding same [OF ok] same [OF ok(2,1)] by blast
qed

theorem NegotiateConfig_agrees_witness:
  "\<exists>a b c. ParseConfig (\<lambda>_. None :: nat option) ''fec,cols:4,rows:2'' = Inr a \<and>
     ParseConfig (\<lambda>_. None :: nat option) ''fec,arq:onreq,rows:2,cols:4'' = Inr b \<and> NegotiateConfig b a = Inr c"
proof -
  let ?c = "\<lparr>Cols = 4, Rows = 2, fc_Layout = LayoutStaircase, ARQ = ARQOnReq, ColsOnly = False\<rparr>"
  have p: "ParseConfig (\<lambda>_. None :: nat option) ''fec,cols:4,rows:2'' = Inr ?c"
    "ParseConfig (\<lambda>_. None :: nat option) ''fec,arq:onreq,rows:2,cols:4'' = Inr ?c"
    by code_simp+
  have "NegotiateConfig ?c ?c = Inr ?c"
    using NegotiateConfig_agrees [OF p, of ?c] by simp
  with p show ?thesis by blast
qed

end
