(* ===== verification/Fec.thy ===== *)
theory Fec
  imports Filter_Config Seq
begin

text \<open>
  Forward error correction, \<^verbatim>\<open>internal/filter/fec.go\<close>: XOR groups over rows and columns of the packet stream,
  the sender that emits one parity packet per complete group, and the receiver that rebuilds a packet
  missing from a group. The set of received cells is a set of sequence numbers (the Go map only ever
  holds the value true), and the slices that the code reuses between calls are plain lists.

  A group pointer in the code always refers to an element of one of the group slices; the model passes
  the index and writes the group back. The rebuild recursion between rows and columns is a function
  whose measure counts the groups that have their parity packet and still miss more than one member.
\<close>

section \<open>Groups\<close>

definition fecMaxRcvHistory :: int where "fecMaxRcvHistory = 10"

definition seqDiff :: "u32 \<Rightarrow> u32 \<Rightarrow> int" where
  "seqDiff base s = Distance base s"

definition seqAdd :: "u32 \<Rightarrow> u32 \<Rightarrow> u32" where
  "seqAdd base offset = Value (Add base offset)"

record RecoveredPacket =
  rp_SeqNo :: u32
  rp_Timestamp :: u32
  rp_EncFlag :: u8
  rp_Retransmitted :: bool
  rp_Payload :: bytes

record fecGroup =
  fg_base :: u32
  fg_step :: int
  fg_collected :: int
  fg_hasFEC :: bool
  fg_lengthClip :: u16
  fg_flagClip :: u8
  fg_timestampClip :: u32
  fg_payloadClip :: bytes

record rcvGroup = fecGroup +
  rg_dismissed :: bool

definition newGroup :: "u32 \<Rightarrow> int \<Rightarrow> int \<Rightarrow> fecGroup" where
  "newGroup base step payloadSize =
     \<lparr>fg_base = base, fg_step = step, fg_collected = 0, fg_hasFEC = False, fg_lengthClip = 0,
      fg_flagClip = 0, fg_timestampClip = 0, fg_payloadClip = replicate (nat payloadSize) 0\<rparr>"

definition newRcvGroup :: "u32 \<Rightarrow> int \<Rightarrow> int \<Rightarrow> rcvGroup" where
  "newRcvGroup base step payloadSize = fecGroup.extend (newGroup base step payloadSize) \<lparr>rg_dismissed = False\<rparr>"

definition group_reset :: "fecGroup \<Rightarrow> u32 \<Rightarrow> fecGroup" where
  "group_reset g newBase =
     g\<lparr>fg_base := newBase, fg_collected := 0, fg_hasFEC := False, fg_lengthClip := 0, fg_flagClip := 0,
       fg_timestampClip := 0, fg_payloadClip := replicate (length (fg_payloadClip g)) 0\<rparr>"

text \<open>The XOR of a payload into the accumulator; a short payload is padded with zeros, a long one cut.\<close>

fun xor_into :: "bytes \<Rightarrow> bytes \<Rightarrow> bytes" where
  "xor_into (c # cs) (p # ps) = (c XOR p) # xor_into cs ps"
| "xor_into cs ps = cs"

definition clipData :: "u16 \<Rightarrow> u8 \<Rightarrow> u32 \<Rightarrow> bytes \<Rightarrow> 'a fecGroup_scheme \<Rightarrow> 'a fecGroup_scheme" where
  "clipData length' flags timestamp payload g =
     g\<lparr>fg_lengthClip := fg_lengthClip g XOR length', fg_flagClip := fg_flagClip g XOR flags,
       fg_timestampClip := fg_timestampClip g XOR timestamp,
       fg_payloadClip := xor_into (fg_payloadClip g) payload\<rparr>"

definition clipPacket :: "u8 \<Rightarrow> u32 \<Rightarrow> bytes \<Rightarrow> 'a fecGroup_scheme \<Rightarrow> 'a fecGroup_scheme" where
  "clipPacket encFlag timestamp payload g = clipData (of_nat (length payload)) encFlag timestamp payload g"

definition clipFECPacket :: "u32 \<Rightarrow> bytes \<Rightarrow> 'a fecGroup_scheme \<Rightarrow> 'a fecGroup_scheme" where
  "clipFECPacket timestamp fecPayload g =
     (if length fecPayload < ExtraHeaderSize then g
      else clipData (get_be16 (drop 2 fecPayload)) (fecPayload ! 1) timestamp (drop ExtraHeaderSize fecPayload) g)"

definition collect :: "'a fecGroup_scheme \<Rightarrow> 'a fecGroup_scheme" where
  "collect g = g\<lparr>fg_collected := fg_collected g + 1\<rparr>"

text \<open>
  The offsets of the columns: \<^verbatim>\<open>columnBaseOffsets\<close>, and with the same loop \<^verbatim>\<open>configureColumns\<close> of the sender
  and \<^verbatim>\<open>extendColumnSeries\<close> of the receiver.
\<close>

fun staircase :: "int \<Rightarrow> int \<Rightarrow> nat \<Rightarrow> nat \<Rightarrow> int \<Rightarrow> int list" where
  "staircase cols rows 0 i offset = []"
| "staircase cols rows (Suc n) i offset =
     offset # staircase cols rows n (i + 1)
       (if go_mod (int i) rows = rows - 1 then int i + 1 else offset + 1 + cols)"

definition columnBaseOffsets :: "FilterConfig \<Rightarrow> int list" where
  "columnBaseOffsets cfg =
     (if fc_Layout cfg = LayoutEven then map int [0..<nat (Cols cfg)]
      else staircase (Cols cfg) (Rows cfg) (nat (Cols cfg)) 0 0)"

section \<open>Sender\<close>

record pendingFECPacket =
  pf_data :: bytes
  pf_groupIndex :: int
  pf_timestamp :: u32
  pf_seqNo :: u32

record FECSender =
  fs_cfg :: FilterConfig
  fs_payloadSize :: int
  fs_row :: fecGroup
  fs_cols :: "fecGroup list"
  fs_sndBase :: u32
  fs_lastSeqNo :: u32
  fs_pendingFEC :: "pendingFECPacket list"

definition snd_sizeRow :: "FECSender \<Rightarrow> int" where "snd_sizeRow s = Cols (fs_cfg s)"
definition snd_sizeCol :: "FECSender \<Rightarrow> int" where "snd_sizeCol s = Rows (fs_cfg s)"
definition snd_matrixSize :: "FECSender \<Rightarrow> int" where "snd_matrixSize s = Cols (fs_cfg s) * Rows (fs_cfg s)"

fun sender_staircase :: "FECSender \<Rightarrow> u32 \<Rightarrow> nat \<Rightarrow> nat \<Rightarrow> int \<Rightarrow> fecGroup list" where
  "sender_staircase s isn 0 i offset = []"
| "sender_staircase s isn (Suc n) i offset =
     newGroup (seqAdd isn (word_of_int offset)) (snd_sizeRow s) (fs_payloadSize s) #
       sender_staircase s isn n (i + 1)
         (if go_mod (int i) (Rows (fs_cfg s)) = Rows (fs_cfg s) - 1 then int i + 1
          else offset + 1 + snd_sizeRow s)"

definition configureColumns :: "FECSender \<Rightarrow> u32 \<Rightarrow> FECSender" where
  "configureColumns s isn =
     (if fc_Layout (fs_cfg s) = LayoutEven
      then s\<lparr>fs_cols := map (\<lambda>i. newGroup (seqAdd isn (of_nat i)) (snd_sizeRow s) (fs_payloadSize s))
                         [0..<nat (Cols (fs_cfg s))]\<rparr>
      else s\<lparr>fs_cols := sender_staircase s isn (nat (Cols (fs_cfg s))) 0 0\<rparr>)"

definition NewFECSender :: "FilterConfig \<Rightarrow> int \<Rightarrow> u32 \<Rightarrow> FECSender" where
  "NewFECSender cfg payloadSize isn =
     (let s = \<lparr>fs_cfg = cfg, fs_payloadSize = payloadSize, fs_row = newGroup isn 1 payloadSize, fs_cols = [],
               fs_sndBase = isn, fs_lastSeqNo = isn, fs_pendingFEC = []\<rparr>
      in if Rows cfg > 1 then configureColumns s isn else s)"

text \<open>The index is stored as one byte, \<^verbatim>\<open>byte(groupIndex)\<close> of an \<^verbatim>\<open>int8\<close>.\<close>

definition emitFEC :: "FECSender \<Rightarrow> fecGroup \<Rightarrow> int \<Rightarrow> u32 \<Rightarrow> FECSender" where
  "emitFEC s g groupIndex lastDataSeqNo =
     (let n = nat (fs_payloadSize s);
          data = [word_of_int groupIndex, fg_flagClip g] @ put_be16 (fg_lengthClip g) @
                 take n (fg_payloadClip g @ replicate n 0)
      in s\<lparr>fs_pendingFEC := fs_pendingFEC s @
             [\<lparr>pf_data = data, pf_groupIndex = groupIndex, pf_timestamp = fg_timestampClip g, pf_seqNo = lastDataSeqNo\<rparr>]\<rparr>)"

definition resetRowForNext :: "FECSender \<Rightarrow> FECSender" where
  "resetRowForNext s =
     (let newBase = seqAdd (fg_base (fs_row s)) (word_of_int (snd_sizeRow s))
      in s\<lparr>fs_row := group_reset (fs_row s) newBase, fs_sndBase := newBase\<rparr>)"

definition resetColumnForNext :: "FECSender \<Rightarrow> nat \<Rightarrow> FECSender" where
  "resetColumnForNext s colIdx =
     (let g = fs_cols s ! colIdx; newBase = seqAdd (fg_base g) (word_of_int (snd_matrixSize s))
      in s\<lparr>fs_cols := (fs_cols s)[colIdx := group_reset g newBase]\<rparr>)"

text \<open>\<^verbatim>\<open>int8(vertGX)\<close>.\<close>

definition int8 :: "int \<Rightarrow> int" where
  "int8 i = sint (word_of_int i :: 8 word)"

definition feed_column :: "FECSender \<Rightarrow> int \<Rightarrow> u32 \<Rightarrow> u32 \<Rightarrow> u8 \<Rightarrow> bytes \<Rightarrow> FECSender" where
  "feed_column s vertGX seqNo timestamp encFlag payload =
     (if vertGX \<ge> 0 \<and> vertGX < int (length (fs_cols s)) then
        let vertOff = seqDiff (fg_base (fs_cols s ! nat vertGX)) seqNo in
        if vertOff \<ge> 0 then
          let vertPos = go_div vertOff (snd_sizeRow s);
              s = (if vertPos \<ge> snd_sizeCol s then resetColumnForNext s (nat vertGX) else s)
          in s\<lparr>fs_cols := (fs_cols s)[nat vertGX :=
                 collect (clipPacket encFlag timestamp payload (fs_cols s ! nat vertGX))]\<rparr>
        else s
      else s)"

definition emit_column :: "FECSender \<Rightarrow> int \<Rightarrow> u32 \<Rightarrow> FECSender" where
  "emit_column s vertGX seqNo =
     (if vertGX \<ge> 0 \<and> vertGX < int (length (fs_cols s)) \<and>
         fg_collected (fs_cols s ! nat vertGX) \<ge> snd_sizeCol s
      then resetColumnForNext (emitFEC s (fs_cols s ! nat vertGX) (int8 vertGX) seqNo) (nat vertGX)
      else s)"

definition emit_row :: "FECSender \<Rightarrow> u32 \<Rightarrow> FECSender" where
  "emit_row s seqNo =
     (if fg_collected (fs_row s) \<ge> snd_sizeRow s
      then resetRowForNext (if \<not> ColsOnly (fs_cfg s) then emitFEC s (fs_row s) (-1) seqNo else s)
      else s)"

definition FeedSource :: "FECSender \<Rightarrow> u32 \<Rightarrow> u32 \<Rightarrow> u8 \<Rightarrow> bytes \<Rightarrow> FECSender" where
  "FeedSource s seqNo timestamp encFlag payload =
     (let s = s\<lparr>fs_pendingFEC := [], fs_lastSeqNo := seqNo\<rparr>;
          s = (if seqDiff (fs_sndBase s) seqNo \<ge> snd_sizeRow s then resetRowForNext s else s);
          baseOff = seqDiff (fs_sndBase s) seqNo;
          s = s\<lparr>fs_row := collect (clipPacket encFlag timestamp payload (fs_row s))\<rparr>;
          vertGX = go_mod baseOff (snd_sizeRow s);
          two = (snd_sizeCol s \<ge> 2 \<and> fs_cols s \<noteq> []);
          s = (if two then feed_column s vertGX seqNo timestamp encFlag payload else s);
          s = (if two then emit_column s vertGX seqNo else s)
      in emit_row s seqNo)"

definition PackControlPacket :: "FECSender \<Rightarrow> FECSender \<times> pendingFECPacket option" where
  "PackControlPacket s =
     (case fs_pendingFEC s of [] \<Rightarrow> (s, None) | p # ps \<Rightarrow> (s\<lparr>fs_pendingFEC := ps\<rparr>, Some p))"

section \<open>Receiver\<close>

record FECReceiver =
  fr_cfg :: FilterConfig
  fr_payloadSize :: int
  fr_rowGroups :: "rcvGroup list"
  fr_colGroups :: "rcvGroup list"
  fr_colSeries :: int
  fr_colBaseISN :: u32
  fr_colBaseOff :: "int list"
  fr_cells :: "u32 set"
  fr_cellBase :: u32
  fr_rebuilt :: "RecoveredPacket list"
  fr_Supplied :: u64
  fr_Extra :: u64

definition sizeRow :: "FECReceiver \<Rightarrow> int" where "sizeRow r = Cols (fr_cfg r)"
definition sizeCol :: "FECReceiver \<Rightarrow> int" where "sizeCol r = Rows (fr_cfg r)"
definition matrixSize :: "FECReceiver \<Rightarrow> int" where "matrixSize r = Cols (fr_cfg r) * Rows (fr_cfg r)"

fun receiver_staircase :: "FilterConfig \<Rightarrow> int \<Rightarrow> u32 \<Rightarrow> nat \<Rightarrow> nat \<Rightarrow> int \<Rightarrow> rcvGroup list" where
  "receiver_staircase cfg payloadSize seriesBase 0 i offset = []"
| "receiver_staircase cfg payloadSize seriesBase (Suc n) i offset =
     newRcvGroup (seqAdd seriesBase (word_of_int offset)) (Cols cfg) payloadSize #
       receiver_staircase cfg payloadSize seriesBase n (i + 1)
         (if go_mod (int i) (Rows cfg) = Rows cfg - 1 then int i + 1 else offset + 1 + Cols cfg)"

definition extendColumnSeries :: "FECReceiver \<Rightarrow> u32 \<Rightarrow> FECReceiver" where
  "extendColumnSeries r seriesBase =
     (let cfg = fr_cfg r;
          gs = (if fc_Layout cfg = LayoutEven
                then map (\<lambda>i. newRcvGroup (seqAdd seriesBase (of_nat i)) (Cols cfg) (fr_payloadSize r)) [0..<nat (Cols cfg)]
                else receiver_staircase cfg (fr_payloadSize r) seriesBase (nat (Cols cfg)) 0 0)
      in r\<lparr>fr_colGroups := fr_colGroups r @ gs, fr_colSeries := fr_colSeries r + 1\<rparr>)"

definition NewFECReceiver :: "FilterConfig \<Rightarrow> int \<Rightarrow> u32 \<Rightarrow> FECReceiver" where
  "NewFECReceiver cfg payloadSize isn =
     (let initialRows = (if Rows cfg > 1 then Rows cfg + 1 else 2);
          r = \<lparr>fr_cfg = cfg, fr_payloadSize = payloadSize,
               fr_rowGroups = map (\<lambda>i. newRcvGroup (seqAdd isn (word_of_int (int i * Cols cfg))) 1 payloadSize) [0..<nat initialRows],
               fr_colGroups = [], fr_colSeries = 0, fr_colBaseISN = 0, fr_colBaseOff = [],
               fr_cells = {}, fr_cellBase = isn, fr_rebuilt = [], fr_Supplied = 0, fr_Extra = 0\<rparr>
      in if Rows cfg > 1
         then extendColumnSeries (r\<lparr>fr_colBaseISN := isn, fr_colBaseOff := columnBaseOffsets cfg\<rparr>) isn
         else r)"

definition markCell :: "FECReceiver \<Rightarrow> u32 \<Rightarrow> bool \<Rightarrow> FECReceiver" where
  "markCell r seqNo received = (if received then r\<lparr>fr_cells := insert seqNo (fr_cells r)\<rparr> else r)"

definition unmarkCell :: "FECReceiver \<Rightarrow> u32 \<Rightarrow> FECReceiver" where
  "unmarkCell r seqNo = r\<lparr>fr_cells := fr_cells r - {seqNo}\<rparr>"

definition cleanCells :: "FECReceiver \<Rightarrow> FECReceiver" where
  "cleanCells r =
     (case fr_rowGroups r of
        [] \<Rightarrow> r
      | g # _ \<Rightarrow> r\<lparr>fr_cells := Set.filter (\<lambda>s. \<not> seqDiff (fg_base g) s < 0) (fr_cells r), fr_cellBase := fg_base g\<rparr>)"

lemma length_cleanCells: "length (fr_rowGroups (cleanCells r)) = length (fr_rowGroups r)"
  by (simp add: cleanCells_def split: list.split)

primrec extend_rows :: "nat \<Rightarrow> FECReceiver \<Rightarrow> FECReceiver" where
  "extend_rows 0 r = r"
| "extend_rows (Suc n) r =
     extend_rows n (r\<lparr>fr_rowGroups := fr_rowGroups r @
       [newRcvGroup (seqAdd (fg_base (last (fr_rowGroups r))) (word_of_int (sizeRow r))) 1 (fr_payloadSize r)]\<rparr>)"

text \<open>The index is \<open>None\<close> where the code returns -1.\<close>

definition getRowGroupIndex :: "FECReceiver \<Rightarrow> u32 \<Rightarrow> FECReceiver \<times> nat option" where
  "getRowGroupIndex r seqNo =
     (if fr_rowGroups r = [] then (r, None)
      else
        let off = seqDiff (fg_base (fr_rowGroups r ! 0)) seqNo in
        if off < 0 then (r, None)
        else
          let rowIdx = go_div off (sizeRow r) in
          if rowIdx \<ge> fecMaxRcvHistory * sizeCol r then (r, None)
          else (extend_rows (nat (rowIdx + 1 - int (length (fr_rowGroups r)))) r, Some (nat rowIdx)))"

primrec extend_series :: "nat \<Rightarrow> FECReceiver \<Rightarrow> FECReceiver" where
  "extend_series 0 r = r"
| "extend_series (Suc n) r =
     extend_series n (extendColumnSeries r (seqAdd (fr_colBaseISN r) (word_of_int (fr_colSeries r * matrixSize r))))"

text \<open>The column of a sequence number and the series it belongs to.\<close>

definition column_series :: "FECReceiver \<Rightarrow> u32 \<Rightarrow> (int \<times> int) option" where
  "column_series r seqNo =
     (let off = seqDiff (fr_colBaseISN r) seqNo; colIdx = go_mod off (sizeRow r) in
      if off < 0 then None
      else if colIdx < 0 \<or> colIdx \<ge> Cols (fr_cfg r) then None
      else
        let adj = off - fr_colBaseOff r ! nat colIdx; series = go_div adj (matrixSize r) in
        if adj < 0 then None else if series < 0 then None else Some (colIdx, series))"

text \<open>The index of a column of a series in the deque, whose front may have been erased.\<close>

definition local_column :: "FECReceiver \<Rightarrow> int \<Rightarrow> int \<Rightarrow> nat option" where
  "local_column r colIdx series =
     (let firstSeriesOff = seqDiff (fr_colBaseISN r) (fg_base (fr_colGroups r ! 0));
          firstSeries = (if firstSeriesOff > 0 then go_div firstSeriesOff (matrixSize r) else 0);
          localSeries = series - firstSeries;
          gIdx = localSeries * Cols (fr_cfg r) + colIdx
      in if localSeries < 0 then None
         else if gIdx < 0 \<or> gIdx \<ge> int (length (fr_colGroups r)) then None
         else Some (nat gIdx))"

definition getColumnGroupIndex :: "FECReceiver \<Rightarrow> u32 \<Rightarrow> FECReceiver \<times> nat option" where
  "getColumnGroupIndex r seqNo =
     (if fr_colGroups r = [] then (r, None)
      else case column_series r seqNo of
             None \<Rightarrow> (r, None)
           | Some (colIdx, series) \<Rightarrow>
               let neededSeries = series - (fr_colSeries r - 1) in
               if neededSeries > 0 \<and> fr_colSeries r + neededSeries > fecMaxRcvHistory then (r, None)
               else
                 let r' = (if neededSeries > 0 then extend_series (nat neededSeries) r else r)
                 in (r', local_column r' colIdx series))"

definition getColumnGroupIndexByColX :: "FECReceiver \<Rightarrow> int \<Rightarrow> nat option" where
  "getColumnGroupIndexByColX r colx =
     (if colx < 0 \<or> colx \<ge> int (length (fr_colGroups r)) then None else Some (nat colx))"

definition isColumnMember :: "FECReceiver \<Rightarrow> rcvGroup \<Rightarrow> u32 \<Rightarrow> bool" where
  "isColumnMember r g seqNo =
     (let off = seqDiff (fg_base g) seqNo in
      off \<ge> 0 \<and> go_mod off (sizeRow r) = 0 \<and> go_div off (sizeRow r) < sizeCol r)"

definition findLostInRow :: "FECReceiver \<Rightarrow> rcvGroup \<Rightarrow> u32 option" where
  "findLostInRow r g =
     List.find (\<lambda>s. s \<notin> fr_cells r) (map (\<lambda>i. seqAdd (fg_base g) (of_nat i)) [0..<nat (sizeRow r)])"

definition findLostInColumn :: "FECReceiver \<Rightarrow> rcvGroup \<Rightarrow> u32 option" where
  "findLostInColumn r g =
     List.find (\<lambda>s. s \<notin> fr_cells r)
       (map (\<lambda>i. seqAdd (fg_base g) (word_of_int (int i * sizeRow r))) [0..<nat (sizeCol r)])"

section \<open>Rebuilding\<close>

datatype groupType = groupHoriz | groupVert | groupSingle

text \<open>
  Clipping a data packet into its row, or its column. The result says whether a group took the packet
  and which packet the group can rebuild now: the group and the missing sequence number.
\<close>

definition clip_row :: "FECReceiver \<Rightarrow> u32 \<Rightarrow> u32 \<Rightarrow> u8 \<Rightarrow> bytes \<Rightarrow> FECReceiver \<times> bool \<times> (rcvGroup \<times> u32) option" where
  "clip_row r seqNo timestamp encFlag payload =
     (case getRowGroupIndex r seqNo of
        (r, None) \<Rightarrow> (r, False, None)
      | (r, Some i) \<Rightarrow>
          let g = collect (clipPacket encFlag timestamp payload (fr_rowGroups r ! i));
              r = r\<lparr>fr_rowGroups := (fr_rowGroups r)[i := g]\<rparr>
          in (r, True, if fg_hasFEC g \<and> fg_collected g = sizeRow r - 1
                       then map_option (Pair g) (findLostInRow r g) else None))"

definition clip_column :: "FECReceiver \<Rightarrow> u32 \<Rightarrow> u32 \<Rightarrow> u8 \<Rightarrow> bytes \<Rightarrow> FECReceiver \<times> bool \<times> (rcvGroup \<times> u32) option" where
  "clip_column r seqNo timestamp encFlag payload =
     (case getColumnGroupIndex r seqNo of
        (r, None) \<Rightarrow> (r, False, None)
      | (r, Some i) \<Rightarrow>
          if \<not> isColumnMember r (fr_colGroups r ! i) seqNo then (r, False, None)
          else
            let g = collect (clipPacket encFlag timestamp payload (fr_colGroups r ! i));
                r = r\<lparr>fr_colGroups := (fr_colGroups r)[i := g]\<rparr>
            in (r, True, if fg_hasFEC g \<and> fg_collected g = sizeCol r - 1
                         then map_option (Pair g) (findLostInColumn r g) else None))"

text \<open>
  One rebuild: the recovered packet is appended, marked received and clipped into the group of the other
  dimension, which may now be able to rebuild a packet itself.
\<close>

definition rebuild_step ::
    "FECReceiver \<Rightarrow> rcvGroup \<Rightarrow> u32 \<Rightarrow> groupType \<Rightarrow> FECReceiver \<times> (rcvGroup \<times> u32 \<times> groupType) option" where
  "rebuild_step r g seqNo tp =
     (let n = unat (fg_lengthClip g) in
      if int n > fr_payloadSize r then (r, None)
      else
        let payload = take n (fg_payloadClip g);
            rp = \<lparr>rp_SeqNo = seqNo, rp_Timestamp = fg_timestampClip g, rp_EncFlag = fg_flagClip g,
                  rp_Retransmitted = False, rp_Payload = payload\<rparr>;
            r = markCell (r\<lparr>fr_rebuilt := fr_rebuilt r @ [rp], fr_Supplied := fr_Supplied r + 1\<rparr>) seqNo True
        in case tp of
             groupSingle \<Rightarrow> (r, None)
           | groupHoriz \<Rightarrow>
               (case clip_column r seqNo (rp_Timestamp rp) (rp_EncFlag rp) payload of
                  (r, _, next) \<Rightarrow> (r, map_option (\<lambda>(g, s). (g, s, groupVert)) next))
           | groupVert \<Rightarrow>
               (case clip_row r seqNo (rp_Timestamp rp) (rp_EncFlag rp) payload of
                  (r, _, next) \<Rightarrow> (r, map_option (\<lambda>(g, s). (g, s, groupHoriz)) next)))"

definition pending_groups :: "FECReceiver \<Rightarrow> nat" where
  "pending_groups r =
     length (filter (\<lambda>g. fg_hasFEC g \<and> fg_collected g < Cols (fr_cfg r) - 1) (fr_rowGroups r)) +
     length (filter (\<lambda>g. fg_hasFEC g \<and> fg_collected g < Rows (fr_cfg r) - 1) (fr_colGroups r))"


lemma length_extend_rows [simp]: "length (fr_rowGroups (extend_rows n r)) = length (fr_rowGroups r) + n"
  by (induction n arbitrary: r) auto

lemma getRowGroupIndex_lt:
  assumes "getRowGroupIndex r s = (r', Some i)"
  shows "i < length (fr_rowGroups r')"
proof -
  define q where "q = go_div (seqDiff (fg_base (fr_rowGroups r ! 0)) s) (sizeRow r)"
  have "i = nat q" "r' = extend_rows (nat (q + 1 - int (length (fr_rowGroups r)))) r" "fr_rowGroups r \<noteq> []"
    using assms by (auto simp: getRowGroupIndex_def Let_def q_def split: if_splits)
  moreover have "0 < n \<Longrightarrow> nat q < n + nat (q + 1 - int n)" for n by arith
  ultimately show ?thesis by simp
qed

lemma local_column_lt: "local_column r c n = Some i \<Longrightarrow> i < length (fr_colGroups r)"
  by (auto simp: local_column_def Let_def split: if_splits)

lemma getColumnGroupIndex_lt: "getColumnGroupIndex r s = (r', Some i) \<Longrightarrow> i < length (fr_colGroups r')"
  by (auto simp: getColumnGroupIndex_def Let_def local_column_lt split: if_splits option.splits)

lemma no_parity_filter: "(\<And>g. g \<in> set gs \<Longrightarrow> \<not> fg_hasFEC g) \<Longrightarrow> filter (\<lambda>g. fg_hasFEC g \<and> P g) gs = []"
  by (auto simp: filter_empty_conv)

lemma newRcvGroup_no_parity [simp]: "\<not> fg_hasFEC (newRcvGroup b st n)"
  by (simp add: newRcvGroup_def newGroup_def fecGroup.extend_def)

lemma receiver_staircase_no_parity: "g \<in> set (receiver_staircase cfg ps b n i off) \<Longrightarrow> \<not> fg_hasFEC g"
  by (induction n arbitrary: i off) auto

lemma extendColumnSeries_pending:
  "pending_groups (extendColumnSeries r b) = pending_groups r" "fr_cfg (extendColumnSeries r b) = fr_cfg r"
  unfolding extendColumnSeries_def pending_groups_def Let_def
  by (auto simp: no_parity_filter receiver_staircase_no_parity)

lemma extend_series_pending:
  "pending_groups (extend_series n r) = pending_groups r \<and> fr_cfg (extend_series n r) = fr_cfg r"
  by (induction n arbitrary: r) (simp_all add: extendColumnSeries_pending)

lemma extend_rows_pending:
  "pending_groups (extend_rows n r) = pending_groups r \<and> fr_cfg (extend_rows n r) = fr_cfg r"
proof (induction n arbitrary: r)
  case (Suc n)
  let ?r = "r\<lparr>fr_rowGroups := fr_rowGroups r @
     [newRcvGroup (seqAdd (fg_base (last (fr_rowGroups r))) (word_of_int (sizeRow r))) 1 (fr_payloadSize r)]\<rparr>"
  have "pending_groups ?r = pending_groups r" by (simp add: pending_groups_def)
  then show ?case using Suc.IH [of ?r] by simp
qed simp

lemma getRowGroupIndex_pending:
  "getRowGroupIndex r s = (r', i) \<Longrightarrow> pending_groups r' = pending_groups r \<and> fr_cfg r' = fr_cfg r"
  by (auto simp: getRowGroupIndex_def Let_def extend_rows_pending split: if_splits)

lemma getColumnGroupIndex_pending:
  "getColumnGroupIndex r s = (r', i) \<Longrightarrow> pending_groups r' = pending_groups r \<and> fr_cfg r' = fr_cfg r"
  by (auto simp: getColumnGroupIndex_def Let_def extend_series_pending split: if_splits option.splits)

lemma filter_update_less:
  assumes "i < length xs" "P (xs ! i)" "\<not> P x"
  shows "length (filter P (xs[i := x])) < length (filter P xs)"
  using assms length_filter_update [of i xs P x] by simp

lemma collect_clip [simp]:
  "fg_collected (collect (clipPacket e t p g)) = fg_collected g + 1" "fg_hasFEC (collect (clipPacket e t p g)) = fg_hasFEC g"
  by (simp_all add: collect_def clipPacket_def clipData_def)

lemma clip_row_pending:
  assumes "clip_row r s t e p = (r', b, Some x)"
  shows "pending_groups r' < pending_groups r"
proof -
  obtain r1 i where g: "getRowGroupIndex r s = (r1, Some i)"
    using assms by (auto simp: clip_row_def split: prod.splits option.splits)
  let ?g = "collect (clipPacket e t p (fr_rowGroups r1 ! i))"
  have r': "r' = r1\<lparr>fr_rowGroups := (fr_rowGroups r1)[i := ?g]\<rparr>" "fg_hasFEC ?g" "fg_collected ?g = Cols (fr_cfg r1) - 1"
    using assms g by (auto simp: clip_row_def Let_def sizeRow_def split: if_splits)
  have "length (filter (\<lambda>g. fg_hasFEC g \<and> fg_collected g < Cols (fr_cfg r1) - 1) ((fr_rowGroups r1)[i := ?g]))
      < length (filter (\<lambda>g. fg_hasFEC g \<and> fg_collected g < Cols (fr_cfg r1) - 1) (fr_rowGroups r1))"
    using filter_update_less [OF getRowGroupIndex_lt [OF g]] r'(2,3) by simp
  then have "pending_groups r' < pending_groups r1" by (simp add: pending_groups_def r')
  then show ?thesis using getRowGroupIndex_pending [OF g] by simp
qed

lemma clip_column_pending:
  assumes "clip_column r s t e p = (r', b, Some x)"
  shows "pending_groups r' < pending_groups r"
proof -
  obtain r1 i where g: "getColumnGroupIndex r s = (r1, Some i)"
    using assms by (auto simp: clip_column_def split: prod.splits option.splits)
  let ?g = "collect (clipPacket e t p (fr_colGroups r1 ! i))"
  have r': "r' = r1\<lparr>fr_colGroups := (fr_colGroups r1)[i := ?g]\<rparr>" "fg_hasFEC ?g" "fg_collected ?g = Rows (fr_cfg r1) - 1"
    using assms g by (auto simp: clip_column_def Let_def sizeCol_def split: if_splits)
  have "length (filter (\<lambda>g. fg_hasFEC g \<and> fg_collected g < Rows (fr_cfg r1) - 1) ((fr_colGroups r1)[i := ?g]))
      < length (filter (\<lambda>g. fg_hasFEC g \<and> fg_collected g < Rows (fr_cfg r1) - 1) (fr_colGroups r1))"
    using filter_update_less [OF getColumnGroupIndex_lt [OF g]] r'(2,3) by simp
  then have "pending_groups r' < pending_groups r1" by (simp add: pending_groups_def r')
  then show ?thesis using getColumnGroupIndex_pending [OF g] by simp
qed

lemma Some_eq_map_option: "Some y = map_option f x \<longleftrightarrow> (\<exists>z. x = Some z \<and> y = f z)"
  by (cases x) auto

lemma rebuild_step_pending:
  assumes "rebuild_step r g s tp = (r', Some x)"
  shows "pending_groups r' < pending_groups r"
proof -
  define n where "n = unat (fg_lengthClip g)"
  define p where "p = take n (fg_payloadClip g)"
  define r1 where "r1 = markCell (r\<lparr>fr_rebuilt := fr_rebuilt r @ [\<lparr>rp_SeqNo = s, rp_Timestamp = fg_timestampClip g,
      rp_EncFlag = fg_flagClip g, rp_Retransmitted = False, rp_Payload = p\<rparr>], fr_Supplied := fr_Supplied r + 1\<rparr>) s True"
  have r1: "pending_groups r1 = pending_groups r" by (simp add: r1_def pending_groups_def markCell_def)
  have n: "\<not> int n > fr_payloadSize r" using assms by (auto simp: rebuild_step_def Let_def n_def)
  have step: "rebuild_step r g s tp = (case tp of groupSingle \<Rightarrow> (r1, None)
      | groupHoriz \<Rightarrow> (case clip_column r1 s (fg_timestampClip g) (fg_flagClip g) p of
          (r, _, next) \<Rightarrow> (r, map_option (\<lambda>(g, s). (g, s, groupVert)) next))
      | groupVert \<Rightarrow> (case clip_row r1 s (fg_timestampClip g) (fg_flagClip g) p of
          (r, _, next) \<Rightarrow> (r, map_option (\<lambda>(g, s). (g, s, groupHoriz)) next)))"
    unfolding rebuild_step_def Let_def n_def [symmetric] p_def [symmetric] using n by (cases tp) (simp_all add: r1_def)
  show ?thesis
  proof (cases tp)
    case groupHoriz
    then show ?thesis using assms step r1 by (auto simp: Some_eq_map_option split: prod.splits dest: clip_column_pending)
  next
    case groupVert
    then show ?thesis using assms step r1 by (auto simp: Some_eq_map_option split: prod.splits dest: clip_row_pending)
  qed (use assms step in simp)
qed

function rebuild :: "FECReceiver \<Rightarrow> rcvGroup \<Rightarrow> u32 \<Rightarrow> groupType \<Rightarrow> FECReceiver" where
  "rebuild r g seqNo tp =
     (case rebuild_step r g seqNo tp of
        (r, None) \<Rightarrow> r
      | (r, Some (g, s, tp)) \<Rightarrow> rebuild r g s tp)"
  by pat_completeness auto
termination
  by (relation "measure (\<lambda>(r, g, s, tp). pending_groups r)") (auto dest: rebuild_step_pending [OF sym])

declare rebuild.simps [simp del]

section \<open>Incoming packets\<close>

definition row_type :: "FECReceiver \<Rightarrow> groupType" where
  "row_type r = (if Rows (fr_cfg r) \<le> 1 then groupSingle else groupHoriz)"

definition hangHorizontalData :: "FECReceiver \<Rightarrow> u32 \<Rightarrow> u32 \<Rightarrow> u8 \<Rightarrow> bytes \<Rightarrow> FECReceiver \<times> bool" where
  "hangHorizontalData r seqNo timestamp encFlag payload =
     (case clip_row r seqNo timestamp encFlag payload of
        (r, ok, None) \<Rightarrow> (r, ok)
      | (r, ok, Some (g, lost)) \<Rightarrow> (rebuild r g lost (row_type r), ok))"

definition hangHorizontalFEC :: "FECReceiver \<Rightarrow> u32 \<Rightarrow> u32 \<Rightarrow> bytes \<Rightarrow> FECReceiver" where
  "hangHorizontalFEC r seqNo timestamp fecPayload =
     (case getRowGroupIndex r seqNo of
        (r, None) \<Rightarrow> r
      | (r, Some i) \<Rightarrow>
          if fg_hasFEC (fr_rowGroups r ! i) then r
          else
            let g = clipFECPacket timestamp fecPayload ((fr_rowGroups r ! i)\<lparr>fg_hasFEC := True\<rparr>);
                r = r\<lparr>fr_rowGroups := (fr_rowGroups r)[i := g]\<rparr>
            in if fg_collected g = sizeRow r - 1
               then case findLostInRow r g of None \<Rightarrow> r | Some lost \<Rightarrow> rebuild r g lost (row_type r)
               else r)"

definition hangVerticalData :: "FECReceiver \<Rightarrow> u32 \<Rightarrow> u32 \<Rightarrow> u8 \<Rightarrow> bytes \<Rightarrow> FECReceiver \<times> bool" where
  "hangVerticalData r seqNo timestamp encFlag payload =
     (case clip_column r seqNo timestamp encFlag payload of
        (r, ok, None) \<Rightarrow> (r, ok)
      | (r, ok, Some (g, lost)) \<Rightarrow> (rebuild r g lost groupVert, ok))"

definition hangVerticalFEC :: "FECReceiver \<Rightarrow> u32 \<Rightarrow> u32 \<Rightarrow> bytes \<Rightarrow> FECReceiver" where
  "hangVerticalFEC r seqNo timestamp fecPayload =
     (case getColumnGroupIndex r seqNo of
        (r, None) \<Rightarrow> r
      | (r, Some i) \<Rightarrow>
          if fg_hasFEC (fr_colGroups r ! i) then r
          else
            let g = clipFECPacket timestamp fecPayload ((fr_colGroups r ! i)\<lparr>fg_hasFEC := True\<rparr>);
                r = r\<lparr>fr_colGroups := (fr_colGroups r)[i := g]\<rparr>
            in if fg_collected g = sizeCol r - 1
               then case findLostInColumn r g of None \<Rightarrow> r | Some lost \<Rightarrow> rebuild r g lost groupVert
               else r)"

section \<open>Dismissing old groups\<close>

definition fullReset :: "FECReceiver \<Rightarrow> u32 \<Rightarrow> FECReceiver" where
  "fullReset r seqNo =
     (let rowSize = (if sizeRow r \<le> 0 then 1 else sizeRow r);
          newBase = seqNo - word_of_int (go_mod (int (unat seqNo)) rowSize);
          r = r\<lparr>fr_rowGroups := [newRcvGroup newBase 1 (fr_payloadSize r)],
                fr_colGroups := [], fr_colSeries := 0, fr_colBaseISN := newBase\<rparr>;
          r = (if Rows (fr_cfg r) > 1 then extendColumnSeries r newBase else r)
      in r\<lparr>fr_cells := {}\<rparr>)"

function drop_rows :: "int \<Rightarrow> u32 \<Rightarrow> int \<Rightarrow> FECReceiver \<Rightarrow> FECReceiver" where
  "drop_rows threshold seqNo off r =
     (if off \<ge> threshold \<and> length (fr_rowGroups r) > 1 then
        let r = r\<lparr>fr_rowGroups := tl (fr_rowGroups r)\<rparr>
        in drop_rows threshold seqNo (seqDiff (fg_base (hd (fr_rowGroups r))) seqNo) (cleanCells r)
      else r)"
  by pat_completeness auto
termination
  by (relation "measure (\<lambda>(threshold, seqNo, off, r). length (fr_rowGroups r))")
    (auto simp: length_cleanCells)

declare drop_rows.simps [simp del]

function trim_series :: "int \<Rightarrow> FECReceiver \<Rightarrow> FECReceiver" where
  "trim_series minHistory r =
     (if fr_colSeries r > minHistory \<and> int (length (fr_colGroups r)) > Cols (fr_cfg r)
      then trim_series minHistory
             (r\<lparr>fr_colGroups := drop (nat (Cols (fr_cfg r))) (fr_colGroups r), fr_colSeries := fr_colSeries r - 1\<rparr>)
      else r)"
  by pat_completeness auto
termination
  by (relation "measure (\<lambda>(minHistory, r). nat (fr_colSeries r - minHistory))") auto

declare trim_series.simps [simp del]

definition checkLargeDrop :: "FECReceiver \<Rightarrow> u32 \<Rightarrow> FECReceiver" where
  "checkLargeDrop r seqNo =
     (if fr_rowGroups r = [] then r
      else
        let off = seqDiff (fg_base (fr_rowGroups r ! 0)) seqNo; matSz = matrixSize r in
        if off < 0 then r
        else if matSz > 0 \<and> go_div off matSz \<ge> fecMaxRcvHistory then fullReset r seqNo
        else
          let threshold = (if Rows (fr_cfg r) \<le> 1 then sizeRow r * 2 else matSz * 2);
              r = drop_rows threshold seqNo off r
          in if Rows (fr_cfg r) > 1
             then trim_series (if fc_Layout (fr_cfg r) = LayoutStaircase then 4 else 2) r
             else r)"

text \<open>The members of a column that have not been received, walking by the group's step.\<close>

definition column_losses :: "FECReceiver \<Rightarrow> rcvGroup \<Rightarrow> u32 list" where
  "column_losses r g =
     (if fg_step g > 0
      then filter (\<lambda>s. s \<notin> fr_cells r)
             (map (\<lambda>i. seqAdd (fg_base g) (word_of_int (int i * fg_step g))) [0..<nat (sizeCol r)])
      else [])"

fun dismiss_columns :: "FECReceiver \<Rightarrow> int \<Rightarrow> u32 \<Rightarrow> rcvGroup list \<Rightarrow> rcvGroup list \<times> u32 list" where
  "dismiss_columns r mindist seqNo [] = ([], [])"
| "dismiss_columns r mindist seqNo (g # gs) =
     (case dismiss_columns r mindist seqNo gs of
        (gs', losses) \<Rightarrow>
          let colOffset = seqDiff (fg_base g) seqNo;
              lastSeqOffset = colOffset - (sizeCol r - 1) * sizeRow r
          in if rg_dismissed g \<or> colOffset < mindist \<or> lastSeqOffset < 0 then (g # gs', losses)
             else (g\<lparr>rg_dismissed := True\<rparr> # gs', column_losses r g @ losses))"

definition dismissOldColumns :: "FECReceiver \<Rightarrow> u32 \<Rightarrow> FECReceiver \<times> u32 list" where
  "dismissOldColumns r seqNo =
     (if fr_colGroups r = [] then (r, [])
      else
        let mindist = (if fc_Layout (fr_cfg r) = LayoutStaircase then matrixSize r * 2 else matrixSize r)
        in case dismiss_columns r mindist seqNo (fr_colGroups r) of
             (gs, losses) \<Rightarrow> (r\<lparr>fr_colGroups := gs\<rparr>, losses))"

definition row_losses :: "FECReceiver \<Rightarrow> rcvGroup \<Rightarrow> u32 list" where
  "row_losses r g =
     (if rg_dismissed g then []
      else filter (\<lambda>s. s \<notin> fr_cells r) (map (\<lambda>j. seqAdd (fg_base g) (of_nat j)) [0..<nat (sizeRow r)]))"

definition collectLossReport :: "FECReceiver \<Rightarrow> FECReceiver \<times> u32 list" where
  "collectLossReport r =
     (if ARQ (fr_cfg r) = ARQAlways \<or> ARQ (fr_cfg r) = ARQNever then (r, [])
      else if length (fr_rowGroups r) < 2 then (r, [])
      else
        let rows = fr_rowGroups r;
            lst = last rows;
            latestSeq = seqAdd (fg_base lst) (word_of_int (fg_collected lst));
            past = int (length rows) - 3;
            progress = seqDiff (fg_base (rows ! 1)) latestSeq
        in if past < 0 \<and> progress \<le> go_div (sizeRow r) 3 then (r, [])
           else
             let past = (if past < 0 then 0 else past);
                 n = nat (past + 1);
                 losses = concat (map (row_losses r) (take n rows));
                 rows = map (\<lambda>g. g\<lparr>rg_dismissed := True\<rparr>) (take n rows) @ drop n rows;
                 r = r\<lparr>fr_rowGroups := rows\<rparr>;
                 r = (if n > 0 \<and> n < length rows then cleanCells (r\<lparr>fr_rowGroups := drop n rows\<rparr>) else r)
             in (r, losses))"

section \<open>Receive\<close>

record receive_result =
  recovered :: "RecoveredPacket list"
  lossReport :: "u32 list"
  passThrough :: bool

definition receive_fec :: "FECReceiver \<Rightarrow> u32 \<Rightarrow> u32 \<Rightarrow> bytes \<Rightarrow> FECReceiver \<times> receive_result" where
  "receive_fec r seqNo timestamp payload =
     (let r = markCell (r\<lparr>fr_Extra := fr_Extra r + 1\<rparr>) seqNo False in
      if length payload < ExtraHeaderSize then (r, \<lparr>recovered = [], lossReport = [], passThrough = False\<rparr>)
      else
        let colx = sint (payload ! 0);
            (r, loss) =
              (if colx = -1 then (hangHorizontalFEC r seqNo timestamp payload, [])
               else case dismissOldColumns (hangVerticalFEC r seqNo timestamp payload) seqNo of
                      (r, colLosses) \<Rightarrow> (r, if colLosses \<noteq> [] \<and> ARQ (fr_cfg r) = ARQOnReq then colLosses else []));
            (r, rowLosses) = collectLossReport r
        in (r, \<lparr>recovered = fr_rebuilt r, lossReport = loss @ rowLosses, passThrough = False\<rparr>))"

definition receive_data :: "FECReceiver \<Rightarrow> u32 \<Rightarrow> u32 \<Rightarrow> u8 \<Rightarrow> bytes \<Rightarrow> FECReceiver \<times> receive_result" where
  "receive_data r seqNo timestamp encFlag payload =
     (if seqDiff (fr_cellBase r) seqNo < 0 \<or> seqNo \<in> fr_cells r
      then (r, \<lparr>recovered = [], lossReport = [], passThrough = True\<rparr>)
      else
        let r = markCell r seqNo True;
            (r, okH) = hangHorizontalData r seqNo timestamp encFlag payload;
            (r, okV, loss) =
              (if Rows (fr_cfg r) > 1 then
                 case hangVerticalData r seqNo timestamp encFlag payload of
                   (r, okV) \<Rightarrow>
                     (case dismissOldColumns r seqNo of
                        (r, colLosses) \<Rightarrow>
                          (r, okV, if colLosses \<noteq> [] \<and> ARQ (fr_cfg r) = ARQOnReq then colLosses else []))
               else (r, True, []));
            r = (if \<not> okH \<and> \<not> okV then unmarkCell r seqNo else r)
        in (r, \<lparr>recovered = fr_rebuilt r, lossReport = loss, passThrough = True\<rparr>))"

definition Receive :: "FECReceiver \<Rightarrow> u32 \<Rightarrow> u32 \<Rightarrow> u8 \<Rightarrow> u32 \<Rightarrow> bytes \<Rightarrow> FECReceiver \<times> receive_result" where
  "Receive r seqNo timestamp encFlag msgNo payload =
     (let r = checkLargeDrop (r\<lparr>fr_rebuilt := []\<rparr>) seqNo in
      if msgNo = 0 then receive_fec r seqNo timestamp payload
      else receive_data r seqNo timestamp encFlag payload)"

text \<open>The factory that the package registers under the name of the built-in filter.\<close>

type_synonym FilterFactory = "FilterConfig \<Rightarrow> int \<Rightarrow> u32 \<Rightarrow> FECSender \<times> FECReceiver"

definition init_registry :: "FilterFactory registry" where
  "init_registry =
     Register Map.empty ''fec''
       (\<lambda>cfg payloadSize isn. (NewFECSender cfg payloadSize isn, NewFECReceiver cfg payloadSize isn))"

end
