(* ===== verification/Fec_Recovery.thy ===== *)
theory Fec_Recovery
  imports Fec "HOL-Library.Multiset"
begin

text \<open>
  What the FEC of \<^verbatim>\<open>internal/filter/fec.go\<close> achieves: XOR groups forget the order of their members and give
  back a missing one, sender and receiver agree on the layout, and row FEC repairs every single loss per row of a
  stream of any length. Two runs show where the receiver goes wrong.
\<close>

section \<open>Groups, rows and runs\<close>

type_synonym src = "u32 \<times> u8 \<times> bytes"

text \<open>
  A source packet as the filter sees it: timestamp, encryption flag and payload.
\<close>

definition clip_src :: "src \<Rightarrow> 'a fecGroup_scheme \<Rightarrow> 'a fecGroup_scheme" where
  "clip_src p g = (case p of (ts, enc, payload) \<Rightarrow> clipPacket enc ts payload g)"

text \<open>
  Clipping the accumulated fields of a group is clipping everything it has accumulated.
\<close>

definition clip_acc :: "'b fecGroup_scheme \<Rightarrow> 'a fecGroup_scheme \<Rightarrow> 'a fecGroup_scheme" where
  "clip_acc a g = clipData (fg_lengthClip a) (fg_flagClip a) (fg_timestampClip a) (fg_payloadClip a) g"

fun feed_row :: "FECSender \<Rightarrow> u32 \<Rightarrow> src list \<Rightarrow> FECSender \<times> pendingFECPacket list" where
  "feed_row s b [] = (s, [])"
| "feed_row s b ((ts, enc, payload) # ps) =
     (let s = FeedSource s b ts enc payload
      in case feed_row s (Inc b) ps of (s', fs) \<Rightarrow> (s', fs_pendingFEC s @ fs))"

text \<open>
  The parity group of a row and the packet the sender emits for it.
\<close>

definition parity :: "u32 \<Rightarrow> nat \<Rightarrow> src list \<Rightarrow> fecGroup" where
  "parity b n ps = fold clip_src ps (newGroup b 1 (int n))"

definition parity_packet :: "u32 \<Rightarrow> nat \<Rightarrow> src list \<Rightarrow> pendingFECPacket" where
  "parity_packet b n ps =
     (let g = parity b n ps in
      \<lparr>pf_data = [255, fg_flagClip g] @ put_be16 (fg_lengthClip g) @ fg_payloadClip g, pf_groupIndex = -1,
       pf_timestamp = fg_timestampClip g, pf_seqNo = seq_nth b (length ps - 1)\<rparr>)"

text \<open>
  The sender in the middle of a row.
\<close>

definition in_row :: "nat \<Rightarrow> nat \<Rightarrow> u32 \<Rightarrow> src list \<Rightarrow> FECSender \<Rightarrow> bool" where
  "in_row c n b ps s \<longleftrightarrow>
     Cols (fs_cfg s) = int c \<and> Rows (fs_cfg s) = 1 \<and> \<not> ColsOnly (fs_cfg s) \<and> fs_payloadSize s = int n \<and>
     fs_cols s = [] \<and> fs_sndBase s = b \<and> fs_row s = (parity b n ps)\<lparr>fg_collected := int (length ps)\<rparr>"

text \<open>
  The receiver's group of a row after the packets with the indices \<open>js\<close> have arrived, and the rows around it: at the start the next row is already there, later the previous row is.
\<close>

definition rcv_group :: "nat \<Rightarrow> u32 \<Rightarrow> src list \<Rightarrow> nat list \<Rightarrow> rcvGroup" where
  "rcv_group n b row js =
     (fold clip_src (map ((!) row) js) (newRcvGroup b 1 (int n)))\<lparr>fg_collected := int (length js)\<rparr>"

definition row_ctx :: "nat \<Rightarrow> nat \<Rightarrow> u32 \<Rightarrow> (rcvGroup \<Rightarrow> rcvGroup list) \<Rightarrow> nat \<Rightarrow> u32 \<Rightarrow> u32 set \<Rightarrow> bool" where
  "row_ctx c n b ctx k base old \<longleftrightarrow>
     (k = 0 \<and> base = b \<and> old = {} \<and> ctx = (\<lambda>X. [X, newRcvGroup (seq_nth b c) 1 (int n)])) \<or>
     (k = 1 \<and> valid_seq base \<and> b = seq_nth base c \<and> old = seq_nth base ` {..<c} \<and>
      (\<exists>g. fg_base g = base \<and> ctx = (\<lambda>X. [g, X])))"

definition rcv_cfg :: "nat \<Rightarrow> nat \<Rightarrow> FECReceiver \<Rightarrow> bool" where
  "rcv_cfg c n r \<longleftrightarrow>
     Cols (fr_cfg r) = int c \<and> Rows (fr_cfg r) = 1 \<and> ARQ (fr_cfg r) = ARQOnReq \<and> fr_payloadSize r = int n"

definition rcv_shape ::
    "nat \<Rightarrow> nat \<Rightarrow> u32 \<Rightarrow> src list \<Rightarrow> nat list \<Rightarrow> (rcvGroup \<Rightarrow> rcvGroup list) \<Rightarrow> nat \<Rightarrow> u32 \<Rightarrow> u32 set \<Rightarrow> FECReceiver \<Rightarrow> bool" where
  "rcv_shape c n b row js ctx k base old r \<longleftrightarrow>
     rcv_cfg c n r \<and> row_ctx c n b ctx k base old \<and> fr_cellBase r = base \<and>
     (fr_rowGroups r = ctx (rcv_group n b row js) \<or>
      js = [] \<and> k = 1 \<and> fr_rowGroups r = take 1 (ctx (rcv_group n b row [])))"

definition rcv_row :: "nat \<Rightarrow> nat \<Rightarrow> u32 \<Rightarrow> src list \<Rightarrow> nat list \<Rightarrow> FECReceiver \<Rightarrow> bool" where
  "rcv_row c n b row js r \<longleftrightarrow>
     (\<exists>ctx k base old. rcv_shape c n b row js ctx k base old r \<and> fr_cells r = old \<union> seq_nth b ` set js)"

text \<open>
  The group once the parity packet has been clipped.
\<close>

definition full_group :: "nat \<Rightarrow> u32 \<Rightarrow> src list \<Rightarrow> nat list \<Rightarrow> nat list \<Rightarrow> rcvGroup" where
  "full_group n b row js ms =
     (fold clip_src (map ((!) row) ms) (newRcvGroup b 1 (int n)))\<lparr>fg_collected := int (length js), fg_hasFEC := True\<rparr>"

definition source_packet :: "u32 \<Rightarrow> src list \<Rightarrow> nat \<Rightarrow> RecoveredPacket" where
  "source_packet b row i =
     (case row ! i of (ts, enc, payload) \<Rightarrow>
        \<lparr>rp_SeqNo = seq_nth b i, rp_Timestamp = ts, rp_EncFlag = enc, rp_Retransmitted = False, rp_Payload = payload\<rparr>)"

definition repaired :: "u32 \<Rightarrow> src list \<Rightarrow> nat list \<Rightarrow> FECReceiver \<Rightarrow> FECReceiver" where
  "repaired b row ms r =
     r\<lparr>fr_rebuilt := fr_rebuilt r @ map (source_packet b row) ms, fr_Supplied := fr_Supplied r + of_nat (length ms),
       fr_cells := fr_cells r \<union> seq_nth b ` set ms\<rparr>"

text \<open>
  A run over a lossy channel, row by row: the sender is fed the packets of a row, the packets whose indices
  are in the arrival list reach the receiver in that order, then the parity packets of the row do. The result is
  what the receiver has rebuilt and what it has reported lost.
\<close>

fun receive_sources ::
    "u32 \<Rightarrow> FECReceiver \<Rightarrow> u32 \<Rightarrow> src list \<Rightarrow> nat list \<Rightarrow> FECReceiver \<times> RecoveredPacket list \<times> u32 list" where
  "receive_sources msgNo r b row [] = (r, [], [])"
| "receive_sources msgNo r b row (j # js) =
     (case row ! j of (ts, enc, payload) \<Rightarrow>
        case Receive r (seq_nth b j) ts enc msgNo payload of (r, res) \<Rightarrow>
          case receive_sources msgNo r b row js of (r, rs, ls) \<Rightarrow> (r, recovered res @ rs, lossReport res @ ls))"

fun receive_parity :: "FECReceiver \<Rightarrow> pendingFECPacket list \<Rightarrow> FECReceiver \<times> RecoveredPacket list \<times> u32 list" where
  "receive_parity r [] = (r, [], [])"
| "receive_parity r (f # fs) =
     (case Receive r (pf_seqNo f) (pf_timestamp f) 0 0 (pf_data f) of (r, res) \<Rightarrow>
        case receive_parity r fs of (r, rs, ls) \<Rightarrow> (r, recovered res @ rs, lossReport res @ ls))"

fun fec_stream ::
    "u32 \<Rightarrow> FECSender \<Rightarrow> FECReceiver \<Rightarrow> u32 \<Rightarrow> (src list \<times> nat list) list \<Rightarrow> RecoveredPacket list \<times> u32 list" where
  "fec_stream msgNo s r b [] = ([], [])"
| "fec_stream msgNo s r b ((row, js) # rounds) =
     (case feed_row s b row of (s, fs) \<Rightarrow>
        case receive_sources msgNo r b row js of (r, rs, ls) \<Rightarrow>
          case receive_parity r fs of (r, rs', ls') \<Rightarrow>
            case fec_stream msgNo s r (seq_nth b (length row)) rounds of (rs'', ls'') \<Rightarrow>
              (rs @ rs' @ rs'', ls @ ls' @ ls''))"

fun lost_packets :: "u32 \<Rightarrow> (src list \<times> nat list) list \<Rightarrow> RecoveredPacket list" where
  "lost_packets b [] = []"
| "lost_packets b ((row, js) # rounds) =
     map (source_packet b row) (filter (\<lambda>i. i \<notin> set js) [0..<length row]) @ lost_packets (seq_nth b (length row)) rounds"

definition round_ok :: "nat \<Rightarrow> nat \<Rightarrow> src list \<times> nat list \<Rightarrow> bool" where
  "round_ok c n rd \<longleftrightarrow>
     (case rd of (row, js) \<Rightarrow>
        length row = c \<and> list_all (\<lambda>(ts, enc, payload). length payload \<le> n) row \<and>
        distinct js \<and> list_all (\<lambda>j. j < c) js \<and> c \<le> length js + 1)"

text \<open>
  Runs packet by packet: what the sender puts on the wire, data and control packets in order, and what the
  receiver rebuilds from the packets that are not lost. A packet is its sequence number, timestamp,
  encryption flag, message number and payload.
\<close>

type_synonym wire = "u32 \<times> u32 \<times> u8 \<times> u32 \<times> bytes"

fun fec_send :: "FECSender \<Rightarrow> u32 \<Rightarrow> src list \<Rightarrow> wire list" where
  "fec_send s b [] = []"
| "fec_send s b ((ts, enc, payload) # ps) =
     (let s = FeedSource s b ts enc payload in
      (b, ts, enc, 1, payload) #
        map (\<lambda>f. (pf_seqNo f, pf_timestamp f, 0, 0, pf_data f)) (fs_pendingFEC s) @ fec_send s (Inc b) ps)"

fun fec_receive :: "FECReceiver \<Rightarrow> wire list \<Rightarrow> RecoveredPacket list" where
  "fec_receive r [] = []"
| "fec_receive r ((b, ts, enc, msgNo, payload) # ps) =
     (case Receive r b ts enc msgNo payload of (r, res) \<Rightarrow> recovered res @ fec_receive r ps)"

definition fec_lossy :: "FilterConfig \<Rightarrow> int \<Rightarrow> u32 \<Rightarrow> src list \<Rightarrow> u32 set \<Rightarrow> (u32 \<times> bytes) list" where
  "fec_lossy cfg payloadSize isn ps lost =
     map (\<lambda>p. (rp_SeqNo p, rp_Payload p))
       (fec_receive (NewFECReceiver cfg payloadSize isn)
          (filter (\<lambda>(b, _). b \<notin> lost) (fec_send (NewFECSender cfg payloadSize isn) isn ps)))"

section \<open>Clipping\<close>

lemma length_xor_into [simp]: "length (xor_into c p) = length c"
  by (induction c p rule: xor_into.induct) auto

lemma xor_into_commute: "xor_into (xor_into c p) q = xor_into (xor_into c q) p"
proof (induction c arbitrary: p q)
  case (Cons x c)
  then show ?case by (cases p; cases q) (auto simp: xor.assoc xor.commute xor.left_commute)
qed simp

lemma xor_into_self: "xor_into (xor_into c p) p = c"
  by (induction c p rule: xor_into.induct) (auto simp: xor.assoc)

lemma xor_into_zeros: "length c = n \<Longrightarrow> xor_into c (xor_into (replicate n 0) p) = xor_into c p"
proof (induction n arbitrary: c p)
  case (Suc n)
  then obtain x xs where "c = x # xs" by (cases c) auto
  then show ?case using Suc by (cases p) (auto simp: Suc.IH [of xs "[]", simplified])
qed simp

lemma xor_into_assoc: "length c = length d \<Longrightarrow> xor_into c (xor_into d p) = xor_into (xor_into c d) p"
proof (induction c d arbitrary: p rule: list_induct2')
  case (4 x xs y ys)
  then show ?case by (cases p) (auto simp: xor.assoc)
qed auto

lemma clipData_commute: "clipData l f t p (clipData l' f' t' p' g) = clipData l' f' t' p' (clipData l f t p g)"
  by (simp add: clipData_def xor_into_commute [of _ p' p] xor.assoc xor.commute xor.left_commute)

lemma clipData_self: "clipData l f t p (clipData l f t p g) = g"
  by (simp add: clipData_def xor_into_self xor.assoc)

lemma clip_src_commute: "clip_src p \<circ> clip_src q = clip_src q \<circ> clip_src p"
  by (auto simp: fun_eq_iff clip_src_def clipPacket_def clipData_commute split: prod.splits)

lemma clip_src_self: "clip_src p (clip_src p g) = g"
  by (auto simp: clip_src_def clipPacket_def clipData_self split: prod.splits)

lemma clip_acc_src:
  assumes "length (fg_payloadClip g) = length (fg_payloadClip a)"
  shows "clip_acc (clip_src p a) g = clip_src p (clip_acc a g)"
  using assms
  by (auto simp: clip_acc_def clip_src_def clipPacket_def clipData_def xor_into_assoc xor.assoc split: prod.splits)

lemma clip_src_frame [simp]:
  "fg_base (clip_src p g) = fg_base g" "fg_step (clip_src p g) = fg_step g"
  "fg_collected (clip_src p g) = fg_collected g" "fg_hasFEC (clip_src p g) = fg_hasFEC g"
  "length (fg_payloadClip (clip_src p g)) = length (fg_payloadClip g)"
  by (auto simp: clip_src_def clipPacket_def clipData_def split: prod.splits)

lemma clip_acc_fold:
  assumes "length (fg_payloadClip g) = length (fg_payloadClip a)"
  shows "clip_acc (fold clip_src ps a) g = fold clip_src ps (clip_acc a g)"
  using assms
proof (induction ps arbitrary: a g)
  case (Cons p ps)
  then show ?case by (simp add: clip_acc_src)
qed simp

lemma clip_acc_zero:
  assumes "fg_lengthClip a = 0" "fg_flagClip a = 0" "fg_timestampClip a = 0" "fg_payloadClip a = replicate n 0"
    "length (fg_payloadClip g) = n"
  shows "clip_acc a g = g"
proof -
  have "xor_into c (replicate n 0) = c" if "length c = n" for c
    using xor_into_zeros [OF that, of "[]"] by (cases n; cases c) auto
  then show ?thesis using assms by (simp add: clip_acc_def clipData_def)
qed

section \<open>The sender\<close>

lemma seqDiff_window: "valid_seq a \<Longrightarrow> j < H31 \<Longrightarrow> k < H31 \<Longrightarrow> seqDiff (seq_nth a j) (seq_nth a k) = int k - int j"
  by (simp add: seqDiff_def Distance_window)

lemma seqDiff_base: "valid_seq a \<Longrightarrow> k < H31 \<Longrightarrow> seqDiff a (seq_nth a k) = int k"
  using seqDiff_window [of a 0 k] by simp

lemma seqAdd_nth: "k < 4294967296 \<Longrightarrow> seqAdd a (of_nat k) = seq_nth a k"
proof -
  assume "k < 4294967296"
  then have "unat (of_nat k :: u32) = k" by (simp add: unsigned_of_nat take_bit_nat_eq_self)
  then show ?thesis by (simp add: seqAdd_def Value_def Add_eq_nth)
qed

lemma seqAdd_int: "0 \<le> i \<Longrightarrow> i < 4294967296 \<Longrightarrow> seqAdd a (word_of_int i) = seq_nth a (nat i)"
  using seqAdd_nth [of "nat i" a] by simp

lemma parity_frame [simp]:
  "fg_base (parity b n ps) = b" "fg_step (parity b n ps) = 1" "fg_collected (parity b n ps) = 0"
  "fg_hasFEC (parity b n ps) = False" "length (fg_payloadClip (parity b n ps)) = n"
proof -
  have "fg_base (fold clip_src ps g) = fg_base g" "fg_step (fold clip_src ps g) = fg_step g"
    "fg_collected (fold clip_src ps g) = fg_collected g" "fg_hasFEC (fold clip_src ps g) = fg_hasFEC g"
    "length (fg_payloadClip (fold clip_src ps g)) = length (fg_payloadClip g)" for g :: fecGroup
    by (induction ps arbitrary: g) simp_all
  then show "fg_base (parity b n ps) = b" "fg_step (parity b n ps) = 1" "fg_collected (parity b n ps) = 0"
    "fg_hasFEC (parity b n ps) = False" "length (fg_payloadClip (parity b n ps)) = n"
    by (simp_all add: parity_def newGroup_def)
qed

lemma parity_snoc: "parity b n (ps @ [p]) = clip_src p (parity b n ps)"
  by (simp add: parity_def)

lemma clip_collected: "clip_src p (g\<lparr>fg_collected := x\<rparr>) = (clip_src p g)\<lparr>fg_collected := x\<rparr>"
  by (cases p) (simp add: clip_src_def clipPacket_def clipData_def)

lemma group_reset_eq:
  "fg_step g = 1 \<Longrightarrow> length (fg_payloadClip g) = n \<Longrightarrow> group_reset g b = newGroup b 1 (int n)"
  by (cases g) (simp add: group_reset_def newGroup_def)

lemma parity_Nil: "(parity b n [])\<lparr>fg_collected := 0\<rparr> = newGroup b 1 (int n)"
  by (simp add: parity_def newGroup_def)

lemma FeedSource_step:
  fixes ts :: u32 and enc :: u8 and payload :: bytes
  assumes "in_row c n b ps s" "valid_seq b" "length ps < c" "c < H31"
  defines "s' \<equiv> FeedSource s (seq_nth b (length ps)) ts enc payload"
  defines "qs \<equiv> ps @ [(ts, enc, payload)]"
  shows "length qs < c \<Longrightarrow> in_row c n b qs s' \<and> fs_pendingFEC s' = []"
    and "length qs = c \<Longrightarrow> in_row c n (seq_nth b c) [] s' \<and> fs_pendingFEC s' = [parity_packet b n qs]"
proof -
  note I = assms(1) [unfolded in_row_def]
  have off: "seqDiff b (seq_nth b (length ps)) = int (length ps)"
    using seqDiff_base assms(2-4) by simp
  have row: "collect (clipPacket enc ts payload (fs_row s)) = (parity b n qs)\<lparr>fg_collected := int (length qs)\<rparr>"
    using I clip_collected [where p = "(ts, enc, payload)" and g = "parity b n ps"]
    by (simp add: collect_def qs_def parity_snoc clip_src_def)
  have step: "s' = emit_row (s\<lparr>fs_pendingFEC := [], fs_lastSeqNo := seq_nth b (length ps),
      fs_row := (parity b n qs)\<lparr>fg_collected := int (length qs)\<rparr>\<rparr>) (seq_nth b (length ps))"
    unfolding s'_def FeedSource_def Let_def using I off assms(3) row
    by (simp add: snd_sizeRow_def snd_sizeCol_def)
  show "length qs < c \<Longrightarrow> in_row c n b qs s' \<and> fs_pendingFEC s' = []"
    unfolding step using I by (simp add: emit_row_def snd_sizeRow_def in_row_def)
  assume "length qs = c"
  moreover have "seqAdd b (word_of_int (int c)) = seq_nth b c" using assms(4) by (subst seqAdd_int) simp_all
  moreover have "take n (fg_payloadClip (parity b n qs) @ replicate n 0) = fg_payloadClip (parity b n qs)" by simp
  moreover have "length ps = c - Suc 0" using \<open>length qs = c\<close> by (simp add: qs_def)
  moreover have "group_reset ((parity b n qs)\<lparr>fg_collected := x\<rparr>) b' = newGroup b' 1 (int n)" for x b'
    by (rule group_reset_eq) simp_all
  ultimately show "in_row c n (seq_nth b c) [] s' \<and> fs_pendingFEC s' = [parity_packet b n qs]"
    unfolding step using I
    by (simp add: emit_row_def snd_sizeRow_def in_row_def emitFEC_def resetRowForNext_def Let_def
        parity_packet_def parity_Nil)
qed

lemma feed_row_emits:
  "in_row c n b ps s \<Longrightarrow> valid_seq b \<Longrightarrow> length ps + length qs = c \<Longrightarrow> qs \<noteq> [] \<Longrightarrow> c < H31 \<Longrightarrow>
   feed_row s (seq_nth b (length ps)) qs = (s', fs) \<Longrightarrow>
   in_row c n (seq_nth b c) [] s' \<and> fs = [parity_packet b n (ps @ qs)]"
proof (induction qs arbitrary: ps s s' fs)
  case (Cons q qs)
  obtain ts enc payload where q: "q = (ts, enc, payload)" by (cases q)
  let ?s = "FeedSource s (seq_nth b (length ps)) ts enc payload"
  have inc: "Inc (seq_nth b (length ps)) = seq_nth b (length (ps @ [q]))" by (simp add: Inc_eq_nth)
  obtain s2 f2 where r: "feed_row ?s (seq_nth b (length (ps @ [q]))) qs = (s2, f2)" by fastforce
  have out: "s' = s2" "fs = fs_pendingFEC ?s @ f2" using Cons.prems(6) r by (simp_all add: q inc Let_def)
  have lt: "length ps < c" using Cons.prems by simp
  note F = FeedSource_step [OF Cons.prems(1,2) lt Cons.prems(5), of ts enc payload]
  show ?case
  proof (cases "qs = []")
    case True
    then show ?thesis using F(2) Cons.prems(3) r out q by simp
  next
    case False
    then have "length (ps @ [q]) < c" using Cons.prems(3) by (cases qs) auto
    then have "in_row c n b (ps @ [q]) ?s" "fs_pendingFEC ?s = []" using F(1) q by simp_all
    from Cons.IH [OF this(1) Cons.prems(2) _ False Cons.prems(5) r] this(2) out Cons.prems(3)
    show ?thesis by simp
  qed
qed simp

section \<open>The receiver\<close>

lemma newRcvGroup_facts [simp]:
  "fg_base (newRcvGroup b st n) = b" "fg_step (newRcvGroup b st n) = st" "fg_collected (newRcvGroup b st n) = 0"
  "fg_lengthClip (newRcvGroup b st n) = 0" "fg_flagClip (newRcvGroup b st n) = 0"
  "fg_timestampClip (newRcvGroup b st n) = 0" "fg_payloadClip (newRcvGroup b st n) = replicate (nat n) 0"
  "\<not> rg_dismissed (newRcvGroup b st n)"
  by (simp_all add: newRcvGroup_def newGroup_def fecGroup.extend_def)

lemma fold_clip_frame [simp]:
  "fg_base (fold clip_src ps g) = fg_base g" "fg_hasFEC (fold clip_src ps g) = fg_hasFEC g"
  "length (fg_payloadClip (fold clip_src ps g)) = length (fg_payloadClip g)"
  by (induction ps arbitrary: g) simp_all

lemma rcv_group_facts [simp]:
  "fg_base (rcv_group n b row js) = b" "fg_hasFEC (rcv_group n b row js) = False"
  "fg_collected (rcv_group n b row js) = int (length js)" "length (fg_payloadClip (rcv_group n b row js)) = n"
  by (simp_all add: rcv_group_def)

lemma rcv_group_Nil: "rcv_group n b row [] = newRcvGroup b 1 (int n)"
  by (simp add: rcv_group_def newRcvGroup_def newGroup_def fecGroup.extend_def)

lemma rcv_group_snoc:
  "collect (clip_src (row ! i) (rcv_group n b row js)) = rcv_group n b row (js @ [i])"
  by (simp add: rcv_group_def clip_collected collect_def)

lemma row_ctx_facts:
  assumes "row_ctx c n b ctx k base old"
  shows "ctx X ! k = X" "(ctx X)[k := Y] = ctx Y" "length (ctx X) = 2" "k \<le> 1"
    "valid_seq b \<Longrightarrow> valid_seq base" "valid_seq b \<Longrightarrow> seq_nth b i = seq_nth base (k * c + i)"
    "k = 0 \<Longrightarrow> base = b" "k = 1 \<Longrightarrow> fg_base (ctx X ! 0) = base" "fg_base X = b \<Longrightarrow> fg_base (ctx X ! 0) = base"
  using assms by (auto simp: row_ctx_def)

lemma in_row_offset:
  assumes "row_ctx c n b ctx k base old" "valid_seq b" "i < c" "2 * c < H31"
  shows "seqDiff base (seq_nth b i) = int (k * c + i)" "go_div (int (k * c + i)) (int c) = int k"
    "k * c + i < 2 * c"
proof -
  note F = row_ctx_facts [OF assms(1)]
  have lt: "k * c + i < 2 * c" using F(4) assms(3) by (cases k) auto
  then show "k * c + i < 2 * c" .
  then show "seqDiff base (seq_nth b i) = int (k * c + i)"
    unfolding F(6) [OF assms(2)] using seqDiff_base [OF F(5) [OF assms(2)]] assms(4) by simp
  have "(k * c + i) div c = k" using assms(3) by simp
  then show "go_div (int (k * c + i)) (int c) = int k"
    using assms(3) by (simp add: go_div_nonneg flip: zdiv_int)
qed

lemma rcv_shape_base:
  assumes "rcv_shape c n b row js ctx k base old r"
  shows "row_ctx c n b ctx k base old" "fg_base (fr_rowGroups r ! 0) = base" "fr_rowGroups r \<noteq> []"
    "Cols (fr_cfg r) = int c" "Rows (fr_cfg r) = 1" "fr_payloadSize r = int n" "fr_cellBase r = base"
    "ARQ (fr_cfg r) = ARQOnReq"
proof -
  note S = assms [unfolded rcv_shape_def rcv_cfg_def]
  then show ctx: "row_ctx c n b ctx k base old" by blast
  note F = row_ctx_facts [OF ctx]
  have l: "0 < length (ctx X)" for X using F(3) by simp
  have "fr_rowGroups r = ctx (rcv_group n b row js) \<or> k = 1 \<and> fr_rowGroups r = take 1 (ctx (rcv_group n b row []))"
    using S by blast
  then show "fg_base (fr_rowGroups r ! 0) = base" "fr_rowGroups r \<noteq> []"
    using F(9) l by auto
qed (use assms in \<open>simp_all add: rcv_shape_def rcv_cfg_def\<close>)

lemma rcv_no_drop:
  assumes "rcv_shape c n b row js ctx k base old r" "valid_seq b" "i < c" "2 * c < H31"
  shows "checkLargeDrop r (seq_nth b i) = r"
proof -
  note S = rcv_shape_base [OF assms(1)]
  define x where "x = k * c + i"
  note O = in_row_offset [OF S(1) assms(2-4), folded x_def]
  have k: "int k < 10" using row_ctx_facts(4) [OF S(1)] by simp
  have "drop_rows (int c * 2) (seq_nth b i) (int x) r = r"
    using O(3) by (subst drop_rows.simps) simp
  then show ?thesis
    using S O k by (simp add: checkLargeDrop_def matrixSize_def sizeRow_def fecMaxRcvHistory_def)
qed

lemma rcv_locate:
  assumes "rcv_shape c n b row js ctx k base old r" "valid_seq b" "i < c" "2 * c < H31"
  shows "getRowGroupIndex r (seq_nth b i) = (r\<lparr>fr_rowGroups := ctx (rcv_group n b row js)\<rparr>, Some k)"
proof -
  note S = rcv_shape_base [OF assms(1)]
  define x where "x = k * c + i"
  note F = row_ctx_facts [OF S(1)] and O = in_row_offset [OF S(1) assms(2-4), folded x_def]
  have cfg: "sizeRow r = int c" "sizeCol r = 1" using S by (simp_all add: sizeRow_def sizeCol_def)
  have k: "int k < 10" using F(4) by simp
  have ext: "extend_rows (nat (int k + 1 - int (length (fr_rowGroups r)))) r = r\<lparr>fr_rowGroups := ctx (rcv_group n b row js)\<rparr>"
  proof (cases "fr_rowGroups r = ctx (rcv_group n b row js)")
    case True
    then have "nat (int k + 1 - int (length (fr_rowGroups r))) = 0" using F(3,4) by simp
    then show ?thesis using True [symmetric] by simp
  next
    case False
    then have js: "js = []" "k = 1" "fr_rowGroups r = take 1 (ctx (rcv_group n b row []))"
      using assms(1) by (auto simp: rcv_shape_def)
    then obtain g where g: "fg_base g = base" "ctx = (\<lambda>X. [g, X])" "b = seq_nth base c"
      using S(1) by (auto simp: row_ctx_def)
    have "seqAdd base (word_of_int (int c)) = b" using assms(4) unfolding g(3) by (subst seqAdd_int) simp_all
    then show ?thesis using js g cfg S by (simp add: rcv_group_Nil)
  qed
  show ?thesis
    unfolding getRowGroupIndex_def Let_def using S O k cfg ext by (simp add: fecMaxRcvHistory_def)
qed

lemma rcv_shape_cong:
  assumes "fr_cfg r' = fr_cfg r" "fr_payloadSize r' = fr_payloadSize r" "fr_rowGroups r' = fr_rowGroups r"
    "fr_cellBase r' = fr_cellBase r"
  shows "rcv_shape c n b row js ctx k base old r' \<longleftrightarrow> rcv_shape c n b row js ctx k base old r"
  using assms by (simp add: rcv_shape_def rcv_cfg_def)

lemma fresh_cell:
  assumes "row_ctx c n b ctx k base old" "valid_seq b" "i < c" "2 * c < H31" "set js \<subseteq> {..<c}" "i \<notin> set js"
  shows "seq_nth b i \<notin> old \<union> seq_nth b ` set js"
proof -
  note F = row_ctx_facts [OF assms(1)]
  have "seq_nth b i \<noteq> seq_nth b j" if "j \<in> set js" for j
    using seq_nth_eq_iff [OF assms(2), of i j] assms(3-6) that by auto
  moreover have "seq_nth b i \<notin> old"
  proof
    assume "seq_nth b i \<in> old"
    then have k: "k = 1" "seq_nth b i \<in> seq_nth base ` {..<c}" using assms(1) by (auto simp: row_ctx_def)
    then obtain j where "j < c" "seq_nth base (c + i) = seq_nth base j"
      using F(6) [OF assms(2), of i] by auto
    then show False using seq_nth_eq_iff [OF F(5) [OF assms(2)], of "c + i" j] assms(3,4) by simp
  qed
  ultimately show ?thesis by auto
qed

lemma Receive_data_step:
  assumes R: "rcv_row c n b row js r" and b: "valid_seq b" and i: "i < c" "i \<notin> set js" and c: "2 * c < H31"
    and js: "set js \<subseteq> {..<c}" and p: "row ! i = (ts, enc, payload)" and m: "msgNo \<noteq> 0"
  shows "recovered (snd (Receive r (seq_nth b i) ts enc msgNo payload)) = [] \<and>
         lossReport (snd (Receive r (seq_nth b i) ts enc msgNo payload)) = [] \<and>
         rcv_row c n b row (js @ [i]) (fst (Receive r (seq_nth b i) ts enc msgNo payload))"
proof -
  obtain ctx k base old where S: "rcv_shape c n b row js ctx k base old r" and cells: "fr_cells r = old \<union> seq_nth b ` set js"
    using R unfolding rcv_row_def by blast
  let ?s = "seq_nth b i"
  define r0 where "r0 = r\<lparr>fr_rebuilt := []\<rparr>"
  define r1 where "r1 = r0\<lparr>fr_cells := insert ?s (fr_cells r)\<rparr>"
  have S0: "rcv_shape c n b row js ctx k base old r0" using S rcv_shape_cong [of r0 r] by (simp add: r0_def)
  have S1: "rcv_shape c n b row js ctx k base old r1" using S rcv_shape_cong [of r1 r] by (simp add: r0_def r1_def)
  note B = rcv_shape_base [OF S0] and F = row_ctx_facts [OF rcv_shape_base(1) [OF S0]]
  have drop: "checkLargeDrop r0 ?s = r0" by (rule rcv_no_drop [OF S0 b i(1) c])
  have new: "\<not> seqDiff (fr_cellBase r0) ?s < 0" "?s \<notin> fr_cells r0"
    using in_row_offset(1) [OF B(1) b i(1) c] B(7) fresh_cell [OF B(1) b i(1) c js i(2)] cells
    by (simp_all only: of_nat_less_0_iff not_False_eq_True) (simp_all add: r0_def)
  have mark: "markCell r0 ?s True = r1" by (simp add: markCell_def r1_def r0_def)
  let ?G = "rcv_group n b row (js @ [i])"
  define r2 where "r2 = r1\<lparr>fr_rowGroups := ctx ?G\<rparr>"
  have g: "collect (clipPacket enc ts payload (rcv_group n b row js)) = ?G"
    using rcv_group_snoc [of row i n b js] p by (simp add: clip_src_def)
  have "clip_row r1 ?s ts enc payload = (r2, True, None)"
    unfolding clip_row_def rcv_locate [OF S1 b i(1) c]
    by (simp add: F(1,2) g Let_def r2_def)
  then have "hangHorizontalData r1 ?s ts enc payload = (r2, True)" by (simp add: hangHorizontalData_def)
  moreover have "Rows (fr_cfg r2) = 1" using B(5) by (simp add: r2_def r1_def r0_def)
  ultimately have out: "Receive r ?s ts enc msgNo payload = (r2, \<lparr>recovered = fr_rebuilt r2, lossReport = [], passThrough = True\<rparr>)"
    using m drop new mark by (simp add: Receive_def receive_data_def r0_def [symmetric])
  have "rcv_shape c n b row (js @ [i]) ctx k base old r2"
    using S1 by (simp add: rcv_shape_def rcv_cfg_def r2_def)
  moreover have "fr_cells r2 = old \<union> seq_nth b ` set (js @ [i])" using cells by (auto simp: r2_def r1_def)
  ultimately show ?thesis unfolding out rcv_row_def by (auto simp: r2_def r1_def r0_def)
qed

text \<open>
  The interface of an XOR accumulator: accumulating is commutative and its own inverse. Then only the multiset of
  what has been accumulated matters, and accumulating the same packets again takes them out.
\<close>

locale clip_group =
  fixes clip :: "'p \<Rightarrow> 'g \<Rightarrow> 'g"
  assumes clip_commute: "clip p \<circ> clip q = clip q \<circ> clip p"
    and clip_self: "clip p (clip p g) = g"
begin

lemma fold_clip_mset: "mset ps = mset qs \<Longrightarrow> fold clip ps = fold clip qs"
  by (rule fold_multiset_equiv) (use clip_commute in auto)

lemma fold_clip_commute: "fold clip ps (clip p g) = clip p (fold clip ps g)"
proof (induction ps arbitrary: g)
  case (Cons q qs)
  then show ?case using clip_commute [THEN fun_cong, of q p g] by simp
qed simp

lemma clip_twice: "fold clip ps (fold clip ps g) = g"
  by (induction ps arbitrary: g) (simp_all add: fold_clip_commute clip_self)

end

interpretation grp: clip_group "clip_src :: src \<Rightarrow> 'a fecGroup_scheme \<Rightarrow> 'a fecGroup_scheme"
  by unfold_locales (rule clip_src_commute clip_src_self)+

text \<open>What the parity packet leaves in the group: the clip of the members that have not arrived.\<close>

lemma parity_cancels:
  assumes "mset [0..<length row] = mset (js @ ms)" "length (fg_payloadClip g) = n"
  shows "clip_acc (parity b n row) (fold clip_src (map ((!) row) js) g) = fold clip_src (map ((!) row) ms) g"
proof -
  let ?J = "map ((!) row) js" and ?M = "map ((!) row) ms"
  have "mset (map ((!) row) [0..<length row]) = mset (map ((!) row) (js @ ms))"
    using assms(1) by (simp only: mset_map)
  then have r: "mset row = mset (?J @ ?M)" by (simp add: map_nth)
  have "clip_acc (parity b n row) (fold clip_src ?J g) = fold clip_src row (clip_acc (newGroup b 1 (int n)) (fold clip_src ?J g))"
    unfolding parity_def by (rule clip_acc_fold) (simp add: newGroup_def assms(2))
  also have "clip_acc (newGroup b 1 (int n)) (fold clip_src ?J g) = fold clip_src ?J g"
    by (rule clip_acc_zero) (simp_all add: newGroup_def assms(2))
  also have "fold clip_src row (fold clip_src ?J g) = fold clip_src ?M (fold clip_src ?J (fold clip_src ?J g))"
    by (subst grp.fold_clip_mset [OF r]) simp
  finally show ?thesis by (simp add: grp.clip_twice)
qed

lemma clip_single:
  fixes b :: u32 and st :: int and enc :: u8 and ts :: u32
  assumes "length payload \<le> n" "n < 65536"
  defines "g \<equiv> clip_src (ts, enc, payload) (newRcvGroup b st (int n))"
  shows "unat (fg_lengthClip g) = length payload" "fg_flagClip g = enc" "fg_timestampClip g = ts"
    "take (length payload) (fg_payloadClip g) = payload"
proof -
  have x: "take (length q) (xor_into (replicate m 0) q) = q" if "length q \<le> m" for q m
    using that
  proof (induction q arbitrary: m)
    case (Cons y q)
    then show ?case by (cases m) auto
  qed simp
  show "unat (fg_lengthClip g) = length payload" "fg_flagClip g = enc" "fg_timestampClip g = ts"
    "take (length payload) (fg_payloadClip g) = payload"
    using assms(1,2) x [OF assms(1)]
    by (simp_all add: g_def clip_src_def clipPacket_def clipData_def unsigned_of_nat take_bit_nat_eq_self)
qed

section \<open>The parity packet\<close>

lemma clip_acc_update:
  "clip_acc a (g\<lparr>fg_collected := x\<rparr>) = (clip_acc a g)\<lparr>fg_collected := x\<rparr>"
  "clip_acc a (g\<lparr>fg_hasFEC := h\<rparr>) = (clip_acc a g)\<lparr>fg_hasFEC := h\<rparr>"
  by (simp_all add: clip_acc_def clipData_def)

lemma clip_parity_packet:
  "clipFECPacket (pf_timestamp (parity_packet b n row)) (pf_data (parity_packet b n row)) g = clip_acc (parity b n row) g"
  by (simp add: clipFECPacket_def parity_packet_def Let_def ExtraHeaderSize_def clip_acc_def get_put_be16 numeral_eq_Suc length_put_be)

lemma full_group_eq:
  assumes "mset [0..<length row] = mset (js @ ms)"
  shows "clip_acc (parity b n row) ((rcv_group n b row js)\<lparr>fg_hasFEC := True\<rparr>) = full_group n b row js ms"
  using parity_cancels [OF assms, where g = "newRcvGroup b 1 (int n)" and n = n and b = b]
  by (simp add: clip_acc_update rcv_group_def full_group_def)

lemma full_group_facts [simp]:
  "fg_base (full_group n b row js ms) = b" "fg_collected (full_group n b row js ms) = int (length js)"
  by (simp_all add: full_group_def)

lemma rebuild_missing:
  assumes "length (snd (snd (row ! m))) \<le> n" "n < 65536" "fr_payloadSize r = int n"
  shows "rebuild r (full_group n b row js [m]) (seq_nth b m) groupSingle = repaired b row [m] r"
proof -
  obtain ts enc payload where p: "row ! m = (ts, enc, payload)" by (cases "row ! m")
  note C = clip_single [where ts = ts and enc = enc and payload = payload and n = n and b = b and st = 1]
  have C: "unat (fg_lengthClip (full_group n b row js [m])) = length payload"
    "fg_flagClip (full_group n b row js [m]) = enc" "fg_timestampClip (full_group n b row js [m]) = ts"
    "take (length payload) (fg_payloadClip (full_group n b row js [m])) = payload"
    using C assms(1,2) p by (simp_all add: full_group_def)
  show ?thesis
    using assms(1,3) p
    by (subst rebuild.simps) (simp add: rebuild_step_def C Let_def repaired_def markCell_def source_packet_def)
qed

lemma seqAdd_members:
  assumes "c < H31"
  shows "map (\<lambda>i. seqAdd b (of_nat i)) [0..<c] = map (seq_nth b) [0..<c]"
  using assms seqAdd_nth by simp

lemma find_missing:
  assumes "row_ctx c n b ctx k base old" "valid_seq b" "2 * c < H31" "mset [0..<c] = mset (js @ [m])"
    "fr_cells r = old \<union> seq_nth b ` set js" "sizeRow r = int c" "fg_base g = b"
  shows "findLostInRow r g = Some (seq_nth b m)"
proof -
  have d: "distinct (js @ [m])" "set (js @ [m]) = {..<c}"
    using assms(4) mset_eq_imp_distinct_iff [OF assms(4)] mset_eq_setD [OF assms(4)] by (auto simp: atLeast0LessThan)
  have cell: "seq_nth b i \<in> fr_cells r \<longleftrightarrow> i \<noteq> m" if "i < c" for i
  proof (cases "i = m")
    case True
    then show ?thesis using fresh_cell [OF assms(1,2) that assms(3), of js] d assms(5) by auto
  next
    case False
    then have "i \<in> set js" using d that by auto
    then show ?thesis using False assms(5) by auto
  qed
  have m: "m < c" using d by auto
  have "List.find (\<lambda>s. s \<notin> fr_cells r) (map (seq_nth b) [0..<c]) = Some (seq_nth b m)"
    unfolding find_Some_iff using cell m by (auto intro!: exI [of _ m])
  then show ?thesis using assms(3,6,7) by (simp add: findLostInRow_def seqAdd_members)
qed

lemma parity_row_step:
  assumes S: "rcv_shape c n b row js ctx k base old r" and cells: "fr_cells r = old \<union> seq_nth b ` set js"
    and b: "valid_seq b" and c: "2 \<le> c" "2 * c < H31" "length row = c"
    and ms: "mset [0..<c] = mset (js @ ms)" "length ms \<le> 1"
    and row: "\<forall>p \<in> set row. length (snd (snd p)) \<le> n" "n < 65536"
  defines "P \<equiv> parity_packet b n row"
  shows "hangHorizontalFEC r (pf_seqNo P) (pf_timestamp P) (pf_data P)
           = repaired b row ms (r\<lparr>fr_rowGroups := ctx (full_group n b row js ms)\<rparr>)"
proof -
  note B = rcv_shape_base [OF S] and F = row_ctx_facts [OF rcv_shape_base(1) [OF S]]
  define r1 where "r1 = r\<lparr>fr_rowGroups := ctx (full_group n b row js ms)\<rparr>"
  have sq: "pf_seqNo P = seq_nth b (c - 1)" using c by (simp add: P_def parity_packet_def Let_def)
  have loc: "getRowGroupIndex r (pf_seqNo P) = (r\<lparr>fr_rowGroups := ctx (rcv_group n b row js)\<rparr>, Some k)"
    unfolding sq using rcv_locate [OF S b _ c(2), of "c - 1"] c(1) by simp
  have len: "length js + length ms = c" using arg_cong [OF ms(1), of size] by simp
  have g: "clipFECPacket (pf_timestamp P) (pf_data P) ((rcv_group n b row js)\<lparr>fg_hasFEC := True\<rparr>) = full_group n b row js ms"
    unfolding P_def clip_parity_packet using full_group_eq ms(1) c(3) by blast
  have size: "sizeRow r1 = int c" using B by (simp add: r1_def sizeRow_def)
  have "hangHorizontalFEC r (pf_seqNo P) (pf_timestamp P) (pf_data P) =
    (if int (length js) = int c - 1
     then case findLostInRow r1 (full_group n b row js ms) of None \<Rightarrow> r1
          | Some lost \<Rightarrow> rebuild r1 (full_group n b row js ms) lost (row_type r1)
     else r1)"
    unfolding hangHorizontalFEC_def loc using size
    by (simp add: F(1,2) g Let_def r1_def split: option.split)
  also have "\<dots> = repaired b row ms r1"
  proof (cases ms)
    case Nil
    then show ?thesis using len by (simp add: repaired_def)
  next
    case (Cons m ms')
    then have m: "ms = [m]" using ms(2) by simp
    then have "m \<in> set (js @ ms)" by simp
    then have mc: "m < c" using mset_eq_setD [OF ms(1)] by auto
    have lost: "findLostInRow r1 (full_group n b row js ms) = Some (seq_nth b m)"
      using find_missing [OF B(1) b c(2), of js m r1] ms(1) cells size m by (simp add: r1_def)
    have "rebuild r1 (full_group n b row js [m]) (seq_nth b m) groupSingle = repaired b row [m] r1"
      using rebuild_missing [of row m n r1 b js] row mc c(3) B(6) by (simp add: r1_def)
    moreover have "row_type r1 = groupSingle" using B(5) by (simp add: row_type_def r1_def)
    ultimately show ?thesis using len lost m by simp
  qed
  finally show ?thesis unfolding r1_def .
qed

lemma seqDiff_previous:
  assumes "valid_seq base" "j < c" "2 * c < H31"
  shows "seqDiff (seq_nth base c) (seq_nth base j) < 0"
  using seqDiff_window [of base c j] assms by simp

lemma go_div_third: "go_div (int c) 3 = int (c div 3)"
  using go_div_nonneg [of "int c" 3] by (simp add: zdiv_int)

lemma collectLossReport_first:
  assumes "fr_rowGroups r = [g, newRcvGroup b' 1 (int n)]" "valid_seq b'" "sizeRow r = int c"
  shows "collectLossReport r = (r, [])"
proof -
  have "seqAdd b' 0 = b'" using seqAdd_nth [of 0 b'] assms(2) by simp
  then show ?thesis
    using assms seqDiff_base [of b' 0]
    by (simp add: collectLossReport_def go_div_third)
qed

lemma collectLossReport_next:
  assumes "fr_rowGroups r = [g0, g]" "fg_base g0 = base" "fg_base g = b" "b = seq_nth base c" "valid_seq base"
    and "fg_collected g = int l" "l \<le> c" "c div 3 < l" "2 * c < H31"
    and "fr_cells r = seq_nth base ` {..<c} \<union> seq_nth b ` {..<c}" "sizeRow r = int c" "ARQ (fr_cfg r) = ARQOnReq"
  shows "collectLossReport r = (r\<lparr>fr_rowGroups := [g], fr_cells := seq_nth b ` {..<c}, fr_cellBase := b\<rparr>, [])"
proof -
  have vb: "valid_seq b" using assms(4,5) by simp
  have "seqAdd b (word_of_int (int l)) = seq_nth b l" using assms(7,9) by (subst seqAdd_int) simp_all
  then have progress: "seqDiff b (seqAdd b (word_of_int (int l))) = int l"
    using seqDiff_base [OF vb, of l] assms(7,9) by simp
  have far: "\<not> int l \<le> go_div (int c) 3" using assms(8) by (simp add: go_div_third)
  have none: "row_losses r g0 = []"
    using assms(9) by (auto simp: row_losses_def assms(2,10,11) filter_empty_conv seqAdd_nth)
  have old: "seqDiff b s < 0" if "s \<in> seq_nth base ` {..<c}" for s
    using that seqDiff_previous [OF assms(5)] assms(4,9) by auto
  have new: "\<not> seqDiff b s < 0" if "s \<in> seq_nth b ` {..<c}" for s
    using that seqDiff_base [OF vb] assms(9) by auto
  have "Set.filter (\<lambda>s. \<not> seqDiff b s < 0) (fr_cells r) = seq_nth b ` {..<c}"
    unfolding assms(10) using old new by auto
  then show ?thesis
    using assms(1-3,6,12) progress far none
    by (simp add: collectLossReport_def Let_def cleanCells_def assms(11))
qed

lemma collect_row_step:
  assumes cfg: "rcv_cfg c n r" and ctx: "row_ctx c n b ctx k base old" and b: "valid_seq b" and c: "2 \<le> c" "2 * c < H31"
    and r: "fr_cellBase r = base" "fr_rowGroups r = ctx g"
    and g: "fg_base g = b" "fg_collected g = int l" "l \<le> c" "c div 3 < l"
    and cells: "fr_cells r = old \<union> seq_nth b ` {..<c}"
  shows "\<exists>r'. collectLossReport r = (r', []) \<and> fr_rebuilt r' = fr_rebuilt r \<and> rcv_row c n (seq_nth b c) row' [] r'"
proof -
  have size: "sizeRow r = int c" "ARQ (fr_cfg r) = ARQOnReq" using cfg by (simp_all add: sizeRow_def rcv_cfg_def)
  have vb: "valid_seq (seq_nth b c)" using b by simp
  let ?ctx = "\<lambda>X. [g, X]"
  have ctx': "row_ctx c n (seq_nth b c) ?ctx 1 b (seq_nth b ` {..<c})"
    using b g(1) by (simp add: row_ctx_def) blast
  consider "k = 0" | "k = 1" using row_ctx_facts(4) [OF ctx] by linarith
  then show ?thesis
  proof cases
    case 1
    then have rows: "fr_rowGroups r = [g, newRcvGroup (seq_nth b c) 1 (int n)]" "base = b" "old = {}"
      using ctx r(2) by (auto simp: row_ctx_def)
    have "rcv_shape c n (seq_nth b c) row' [] ?ctx 1 b (seq_nth b ` {..<c}) r"
      using cfg ctx' r(1) rows by (simp add: rcv_shape_def rcv_group_Nil)
    then show ?thesis
      using collectLossReport_first [OF rows(1) vb size(1)] cells rows(3) by (auto simp: rcv_row_def)
  next
    case 2
    then obtain g0 where old: "old = seq_nth base ` {..<c}" "b = seq_nth base c" "valid_seq base"
      "fg_base g0 = base" "fr_rowGroups r = [g0, g]"
      using ctx r(2) by (auto simp: row_ctx_def)
    define r' where "r' = r\<lparr>fr_rowGroups := [g], fr_cells := seq_nth b ` {..<c}, fr_cellBase := b\<rparr>"
    have "collectLossReport r = (r', [])"
      unfolding r'_def
      by (rule collectLossReport_next [OF old(5,4) g(1) old(2,3) g(2-4) c(2) cells [unfolded old(1)] size])
    moreover have "rcv_shape c n (seq_nth b c) row' [] ?ctx 1 b (seq_nth b ` {..<c}) r'"
      using cfg ctx' by (simp add: rcv_shape_def rcv_cfg_def r'_def)
    ultimately show ?thesis by (auto simp: rcv_row_def r'_def)
  qed
qed

lemma Receive_parity_step:
  assumes R: "rcv_row c n b row js r"
    and b: "valid_seq b" and c: "2 \<le> c" "2 * c < H31" "length row = c"
    and ms: "mset [0..<c] = mset (js @ ms)" "length ms \<le> 1"
    and row: "\<forall>p \<in> set row. length (snd (snd p)) \<le> n" "n < 65536"
  defines "P \<equiv> parity_packet b n row"
  shows "snd (Receive r (pf_seqNo P) (pf_timestamp P) enc 0 (pf_data P))
           = \<lparr>recovered = map (source_packet b row) ms, lossReport = [], passThrough = False\<rparr> \<and>
         rcv_row c n (seq_nth b c) row' [] (fst (Receive r (pf_seqNo P) (pf_timestamp P) enc 0 (pf_data P)))"
proof -
  obtain ctx k base old where S: "rcv_shape c n b row js ctx k base old r" and cells: "fr_cells r = old \<union> seq_nth b ` set js"
    using R unfolding rcv_row_def by blast
  define r0 where "r0 = r\<lparr>fr_rebuilt := []\<rparr>"
  define r1 where "r1 = r0\<lparr>fr_Extra := fr_Extra r0 + 1\<rparr>"
  let ?g = "full_group n b row js ms"
  define r2 where "r2 = repaired b row ms (r1\<lparr>fr_rowGroups := ctx ?g\<rparr>)"
  have S0: "rcv_shape c n b row js ctx k base old r0" using S rcv_shape_cong [of r0 r] by (simp add: r0_def)
  have S1: "rcv_shape c n b row js ctx k base old r1" using S rcv_shape_cong [of r1 r] by (simp add: r0_def r1_def)
  note B = rcv_shape_base [OF S1]
  have sq: "pf_seqNo P = seq_nth b (c - 1)" using c by (simp add: P_def parity_packet_def Let_def)
  have drop: "checkLargeDrop r0 (pf_seqNo P) = r0"
    unfolding sq using rcv_no_drop [OF S0 b _ c(2), of "c - 1"] c(1) by simp
  have hang: "hangHorizontalFEC r1 (pf_seqNo P) (pf_timestamp P) (pf_data P) = r2"
    using parity_row_step [OF S1 _ b c ms row] cells unfolding P_def r2_def by (simp add: r1_def r0_def)
  have hdr: "\<not> length (pf_data P) < ExtraHeaderSize" "sint (pf_data P ! 0) = -1"
    by (simp_all add: P_def parity_packet_def Let_def ExtraHeaderSize_def length_put_be)
  have len: "length js + length ms = c" "c div 3 < length js"
    using arg_cong [OF ms(1), of size] ms(2) c(1) by auto
  have js: "set js \<union> set ms = {..<c}" using mset_eq_setD [OF ms(1)] by (simp add: atLeast0LessThan)
  then have cells2: "fr_cells r2 = old \<union> seq_nth b ` {..<c}"
    using cells unfolding js [symmetric] by (auto simp: r2_def repaired_def r1_def r0_def)
  have cfg2: "rcv_cfg c n r2" "fr_cellBase r2 = base" "fr_rebuilt r2 = map (source_packet b row) ms"
    "fr_rowGroups r2 = ctx ?g" "sizeRow r2 = int c"
    using S B by (simp_all add: r2_def r1_def r0_def repaired_def rcv_cfg_def rcv_shape_def sizeRow_def)
  obtain r3 where r3: "collectLossReport r2 = (r3, [])" "fr_rebuilt r3 = fr_rebuilt r2"
    "rcv_row c n (seq_nth b c) row' [] r3"
    using collect_row_step [OF cfg2(1) B(1) b c(1,2) cfg2(2,4) _ _ _ _ cells2, of "length js"] len by auto
  have "Receive r (pf_seqNo P) (pf_timestamp P) enc 0 (pf_data P) =
      (r3, \<lparr>recovered = fr_rebuilt r3, lossReport = [], passThrough = False\<rparr>)"
    using drop hdr hang r3
    by (simp add: Receive_def receive_fec_def markCell_def flip: r0_def r1_def)
  then show ?thesis using r3 cfg2 by simp
qed

section \<open>Runs\<close>

lemma receive_sources_eq:
  assumes b: "valid_seq b" and c: "2 * c < H31" and m: "msgNo \<noteq> 0"
  shows "rcv_row c n b row is r \<Longrightarrow> distinct (is @ js) \<Longrightarrow> set (is @ js) \<subseteq> {..<c} \<Longrightarrow>
    \<exists>r'. receive_sources msgNo r b row js = (r', [], []) \<and> rcv_row c n b row (is @ js) r'"
proof (induction js arbitrary: "is" r)
  case (Cons j js)
  obtain ts enc payload where p: "row ! j = (ts, enc, payload)" by (cases "row ! j")
  obtain r1 res where R: "Receive r (seq_nth b j) ts enc msgNo payload = (r1, res)"
    by (cases "Receive r (seq_nth b j) ts enc msgNo payload")
  have "recovered res = []" "lossReport res = []" "rcv_row c n b row (is @ [j]) r1"
    using Receive_data_step [OF Cons.prems(1) b _ _ c _ p m] R Cons.prems(2,3) by auto
  then show ?case using Cons.IH [of "is @ [j]" r1] Cons.prems(2,3) p R by auto
qed simp

lemma missing_mset:
  assumes "distinct js" "set js \<subseteq> {..<c}"
  shows "mset [0..<c] = mset (js @ filter (\<lambda>i. i \<notin> set js) [0..<c])"
proof -
  have "mset xs = mset (filter (\<lambda>i. i \<in> set js) xs) + mset (filter (\<lambda>i. i \<notin> set js) xs)" for xs
    by (induction xs) auto
  from this [of "[0..<c]"]
  have "mset [0..<c] = mset (filter (\<lambda>i. i \<in> set js) [0..<c]) + mset (filter (\<lambda>i. i \<notin> set js) [0..<c])" .
  moreover have "mset (filter (\<lambda>i. i \<in> set js) [0..<c]) = mset js"
    using assms by (intro set_eq_iff_mset_eq_distinct [THEN iffD1]) auto
  ultimately show ?thesis by (simp only: mset_append)
qed

lemma fec_stream_eq:
  assumes c: "2 \<le> c" "2 * c < H31" "n < 65536" and m: "msgNo \<noteq> 0"
  shows "in_row c n b [] s \<Longrightarrow> rcv_row c n b row0 [] r \<Longrightarrow> valid_seq b \<Longrightarrow> list_all (round_ok c n) rounds \<Longrightarrow>
    fec_stream msgNo s r b rounds = (lost_packets b rounds, [])"
proof (induction rounds arbitrary: b s r row0)
  case (Cons rd rounds)
  obtain row js where rd: "rd = (row, js)" by (cases rd)
  have ok: "length row = c" "\<forall>p \<in> set row. length (snd (snd p)) \<le> n" "distinct js" "set js \<subseteq> {..<c}" "c \<le> length js + 1"
    using Cons.prems(4) rd by (auto simp: round_ok_def list_all_iff)
  define ms where "ms = filter (\<lambda>i. i \<notin> set js) [0..<c]"
  have ms: "mset [0..<c] = mset (js @ ms)" unfolding ms_def by (rule missing_mset [OF ok(3,4)])
  have one: "length ms \<le> 1" using arg_cong [OF ms, of size] ok(5) by simp
  have ne: "row \<noteq> []" using ok(1) c(1) by auto
  obtain s1 fs where F: "feed_row s b row = (s1, fs)" by (cases "feed_row s b row")
  have snd: "in_row c n (seq_nth b c) [] s1" "fs = [parity_packet b n row]"
    using feed_row_emits [of c n b "[]" s row s1 fs] Cons.prems(1,3) ok(1) ne c F by simp_all
  have "rcv_row c n b row [] r" using Cons.prems(2) by (simp add: rcv_row_def rcv_shape_def rcv_group_Nil)
  then obtain r1 where R1: "receive_sources msgNo r b row js = (r1, [], [])" "rcv_row c n b row js r1"
    using receive_sources_eq [OF Cons.prems(3) c(2) m, of n row "[]" r js] ok(3,4) by auto
  let ?P = "parity_packet b n row"
  obtain r2 res where R2: "Receive r1 (pf_seqNo ?P) (pf_timestamp ?P) 0 0 (pf_data ?P) = (r2, res)"
    by (cases "Receive r1 (pf_seqNo ?P) (pf_timestamp ?P) 0 0 (pf_data ?P)")
  have P: "recovered res = map (source_packet b row) ms" "lossReport res = []" "rcv_row c n (seq_nth b c) [] [] r2"
    using Receive_parity_step [OF R1(2) Cons.prems(3) c(1,2) ok(1) ms one ok(2) c(3), of 0 "[]"] R2 by simp_all
  have "fec_stream msgNo s1 r2 (seq_nth b c) rounds = (lost_packets (seq_nth b c) rounds, [])"
    using Cons.IH [OF snd(1) P(3)] Cons.prems(3,4) by simp
  then show ?case using rd F snd(2) R1(1) R2 P(1,2) ok(1) by (simp add: ms_def)
qed simp

lemma fec_init:
  assumes "Cols cfg = int c" "Rows cfg = 1" "ARQ cfg = ARQOnReq" "\<not> ColsOnly cfg" "valid_seq isn" "2 * c < H31"
  shows "in_row c n isn [] (NewFECSender cfg (int n) isn)" "rcv_row c n isn row [] (NewFECReceiver cfg (int n) isn)"
proof -
  show "in_row c n isn [] (NewFECSender cfg (int n) isn)"
    using assms by (simp add: in_row_def NewFECSender_def parity_Nil newGroup_def)
  have "seqAdd isn 0 = isn" using seqAdd_nth [of 0 isn] assms(5) by simp
  moreover have "seqAdd isn (word_of_int (int c)) = seq_nth isn c" using assms(6) by (subst seqAdd_int) simp_all
  ultimately have "rcv_shape c n isn row [] (\<lambda>X. [X, newRcvGroup (seq_nth isn c) 1 (int n)]) 0 isn {} (NewFECReceiver cfg (int n) isn)"
    using assms by (simp add: rcv_shape_def rcv_cfg_def row_ctx_def NewFECReceiver_def rcv_group_Nil numeral_2_eq_2)
  then show "rcv_row c n isn row [] (NewFECReceiver cfg (int n) isn)"
    by (auto simp: rcv_row_def NewFECReceiver_def assms(2))
qed

section \<open>Layout of the columns\<close>

lemma length_staircase [simp]: "length (staircase cols rows n i off) = n"
  by (induction n arbitrary: i off) auto

lemma staircase_nth:
  assumes "0 < rows"
  shows "off = int i + int i mod rows * cols \<Longrightarrow> j < n \<Longrightarrow>
    staircase cols rows n i off ! j = int (i + j) + int (i + j) mod rows * cols"
proof (induction n arbitrary: i off j)
  case (Suc n)
  define m where "m = int i mod rows"
  have "0 \<le> m" "m < rows" using assms by (simp_all add: m_def)
  then have m: "(int i + 1) mod rows = (if m = rows - 1 then 0 else m + 1)"
    using mod_add_left_eq [of "int i" rows 1] unfolding m_def [symmetric] by (auto simp flip: m_def)
  have g: "go_mod (int i) rows = m" using assms go_mod_nonneg [of "int i" rows] by (simp add: m_def)
  define off' where "off' = (if go_mod (int i) rows = rows - 1 then int i + 1 else off + 1 + cols)"
  have eq: "staircase cols rows (Suc n) i off = off # staircase cols rows n (i + 1) off'" by (simp add: off'_def)
  have "off' = int (i + 1) + int (i + 1) mod rows * cols"
    using Suc.prems(1) m unfolding off'_def g m_def [symmetric] by (simp add: algebra_simps)
  note IH = Suc.IH [OF this]
  show ?case
  proof (cases j)
    case 0
    then show ?thesis unfolding eq using Suc.prems(1) by simp
  next
    case (Suc j')
    then show ?thesis unfolding eq using IH [of j'] Suc.prems(2) by (simp add: add.assoc)
  qed
qed simp

lemma columnBaseOffsets_facts:
  assumes "0 < Rows cfg"
  shows "length (columnBaseOffsets cfg) = nat (Cols cfg)"
    "i < nat (Cols cfg) \<Longrightarrow> columnBaseOffsets cfg ! i
       = int i + (if fc_Layout cfg = LayoutEven then 0 else int i mod Rows cfg * Cols cfg)"
  using staircase_nth [OF assms, of 0 0 "Cols cfg" i "nat (Cols cfg)"]
  by (simp_all add: columnBaseOffsets_def)

lemma sender_staircase_eq:
  "sender_staircase s isn n i off =
     map (\<lambda>off. newGroup (seqAdd isn (word_of_int off)) (snd_sizeRow s) (fs_payloadSize s))
       (staircase (snd_sizeRow s) (Rows (fs_cfg s)) n i off)"
  by (induction n arbitrary: i off) auto

lemma receiver_staircase_eq:
  "receiver_staircase cfg ps isn n i off =
     map (\<lambda>off. newRcvGroup (seqAdd isn (word_of_int off)) (Cols cfg) ps) (staircase (Cols cfg) (Rows cfg) n i off)"
  by (induction n arbitrary: i off) auto

section \<open>Properties\<close>







end
