(* ===== verification/Aes.thy ===== *)
theory Aes
  imports Srt_Prelude
begin

text \<open>
  The block cipher of the standard library that \<^verbatim>\<open>internal/crypto\<close> uses (\<^verbatim>\<open>crypto/aes\<close>, FIPS 197). A block is a list
  of 16 bytes in the order of the standard, column by column.

  Decryption is the inverse of encryption for every key; a known-answer vector of the standard pins the model to
  the algorithm.
\<close>

section \<open>Rounds\<close>

definition sbox_table :: bytes where
  "sbox_table =
    [0x63, 0x7c, 0x77, 0x7b, 0xf2, 0x6b, 0x6f, 0xc5, 0x30, 0x01, 0x67, 0x2b, 0xfe, 0xd7, 0xab, 0x76,
     0xca, 0x82, 0xc9, 0x7d, 0xfa, 0x59, 0x47, 0xf0, 0xad, 0xd4, 0xa2, 0xaf, 0x9c, 0xa4, 0x72, 0xc0,
     0xb7, 0xfd, 0x93, 0x26, 0x36, 0x3f, 0xf7, 0xcc, 0x34, 0xa5, 0xe5, 0xf1, 0x71, 0xd8, 0x31, 0x15,
     0x04, 0xc7, 0x23, 0xc3, 0x18, 0x96, 0x05, 0x9a, 0x07, 0x12, 0x80, 0xe2, 0xeb, 0x27, 0xb2, 0x75,
     0x09, 0x83, 0x2c, 0x1a, 0x1b, 0x6e, 0x5a, 0xa0, 0x52, 0x3b, 0xd6, 0xb3, 0x29, 0xe3, 0x2f, 0x84,
     0x53, 0xd1, 0x00, 0xed, 0x20, 0xfc, 0xb1, 0x5b, 0x6a, 0xcb, 0xbe, 0x39, 0x4a, 0x4c, 0x58, 0xcf,
     0xd0, 0xef, 0xaa, 0xfb, 0x43, 0x4d, 0x33, 0x85, 0x45, 0xf9, 0x02, 0x7f, 0x50, 0x3c, 0x9f, 0xa8,
     0x51, 0xa3, 0x40, 0x8f, 0x92, 0x9d, 0x38, 0xf5, 0xbc, 0xb6, 0xda, 0x21, 0x10, 0xff, 0xf3, 0xd2,
     0xcd, 0x0c, 0x13, 0xec, 0x5f, 0x97, 0x44, 0x17, 0xc4, 0xa7, 0x7e, 0x3d, 0x64, 0x5d, 0x19, 0x73,
     0x60, 0x81, 0x4f, 0xdc, 0x22, 0x2a, 0x90, 0x88, 0x46, 0xee, 0xb8, 0x14, 0xde, 0x5e, 0x0b, 0xdb,
     0xe0, 0x32, 0x3a, 0x0a, 0x49, 0x06, 0x24, 0x5c, 0xc2, 0xd3, 0xac, 0x62, 0x91, 0x95, 0xe4, 0x79,
     0xe7, 0xc8, 0x37, 0x6d, 0x8d, 0xd5, 0x4e, 0xa9, 0x6c, 0x56, 0xf4, 0xea, 0x65, 0x7a, 0xae, 0x08,
     0xba, 0x78, 0x25, 0x2e, 0x1c, 0xa6, 0xb4, 0xc6, 0xe8, 0xdd, 0x74, 0x1f, 0x4b, 0xbd, 0x8b, 0x8a,
     0x70, 0x3e, 0xb5, 0x66, 0x48, 0x03, 0xf6, 0x0e, 0x61, 0x35, 0x57, 0xb9, 0x86, 0xc1, 0x1d, 0x9e,
     0xe1, 0xf8, 0x98, 0x11, 0x69, 0xd9, 0x8e, 0x94, 0x9b, 0x1e, 0x87, 0xe9, 0xce, 0x55, 0x28, 0xdf,
     0x8c, 0xa1, 0x89, 0x0d, 0xbf, 0xe6, 0x42, 0x68, 0x41, 0x99, 0x2d, 0x0f, 0xb0, 0x54, 0xbb, 0x16]"

definition inv_sbox_table :: bytes where
  "inv_sbox_table =
    [0x52, 0x09, 0x6a, 0xd5, 0x30, 0x36, 0xa5, 0x38, 0xbf, 0x40, 0xa3, 0x9e, 0x81, 0xf3, 0xd7, 0xfb,
     0x7c, 0xe3, 0x39, 0x82, 0x9b, 0x2f, 0xff, 0x87, 0x34, 0x8e, 0x43, 0x44, 0xc4, 0xde, 0xe9, 0xcb,
     0x54, 0x7b, 0x94, 0x32, 0xa6, 0xc2, 0x23, 0x3d, 0xee, 0x4c, 0x95, 0x0b, 0x42, 0xfa, 0xc3, 0x4e,
     0x08, 0x2e, 0xa1, 0x66, 0x28, 0xd9, 0x24, 0xb2, 0x76, 0x5b, 0xa2, 0x49, 0x6d, 0x8b, 0xd1, 0x25,
     0x72, 0xf8, 0xf6, 0x64, 0x86, 0x68, 0x98, 0x16, 0xd4, 0xa4, 0x5c, 0xcc, 0x5d, 0x65, 0xb6, 0x92,
     0x6c, 0x70, 0x48, 0x50, 0xfd, 0xed, 0xb9, 0xda, 0x5e, 0x15, 0x46, 0x57, 0xa7, 0x8d, 0x9d, 0x84,
     0x90, 0xd8, 0xab, 0x00, 0x8c, 0xbc, 0xd3, 0x0a, 0xf7, 0xe4, 0x58, 0x05, 0xb8, 0xb3, 0x45, 0x06,
     0xd0, 0x2c, 0x1e, 0x8f, 0xca, 0x3f, 0x0f, 0x02, 0xc1, 0xaf, 0xbd, 0x03, 0x01, 0x13, 0x8a, 0x6b,
     0x3a, 0x91, 0x11, 0x41, 0x4f, 0x67, 0xdc, 0xea, 0x97, 0xf2, 0xcf, 0xce, 0xf0, 0xb4, 0xe6, 0x73,
     0x96, 0xac, 0x74, 0x22, 0xe7, 0xad, 0x35, 0x85, 0xe2, 0xf9, 0x37, 0xe8, 0x1c, 0x75, 0xdf, 0x6e,
     0x47, 0xf1, 0x1a, 0x71, 0x1d, 0x29, 0xc5, 0x89, 0x6f, 0xb7, 0x62, 0x0e, 0xaa, 0x18, 0xbe, 0x1b,
     0xfc, 0x56, 0x3e, 0x4b, 0xc6, 0xd2, 0x79, 0x20, 0x9a, 0xdb, 0xc0, 0xfe, 0x78, 0xcd, 0x5a, 0xf4,
     0x1f, 0xdd, 0xa8, 0x33, 0x88, 0x07, 0xc7, 0x31, 0xb1, 0x12, 0x10, 0x59, 0x27, 0x80, 0xec, 0x5f,
     0x60, 0x51, 0x7f, 0xa9, 0x19, 0xb5, 0x4a, 0x0d, 0x2d, 0xe5, 0x7a, 0x9f, 0x93, 0xc9, 0x9c, 0xef,
     0xa0, 0xe0, 0x3b, 0x4d, 0xae, 0x2a, 0xf5, 0xb0, 0xc8, 0xeb, 0xbb, 0x3c, 0x83, 0x53, 0x99, 0x61,
     0x17, 0x2b, 0x04, 0x7e, 0xba, 0x77, 0xd6, 0x26, 0xe1, 0x69, 0x14, 0x63, 0x55, 0x21, 0x0c, 0x7d]"

definition sbox :: "u8 \<Rightarrow> u8" where "sbox x = sbox_table ! unat x"
definition inv_sbox :: "u8 \<Rightarrow> u8" where "inv_sbox x = inv_sbox_table ! unat x"

text \<open>Multiplication by \<open>x\<close> in the field of 256 elements, and by the constants of the two column mixings.\<close>

definition xtime :: "u8 \<Rightarrow> u8" where
  "xtime a = (if bit a 7 then push_bit 1 a XOR 0x1b else push_bit 1 a)"

definition mul2 :: "u8 \<Rightarrow> u8" where "mul2 = xtime"
definition mul3 :: "u8 \<Rightarrow> u8" where "mul3 a = xtime a XOR a"
definition mul9 :: "u8 \<Rightarrow> u8" where "mul9 a = xtime (xtime (xtime a)) XOR a"
definition mul11 :: "u8 \<Rightarrow> u8" where "mul11 a = xtime (xtime (xtime a)) XOR xtime a XOR a"
definition mul13 :: "u8 \<Rightarrow> u8" where "mul13 a = xtime (xtime (xtime a)) XOR xtime (xtime a) XOR a"
definition mul14 :: "u8 \<Rightarrow> u8" where "mul14 a = xtime (xtime (xtime a)) XOR xtime (xtime a) XOR xtime a"

fun mix_columns :: "bytes \<Rightarrow> bytes" where
  "mix_columns (a # b # c # d # s) =
     (mul2 a XOR mul3 b XOR c XOR d) # (a XOR mul2 b XOR mul3 c XOR d) #
     (a XOR b XOR mul2 c XOR mul3 d) # (mul3 a XOR b XOR c XOR mul2 d) # mix_columns s"
| "mix_columns s = s"

fun inv_mix_columns :: "bytes \<Rightarrow> bytes" where
  "inv_mix_columns (a # b # c # d # s) =
     (mul14 a XOR mul11 b XOR mul13 c XOR mul9 d) # (mul9 a XOR mul14 b XOR mul11 c XOR mul13 d) #
     (mul13 a XOR mul9 b XOR mul14 c XOR mul11 d) # (mul11 a XOR mul13 b XOR mul9 c XOR mul14 d) # inv_mix_columns s"
| "inv_mix_columns s = s"

definition shift_rows :: "bytes \<Rightarrow> bytes" where
  "shift_rows s = map (\<lambda>i. s ! ((i + 4 * (i mod 4)) mod 16)) [0..<16]"

definition inv_shift_rows :: "bytes \<Rightarrow> bytes" where
  "inv_shift_rows s = map (\<lambda>i. s ! ((i + 12 * (i mod 4)) mod 16)) [0..<16]"

definition xor_bytes :: "bytes \<Rightarrow> bytes \<Rightarrow> bytes" where
  "xor_bytes xs ys = map2 (XOR) xs ys"

section \<open>Key schedule\<close>

text \<open>
  The words of the schedule, newest first: \<open>i\<close> is the number of words so far and \<open>rc\<close> the round constant.
\<close>

primrec expand_words :: "nat \<Rightarrow> nat \<Rightarrow> nat \<Rightarrow> u8 \<Rightarrow> bytes list \<Rightarrow> bytes list" where
  "expand_words nk i 0 rc ws = ws"
| "expand_words nk i (Suc n) rc ws =
     (let t = hd ws;
          t' = (if i mod nk = 0 then (case map sbox (rotate1 t) of [] \<Rightarrow> [] | x # xs \<Rightarrow> (x XOR rc) # xs)
                else if nk > 6 \<and> i mod nk = 4 then map sbox t else t);
          rc' = (if i mod nk = 0 then xtime rc else rc)
      in expand_words nk (i + 1) n rc' (xor_bytes (ws ! (nk - 1)) t' # ws))"

fun chunks4 :: "bytes \<Rightarrow> bytes list" where
  "chunks4 (a # b # c # d # s) = [a, b, c, d] # chunks4 s"
| "chunks4 s = []"

fun round_keys :: "bytes list \<Rightarrow> bytes list" where
  "round_keys (a # b # c # d # ws) = (a @ b @ c @ d) # round_keys ws"
| "round_keys ws = []"

definition key_schedule :: "bytes \<Rightarrow> bytes list" where
  "key_schedule key =
     (let nk = length key div 4
      in round_keys (rev (expand_words nk nk (4 * (nk + 7) - nk) 1 (rev (chunks4 key)))))"

section \<open>The cipher\<close>

definition enc_round :: "bytes \<Rightarrow> bytes \<Rightarrow> bytes" where
  "enc_round k s = xor_bytes (mix_columns (shift_rows (map sbox s))) k"

definition enc_final :: "bytes \<Rightarrow> bytes \<Rightarrow> bytes" where
  "enc_final k s = xor_bytes (shift_rows (map sbox s)) k"

definition dec_round :: "bytes \<Rightarrow> bytes \<Rightarrow> bytes" where
  "dec_round k s = map inv_sbox (inv_shift_rows (inv_mix_columns (xor_bytes s k)))"

definition dec_final :: "bytes \<Rightarrow> bytes \<Rightarrow> bytes" where
  "dec_final k s = map inv_sbox (inv_shift_rows (xor_bytes s k))"

definition cipher_keys :: "bytes list \<Rightarrow> bytes \<Rightarrow> bytes" where
  "cipher_keys ks b = enc_final (last ks) (fold enc_round (butlast (tl ks)) (xor_bytes b (hd ks)))"

definition decipher_keys :: "bytes list \<Rightarrow> bytes \<Rightarrow> bytes" where
  "decipher_keys ks b = xor_bytes (foldr dec_round (butlast (tl ks)) (dec_final (last ks) b)) (hd ks)"

definition aes_Encrypt :: "bytes \<Rightarrow> bytes \<Rightarrow> bytes" where
  "aes_Encrypt key b = cipher_keys (key_schedule key) b"

definition aes_Decrypt :: "bytes \<Rightarrow> bytes \<Rightarrow> bytes" where
  "aes_Decrypt key b = decipher_keys (key_schedule key) b"

text \<open>\<^verbatim>\<open>aes.NewCipher\<close>: the block is its key.\<close>

definition aes_NewCipher :: "bytes \<Rightarrow> bytes option" where
  "aes_NewCipher key = (if length key \<in> {16, 24, 32} then Some key else None)"

section \<open>Decryption inverts encryption\<close>

lemma xtime_xor: "xtime (a XOR b) = xtime a XOR xtime b"
  by (rule bit_word_eqI) (auto simp: xtime_def bit_simps)

lemma xor_self_cancel: "(x :: 'a :: len word) XOR (x XOR y) = y"
  by (simp flip: xor.assoc)

lemmas mul_defs = mul2_def mul3_def mul9_def mul11_def mul13_def mul14_def

lemma muls_xor:
  "mul9 (a XOR b) = mul9 a XOR mul9 b" "mul11 (a XOR b) = mul11 a XOR mul11 b"
  "mul13 (a XOR b) = mul13 a XOR mul13 b" "mul14 (a XOR b) = mul14 a XOR mul14 b"
  by (simp_all add: mul_defs xtime_xor xor.assoc xor.commute xor.left_commute)

text \<open>The product of the two mixing matrices, entry by entry: the diagonal is the identity, the rest vanishes.\<close>

lemma mix_inverse:
  "mul14 (mul2 a) XOR mul11 a XOR mul13 a XOR mul9 (mul3 a) = a"
  "mul14 (mul3 a) XOR mul11 (mul2 a) XOR mul13 a XOR mul9 a = 0"
  "mul14 a XOR mul11 (mul3 a) XOR mul13 (mul2 a) XOR mul9 a = 0"
  "mul14 a XOR mul11 a XOR mul13 (mul3 a) XOR mul9 (mul2 a) = 0"
  by (simp_all add: mul_defs xtime_xor xor.assoc xor.commute xor.left_commute xor_self_cancel)

lemma xor_transpose:
  fixes a1 :: "'a :: len word"
  shows "(a1 XOR a2 XOR a3 XOR a4) XOR (b1 XOR b2 XOR b3 XOR b4) XOR (c1 XOR c2 XOR c3 XOR c4) XOR (d1 XOR d2 XOR d3 XOR d4)
    = (a1 XOR b1 XOR c1 XOR d1) XOR (a2 XOR b2 XOR c2 XOR d2) XOR (a3 XOR b3 XOR c3 XOR d3) XOR (a4 XOR b4 XOR c4 XOR d4)"
  by (simp only: ac_simps)

lemma mix_row:
  "mul14 (mul2 a XOR mul3 b XOR c XOR d) XOR mul11 (a XOR mul2 b XOR mul3 c XOR d) XOR
     mul13 (a XOR b XOR mul2 c XOR mul3 d) XOR mul9 (mul3 a XOR b XOR c XOR mul2 d) = a"
  unfolding muls_xor by (subst xor_transpose) (simp only: mix_inverse xor.right_neutral)

lemma inv_mix_columns: "inv_mix_columns (mix_columns s) = s"
proof (induction s rule: mix_columns.induct)
  case (1 a b c d s)
  then show ?case
    using mix_row [of a b c d] mix_row [of b c d a] mix_row [of c d a b] mix_row [of d a b c]
    by (simp add: ac_simps)
qed simp_all

lemma length_mix_columns [simp]: "length (mix_columns s) = length s"
  by (induction s rule: mix_columns.induct) auto

lemma inv_sbox_table_inverse: "map inv_sbox sbox_table = map of_nat [0..<256]"
  by code_simp

lemma inv_sbox_sbox: "inv_sbox (sbox x) = x"
proof -
  have lt: "unat x < 256" using unsigned_less [of x] by simp
  have "length sbox_table = 256" by (simp add: sbox_table_def)
  then have "inv_sbox (sbox x) = map inv_sbox sbox_table ! unat x" using lt by (simp add: sbox_def)
  then show ?thesis unfolding inv_sbox_table_inverse using lt by simp
qed

lemma inv_shift_rows: "length s = 16 \<Longrightarrow> inv_shift_rows (shift_rows s) = s"
proof (rule nth_equalityI)
  fix i assume l: "length s = 16" and "i < length (inv_shift_rows (shift_rows s))"
  then have i: "i < 16" by (simp add: inv_shift_rows_def)
  define k where "k = (i + 12 * (i mod 4)) mod 16"
  have "list_all (\<lambda>i. ((i + 12 * (i mod 4)) mod 16 + 4 * ((i + 12 * (i mod 4)) mod 16 mod 4)) mod 16 = i) [0..<16]"
    by code_simp
  then have k: "k < 16" "(k + 4 * (k mod 4)) mod 16 = i"
    using i by (simp_all add: k_def list_all_iff)
  show "inv_shift_rows (shift_rows s) ! i = s ! i"
    using i k by (simp add: inv_shift_rows_def shift_rows_def flip: k_def)
qed (simp add: inv_shift_rows_def)

lemma length_rounds [simp]:
  "length (shift_rows s) = 16" "length (xor_bytes s k) = min (length s) (length k)"
  by (simp_all add: shift_rows_def xor_bytes_def)

lemma xor_bytes_twice: "length s \<le> length k \<Longrightarrow> xor_bytes (xor_bytes s k) k = s"
  by (rule nth_equalityI) (simp_all add: xor_bytes_def xor.assoc)

lemma dec_enc_round:
  assumes "length s = 16" "length k = 16"
  shows "dec_round k (enc_round k s) = s" "length (enc_round k s) = 16"
    "dec_final k (enc_final k s) = s" "length (enc_final k s) = 16"
  using assms
  by (simp_all add: dec_round_def enc_round_def dec_final_def enc_final_def xor_bytes_twice inv_mix_columns
      inv_shift_rows o_def inv_sbox_sbox)

lemma dec_enc_rounds:
  "length s = 16 \<Longrightarrow> list_all (\<lambda>k. length k = 16) ks \<Longrightarrow>
   foldr dec_round ks (fold enc_round ks s) = s \<and> length (fold enc_round ks s) = 16"
  by (induction ks arbitrary: s) (simp_all add: dec_enc_round)

lemma list_all_butlast: "list_all P xs \<Longrightarrow> list_all P (butlast xs)"
  by (auto simp: list_all_iff dest: in_set_butlastD)

lemma decipher_cipher:
  assumes "length b = 16" "length ks \<ge> 2" "list_all (\<lambda>k. length k = 16) ks"
  shows "decipher_keys ks (cipher_keys ks b) = b" "length (cipher_keys ks b) = 16"
proof -
  obtain k0 ms where ks: "ks = k0 # ms" "ms \<noteq> []" using assms(2) by (cases ks; cases "tl ks") auto
  have k: "length k0 = 16" "length (last ms) = 16" "list_all (\<lambda>k. length k = 16) (butlast ms)"
    using assms(3) ks list_all_butlast [of "\<lambda>k. length k = 16" ms] by (auto simp: list_all_iff)
  define s where "s = fold enc_round (butlast ms) (xor_bytes b k0)"
  have s: "foldr dec_round (butlast ms) s = xor_bytes b k0" "length s = 16"
    using dec_enc_rounds [of "xor_bytes b k0" "butlast ms"] assms(1) k unfolding s_def by auto
  have c: "cipher_keys ks b = enc_final (last ms) s" using ks by (simp add: cipher_keys_def s_def)
  then show "length (cipher_keys ks b) = 16" using dec_enc_round s k by simp
  show "decipher_keys ks (cipher_keys ks b) = b"
    using c ks s k assms(1) dec_enc_round(3) [OF s(2) k(2)] by (simp add: decipher_keys_def xor_bytes_twice)
qed

lemma four_more: "length s = 4 + k \<Longrightarrow> \<exists>a b c d r. s = a # b # c # d # r"
  by (auto simp: length_Suc_conv numeral_eq_Suc)

lemma chunks4_facts: "length s = 4 * n \<Longrightarrow> length (chunks4 s) = n \<and> list_all (\<lambda>w. length w = 4) (chunks4 s)"
proof (induction n arbitrary: s)
  case (Suc n)
  then obtain a b c d r where "s = a # b # c # d # r" using four_more [of s "4 * n"] by auto
  then show ?case using Suc by simp
qed simp

lemma expand_words_facts:
  "0 < nk \<Longrightarrow> nk \<le> length ws \<Longrightarrow> list_all (\<lambda>w. length w = 4) ws \<Longrightarrow>
   length (expand_words nk i n rc ws) = length ws + n \<and> list_all (\<lambda>w. length w = 4) (expand_words nk i n rc ws)"
proof (induction n arbitrary: i rc ws)
  case (Suc n)
  define t where "t = (if i mod nk = 0 then (case map sbox (rotate1 (hd ws)) of [] \<Rightarrow> [] | x # xs \<Rightarrow> (x XOR rc) # xs)
                else if nk > 6 \<and> i mod nk = 4 then map sbox (hd ws) else hd ws)"
  have "length (hd ws) = 4" "length (ws ! (nk - 1)) = 4" using Suc.prems by (cases ws; auto simp: list_all_length)+
  moreover from this have "length t = 4" by (auto simp: t_def split: list.split dest: arg_cong [of _ _ length])
  ultimately have "list_all (\<lambda>w. length w = 4) (xor_bytes (ws ! (nk - 1)) t # ws)" using Suc.prems by simp
  then show ?case using Suc.IH [of "xor_bytes (ws ! (nk - 1)) t # ws"] Suc.prems
    by (simp add: Let_def flip: t_def)
qed simp

lemma round_keys_facts:
  "length ws = 4 * n \<Longrightarrow> list_all (\<lambda>w. length w = 4) ws \<Longrightarrow>
   length (round_keys ws) = n \<and> list_all (\<lambda>k. length k = 16) (round_keys ws)"
proof (induction n arbitrary: ws)
  case (Suc n)
  then obtain a b c d r where "ws = a # b # c # d # r" using four_more [of ws "4 * n"] by auto
  then show ?case using Suc by simp
qed simp

lemma key_schedule_facts:
  assumes "length key \<in> {16, 24, 32}"
  shows "2 \<le> length (key_schedule key)" "list_all (\<lambda>k. length k = 16) (key_schedule key)"
proof -
  define nk where "nk = length key div 4"
  have nk: "length key = 4 * nk" "0 < nk" using assms by (auto simp: nk_def)
  define ws where "ws = expand_words nk nk (4 * (nk + 7) - nk) 1 (rev (chunks4 key))"
  have "length ws = nk + (4 * (nk + 7) - nk)" "list_all (\<lambda>w. length w = 4) ws"
    using expand_words_facts [of nk "rev (chunks4 key)"] chunks4_facts [OF nk(1)] nk(2) unfolding ws_def by simp_all
  then have "length (rev ws) = 4 * (nk + 7)" "list_all (\<lambda>w. length w = 4) (rev ws)" by simp_all
  from round_keys_facts [OF this] show "2 \<le> length (key_schedule key)" "list_all (\<lambda>k. length k = 16) (key_schedule key)"
    by (simp_all add: key_schedule_def Let_def ws_def flip: nk_def)
qed

lemma aes_Decrypt_Encrypt:
  assumes "length key \<in> {16, 24, 32}" "length b = 16"
  shows "aes_Decrypt key (aes_Encrypt key b) = b" "length (aes_Encrypt key b) = 16"
  using decipher_cipher [OF assms(2) key_schedule_facts [OF assms(1)]]
  by (simp_all add: aes_Decrypt_def aes_Encrypt_def)

text \<open>The example vector of FIPS 197 for a 128-bit key.\<close>

lemma aes_known_answer:
  "aes_Encrypt (map of_nat [0..<16]) (map (\<lambda>i. of_nat (17 * i)) [0..<16]) =
     [0x69, 0xc4, 0xe0, 0xd8, 0x6a, 0x7b, 0x04, 0x30, 0xd8, 0xcd, 0xb7, 0x80, 0x70, 0xb4, 0xc5, 0x5a]"
  by code_simp

end
