(* ===== verification/Cipher_Modes.thy ===== *)
theory Cipher_Modes
  imports Aes
begin

text \<open>
  The modes of \<^verbatim>\<open>crypto/cipher\<close> that \<^verbatim>\<open>internal/crypto\<close> uses, over any block cipher: CTR with a 128-bit counter,
  and GCM with a 12-byte nonce and a 16-byte tag (payloads are far below the length limit of GCM). The key
  derivation of \<^verbatim>\<open>crypto/pbkdf2\<close> with HMAC-SHA-1 is here as well.
\<close>

section \<open>Counter mode\<close>

fun inc_little :: "bytes \<Rightarrow> bytes" where
  "inc_little [] = []"
| "inc_little (x # xs) = (if x = 255 then 0 # inc_little xs else (x + 1) # xs)"

definition inc_counter :: "bytes \<Rightarrow> bytes" where
  "inc_counter c = rev (inc_little (rev c))"

primrec key_stream :: "(bytes \<Rightarrow> bytes) \<Rightarrow> (bytes \<Rightarrow> bytes) \<Rightarrow> nat \<Rightarrow> bytes \<Rightarrow> bytes" where
  "key_stream E inc 0 ctr = []"
| "key_stream E inc (Suc n) ctr = E ctr @ key_stream E inc n (inc ctr)"

definition stream_xor :: "(bytes \<Rightarrow> bytes) \<Rightarrow> (bytes \<Rightarrow> bytes) \<Rightarrow> bytes \<Rightarrow> bytes \<Rightarrow> bytes" where
  "stream_xor E inc ctr data = xor_bytes data (key_stream E inc ((length data + 15) div 16) ctr)"

definition CTR_XORKeyStream :: "(bytes \<Rightarrow> bytes) \<Rightarrow> bytes \<Rightarrow> bytes \<Rightarrow> bytes" where
  "CTR_XORKeyStream E iv data = stream_xor E inc_counter iv data"

section \<open>Galois/counter mode\<close>

type_synonym u128 = "128 word"

definition be128 :: "bytes \<Rightarrow> u128" where
  "be128 bs = foldl (\<lambda>w b. push_bit 8 w OR ucast b) 0 bs"

definition put_be128 :: "u128 \<Rightarrow> bytes" where
  "put_be128 w = put_be64 (ucast (drop_bit 64 w)) @ put_be64 (ucast w)"

primrec gf_mul_loop :: "nat \<Rightarrow> u128 \<Rightarrow> u128 \<Rightarrow> u128 \<Rightarrow> u128" where
  "gf_mul_loop 0 x z v = z"
| "gf_mul_loop (Suc n) x z v =
     gf_mul_loop n x (if bit x n then z XOR v else z)
       (if bit v 0 then drop_bit 1 v XOR 0xe1000000000000000000000000000000 else drop_bit 1 v)"

definition gf_mul :: "u128 \<Rightarrow> u128 \<Rightarrow> u128" where
  "gf_mul x y = gf_mul_loop 128 x 0 y"

function chunks16 :: "bytes \<Rightarrow> bytes list" where
  "chunks16 bs = (if bs = [] then [] else take 16 bs # chunks16 (drop 16 bs))"
  by pat_completeness auto
termination by (relation "measure length") auto

declare chunks16.simps [simp del]

definition pad16 :: "bytes \<Rightarrow> bytes" where
  "pad16 bs = bs @ replicate ((16 - length bs mod 16) mod 16) 0"

definition ghash :: "u128 \<Rightarrow> bytes \<Rightarrow> u128" where
  "ghash h bs = foldl (\<lambda>y b. gf_mul (y XOR be128 b) h) 0 (chunks16 bs)"

definition inc32 :: "bytes \<Rightarrow> bytes" where
  "inc32 c = take 12 c @ inc_counter (drop 12 c)"

definition gcm_tag :: "(bytes \<Rightarrow> bytes) \<Rightarrow> bytes \<Rightarrow> bytes \<Rightarrow> bytes \<Rightarrow> bytes" where
  "gcm_tag E nonce ciphertext aad =
     (let h = be128 (E (replicate 16 0));
          s = ghash h (pad16 aad @ pad16 ciphertext @
                put_be64 (of_nat (8 * length aad)) @ put_be64 (of_nat (8 * length ciphertext)))
      in xor_bytes (put_be128 s) (E (nonce @ [0, 0, 0, 1])))"

definition GCM_Seal :: "(bytes \<Rightarrow> bytes) \<Rightarrow> bytes \<Rightarrow> bytes \<Rightarrow> bytes \<Rightarrow> bytes" where
  "GCM_Seal E nonce plaintext aad =
     (let c = stream_xor E inc32 (inc32 (nonce @ [0, 0, 0, 1])) plaintext
      in c @ gcm_tag E nonce c aad)"

definition GCM_Open :: "(bytes \<Rightarrow> bytes) \<Rightarrow> bytes \<Rightarrow> bytes \<Rightarrow> bytes \<Rightarrow> bytes option" where
  "GCM_Open E nonce ciphertext aad =
     (if length ciphertext < 16 then None
      else let n = length ciphertext - 16; c = take n ciphertext in
           if gcm_tag E nonce c aad = drop n ciphertext
           then Some (stream_xor E inc32 (inc32 (nonce @ [0, 0, 0, 1])) c) else None)"

section \<open>Key derivation\<close>

definition rotl32 :: "nat \<Rightarrow> u32 \<Rightarrow> u32" where
  "rotl32 n w = push_bit n w OR drop_bit (32 - n) w"

definition sha1_f :: "nat \<Rightarrow> u32 \<Rightarrow> u32 \<Rightarrow> u32 \<Rightarrow> u32" where
  "sha1_f t b c d =
     (if t < 20 then (b AND c) OR (NOT b AND d)
      else if t < 40 then b XOR c XOR d
      else if t < 60 then (b AND c) OR (b AND d) OR (c AND d)
      else b XOR c XOR d)"

definition sha1_k :: "nat \<Rightarrow> u32" where
  "sha1_k t = (if t < 20 then 0x5a827999 else if t < 40 then 0x6ed9eba1 else if t < 60 then 0x8f1bbcdc else 0xca62c1d6)"

type_synonym sha1_state = "u32 \<times> u32 \<times> u32 \<times> u32 \<times> u32"

fun sha1_rounds :: "nat \<Rightarrow> u32 list \<Rightarrow> sha1_state \<Rightarrow> sha1_state" where
  "sha1_rounds t [] h = h"
| "sha1_rounds t (w # ws) (a, b, c, d, e) =
     sha1_rounds (t + 1) ws (rotl32 5 a + sha1_f t b c d + e + sha1_k t + w, a, rotl32 30 b, c, d)"

primrec sha1_expand :: "nat \<Rightarrow> u32 list \<Rightarrow> u32 list" where
  "sha1_expand 0 ws = ws"
| "sha1_expand (Suc n) ws = sha1_expand n (rotl32 1 (ws ! 2 XOR ws ! 7 XOR ws ! 13 XOR ws ! 15) # ws)"

fun words32 :: "bytes \<Rightarrow> u32 list" where
  "words32 (a # b # c # d # s) = get_be32 [a, b, c, d] # words32 s"
| "words32 s = []"

fun sha1_block :: "sha1_state \<Rightarrow> bytes \<Rightarrow> sha1_state" where
  "sha1_block (h0, h1, h2, h3, h4) block =
     (case sha1_rounds 0 (rev (sha1_expand 64 (rev (words32 block)))) (h0, h1, h2, h3, h4) of
        (a, b, c, d, e) \<Rightarrow> (h0 + a, h1 + b, h2 + c, h3 + d, h4 + e))"

function chunks64 :: "bytes \<Rightarrow> bytes list" where
  "chunks64 bs = (if bs = [] then [] else take 64 bs # chunks64 (drop 64 bs))"
  by pat_completeness auto
termination by (relation "measure length") auto

declare chunks64.simps [simp del]

definition sha1_Sum :: "bytes \<Rightarrow> bytes" where
  "sha1_Sum msg =
     (let padded = msg @ [0x80] @ replicate ((119 - length msg mod 64) mod 64) 0 @ put_be64 (of_nat (8 * length msg))
      in case foldl sha1_block (0x67452301, 0xefcdab89, 0x98badcfe, 0x10325476, 0xc3d2e1f0) (chunks64 padded) of
           (a, b, c, d, e) \<Rightarrow> put_be32 a @ put_be32 b @ put_be32 c @ put_be32 d @ put_be32 e)"

definition hmac_sha1 :: "bytes \<Rightarrow> bytes \<Rightarrow> bytes" where
  "hmac_sha1 key msg =
     (let k = (if length key > 64 then sha1_Sum key else key);
          k0 = k @ replicate (64 - length k) 0
      in sha1_Sum (map (\<lambda>b. b XOR 0x5c) k0 @ sha1_Sum (map (\<lambda>b. b XOR 0x36) k0 @ msg)))"

primrec pbkdf2_iter :: "bytes \<Rightarrow> nat \<Rightarrow> bytes \<Rightarrow> bytes \<Rightarrow> bytes" where
  "pbkdf2_iter password 0 u t = t"
| "pbkdf2_iter password (Suc n) u t =
     (let u = hmac_sha1 password u in pbkdf2_iter password n u (xor_bytes t u))"

definition pbkdf2_block :: "bytes \<Rightarrow> bytes \<Rightarrow> nat \<Rightarrow> nat \<Rightarrow> bytes" where
  "pbkdf2_block password salt iter i =
     (let u = hmac_sha1 password (salt @ put_be32 (of_nat i)) in pbkdf2_iter password (iter - 1) u u)"

definition pbkdf2_Key :: "bytes \<Rightarrow> bytes \<Rightarrow> nat \<Rightarrow> nat \<Rightarrow> bytes" where
  "pbkdf2_Key password salt iter keyLength =
     take keyLength (concat (map (pbkdf2_block password salt iter) [1..<(keyLength + 19) div 20 + 1]))"

end
