(* ===== verification/Key_Wrap.thy ===== *)
theory Key_Wrap
  imports Cipher_Modes
begin

text \<open>
  AES key wrap, \<^verbatim>\<open>internal/crypto/keywrap.go\<close>. The two loops run one step function over the same pairs of indices, in
  opposite orders. What wrapping needs of the block cipher is a locale, interpreted on AES.
\<close>

definition defaultIV :: bytes where "defaultIV = replicate 8 0xA6"

datatype wrap_err = errWrapPlaintext | errUnwrapCiphertext | errUnwrapFailed | errKeySize

text \<open>One step of \<^verbatim>\<open>KeyWrap\<close> and one of \<^verbatim>\<open>KeyUnwrap\<close>, on the register \<open>a\<close> and the blocks \<open>r\<close>.\<close>

fun wrap_step :: "(bytes \<Rightarrow> bytes) \<Rightarrow> nat \<Rightarrow> nat \<times> nat \<Rightarrow> bytes \<times> bytes \<Rightarrow> bytes \<times> bytes" where
  "wrap_step encrypt n (j, i) (a, r) =
     (let b = encrypt (a @ take 8 (drop (i * 8) r));
          t = of_nat (n * j + i + 1) :: u64
      in (put_be64 (get_be64 (take 8 b) XOR t), go_copy r (i * 8) (drop 8 b)))"

fun unwrap_step :: "(bytes \<Rightarrow> bytes) \<Rightarrow> nat \<Rightarrow> nat \<times> nat \<Rightarrow> bytes \<times> bytes \<Rightarrow> bytes \<times> bytes" where
  "unwrap_step decrypt n (j, i) (a, r) =
     (let t = of_nat (n * j + i + 1) :: u64;
          b = decrypt (put_be64 (get_be64 a XOR t) @ take 8 (drop (i * 8) r))
      in (take 8 b, go_copy r (i * 8) (drop 8 b)))"

definition wrap_order :: "nat \<Rightarrow> (nat \<times> nat) list" where
  "wrap_order n = [(j, i). j \<leftarrow> [0..<6], i \<leftarrow> [0..<n]]"

definition unwrap_order :: "nat \<Rightarrow> (nat \<times> nat) list" where
  "unwrap_order n = [(j, i). j \<leftarrow> rev [0..<6], i \<leftarrow> rev [0..<n]]"

definition KeyWrap :: "bytes \<Rightarrow> bytes \<Rightarrow> wrap_err + bytes" where
  "KeyWrap kek plaintext =
     (if length plaintext mod 8 \<noteq> 0 \<or> length plaintext = 0 then Inl errWrapPlaintext
      else case aes_NewCipher kek of
             None \<Rightarrow> Inl errKeySize
           | Some block \<Rightarrow>
               let n = length plaintext div 8;
                   (a, r) = fold (wrap_step (aes_Encrypt block) n) (wrap_order n) (defaultIV, plaintext)
               in Inr (a @ r))"

definition KeyUnwrap :: "bytes \<Rightarrow> bytes \<Rightarrow> wrap_err + bytes" where
  "KeyUnwrap kek ciphertext =
     (if length ciphertext mod 8 \<noteq> 0 \<or> length ciphertext < 16 then Inl errUnwrapCiphertext
      else case aes_NewCipher kek of
             None \<Rightarrow> Inl errKeySize
           | Some block \<Rightarrow>
               let n = length ciphertext div 8 - 1;
                   (a, r) = fold (unwrap_step (aes_Decrypt block) n) (unwrap_order n)
                              (take 8 ciphertext, take (n * 8) (drop 8 ciphertext))
               in if a \<noteq> defaultIV then Inl errUnwrapFailed else Inr r)"

section \<open>The interface to the block cipher\<close>

locale block_cipher =
  fixes encrypt decrypt :: "bytes \<Rightarrow> bytes \<Rightarrow> bytes" and key_ok :: "bytes \<Rightarrow> bool"
  assumes decrypt_encrypt: "key_ok k \<Longrightarrow> length b = 16 \<Longrightarrow> decrypt k (encrypt k b) = b"
    and length_encrypt: "key_ok k \<Longrightarrow> length b = 16 \<Longrightarrow> length (encrypt k b) = 16"
begin

lemma unwrap_wrap_step:
  assumes k: "key_ok k" and l: "length a = 8" "length r = 8 * n" and i: "i < n"
  shows "unwrap_step (decrypt k) n (j, i) (wrap_step (encrypt k) n (j, i) (a, r)) = (a, r)"
    and "length (fst (wrap_step (encrypt k) n (j, i) (a, r))) = 8"
    and "length (snd (wrap_step (encrypt k) n (j, i) (a, r))) = 8 * n"
proof -
  define s where "s = take 8 (drop (i * 8) r)"
  define b where "b = encrypt k (a @ s)"
  have s: "length s = 8" using l i by (simp add: s_def)
  have b: "length b = 16" "decrypt k b = a @ s" using k l s decrypt_encrypt length_encrypt by (simp_all add: b_def)
  have r: "take (i * 8) r @ s @ drop (i * 8 + 8) r = r"
    using i l by (simp add: s_def take_drop_chain)
  have "put_be64 (get_be64 (take 8 b)) = take 8 b" using b put_get_be64_take by simp
  then have "put_be64 (get_be64 (take 8 b)) @ drop 8 b = b" by simp
  then show "unwrap_step (decrypt k) n (j, i) (wrap_step (encrypt k) n (j, i) (a, r)) = (a, r)"
    using b l i s r by (simp add: Let_def go_copy_def xor.assoc flip: s_def b_def)
  show "length (fst (wrap_step (encrypt k) n (j, i) (a, r))) = 8"
    "length (snd (wrap_step (encrypt k) n (j, i) (a, r))) = 8 * n"
    using b l i by (simp_all add: Let_def go_copy_def length_put_be flip: s_def b_def)
qed

lemma unwrap_wrap_steps:
  assumes k: "key_ok k"
  shows "\<forall>(j, i) \<in> set ps. i < n \<Longrightarrow> length a = 8 \<Longrightarrow> length r = 8 * n \<Longrightarrow>
    fold (unwrap_step (decrypt k) n) (rev ps) (fold (wrap_step (encrypt k) n) ps (a, r)) = (a, r) \<and>
    length (fst (fold (wrap_step (encrypt k) n) ps (a, r))) = 8 \<and>
    length (snd (fold (wrap_step (encrypt k) n) ps (a, r))) = 8 * n"
proof (induction ps arbitrary: a r)
  case (Cons p ps)
  obtain j i where p: "p = (j, i)" "i < n" using Cons.prems(1) by (cases p) auto
  obtain a' r' where s: "wrap_step (encrypt k) n (j, i) (a, r) = (a', r')" by (cases "wrap_step (encrypt k) n (j, i) (a, r)")
  note U = unwrap_wrap_step [OF k Cons.prems(2,3) p(2), of j, unfolded s]
  have "length a' = 8" "length r' = 8 * n" using U by simp_all
  then show ?case using Cons.IH [of a' r'] Cons.prems(1) U(1) by (simp add: p s del: wrap_step.simps unwrap_step.simps)
qed simp

end

lemma aes_block_cipher: "block_cipher aes_Encrypt aes_Decrypt (\<lambda>k. length k \<in> {16, 24, 32})"
  by unfold_locales (simp_all only: aes_Decrypt_Encrypt)

interpretation aes: block_cipher aes_Encrypt aes_Decrypt "\<lambda>k. length k \<in> {16, 24, 32}"
  by (rule aes_block_cipher)

section \<open>Wrapping round trip\<close>

lemma wrap_orders: "unwrap_order n = rev (wrap_order n)"
  by (simp add: unwrap_order_def wrap_order_def rev_concat rev_map o_def)

lemma unwrap_of_wrap:
  assumes "length kek \<in> {16, 24, 32}" "length pt mod 8 = 0" "pt \<noteq> []"
  shows "\<exists>c. KeyWrap kek pt = Inr c \<and> length c = length pt + 8 \<and> KeyUnwrap kek c = Inr pt"
proof -
  define n where "n = length pt div 8"
  have n: "length pt = 8 * n" "0 < n" using assms(2,3) by (auto simp: n_def intro!: Nat.gr0I)
  have o: "\<forall>(j, i) \<in> set (wrap_order n). i < n" by (auto simp: wrap_order_def)
  have iv: "length defaultIV = 8" by (simp add: defaultIV_def)
  obtain a r where w: "fold (wrap_step (aes_Encrypt kek) n) (wrap_order n) (defaultIV, pt) = (a, r)" by fastforce
  have "fold (unwrap_step (aes_Decrypt kek) n) (unwrap_order n) (a, r) = (defaultIV, pt) \<and> length a = 8 \<and> length r = 8 * n"
    using aes.unwrap_wrap_steps [OF assms(1) o iv n(1)] by (simp add: w wrap_orders)
  moreover have "KeyWrap kek pt = Inr (a @ r)"
    using assms w by (simp add: KeyWrap_def aes_NewCipher_def Let_def flip: n_def)
  ultimately show ?thesis
    using n assms(1) by (intro exI [of _ "a @ r"]) (auto simp: KeyUnwrap_def aes_NewCipher_def Let_def)
qed

end
