(* ===== verification/Handshake_Cif.thy ===== *)
theory Handshake_Cif
  imports Packet_Wire
begin

text \<open>
  The handshake, handshake-extension and key-material fields of \<^verbatim>\<open>internal/packet/cif.go\<close>. A nil pointer
  is \<open>None\<close>; calling a method on it is Go's nil-dereference panic, the error \<open>NilPanic\<close>. Strings are
  character lists, turned into bytes where the source writes them to the wire.
\<close>

section \<open>Handshake types and flags\<close>

type_synonym HandshakeType = u32

definition HandshakeTypeDone :: HandshakeType where "HandshakeTypeDone = 0xFFFFFFFD"
definition HandshakeTypeAgreement :: HandshakeType where "HandshakeTypeAgreement = 0xFFFFFFFE"
definition HandshakeTypeConclusion :: HandshakeType where "HandshakeTypeConclusion = 0xFFFFFFFF"
definition HandshakeTypeWavehand :: HandshakeType where "HandshakeTypeWavehand = 0x00000000"
definition HandshakeTypeInduction :: HandshakeType where "HandshakeTypeInduction = 0x00000001"

definition IsHandshake :: "HandshakeType \<Rightarrow> bool" where
  "IsHandshake h = (h \<in> {HandshakeTypeDone, HandshakeTypeAgreement, HandshakeTypeConclusion,
     HandshakeTypeWavehand, HandshakeTypeInduction})"

definition IsRejection :: "HandshakeType \<Rightarrow> bool" where
  "IsRejection h = (\<not> IsHandshake h)"

definition FlagTSBPDSend :: u32 where "FlagTSBPDSend = 1"
definition FlagTSBPDRecv :: u32 where "FlagTSBPDRecv = 2"
definition FlagCrypt :: u32 where "FlagCrypt = 4"
definition FlagTLPktDrop :: u32 where "FlagTLPktDrop = 8"
definition FlagPeriodicNAK :: u32 where "FlagPeriodicNAK = 16"
definition FlagRexmit :: u32 where "FlagRexmit = 32"
definition FlagStream :: u32 where "FlagStream = 64"
definition FlagPacketFilter :: u32 where "FlagPacketFilter = 128"

definition ExtTypeHSReq :: SubType where "ExtTypeHSReq = 1"
definition ExtTypeHSRsp :: SubType where "ExtTypeHSRsp = 2"
definition ExtTypeKMReq :: SubType where "ExtTypeKMReq = 3"
definition ExtTypeKMRsp :: SubType where "ExtTypeKMRsp = 4"
definition ExtTypeSID :: SubType where "ExtTypeSID = 5"
definition ExtTypeCongestion :: SubType where "ExtTypeCongestion = 6"
definition ExtTypeFilter :: SubType where "ExtTypeFilter = 7"
definition ExtTypeGroup :: SubType where "ExtTypeGroup = 8"

section \<open>Helpers\<close>

definition appendExtension :: "bytes \<Rightarrow> SubType \<Rightarrow> bytes \<Rightarrow> bytes" where
  "appendExtension buf extType data =
     buf @ put_be16 extType @ put_be16 (of_nat (length data div 4)) @ data"

text \<open>\<^verbatim>\<open>net.IP\<close> is a byte slice, nil the empty one; \<open>To4\<close> and \<open>To16\<close> are the standard library's.\<close>

definition To4 :: "bytes \<Rightarrow> bytes" where
  "To4 ip = (if length ip = 4 then ip
     else if length ip = 16 \<and> take 10 ip = replicate 10 0 \<and> ip ! 10 = 0xFF \<and> ip ! 11 = 0xFF
       then drop 12 ip
     else [])"

definition To16 :: "bytes \<Rightarrow> bytes" where
  "To16 ip = (if length ip = 4 then replicate 10 0 @ [0xFF, 0xFF] @ ip
     else if length ip = 16 then ip else [])"

definition marshalIP :: "bytes \<Rightarrow> bytes" where
  "marshalIP ip =
     (let buf = replicate 16 0 in
      if ip = [] then buf
      else let ip4 = To4 ip in
        if ip4 \<noteq> [] then go_copy buf 0 ip4 else go_copy buf 0 (To16 ip))"

definition unmarshalIP :: "bytes \<Rightarrow> bytes" where
  "unmarshalIP data =
     (if list_all (\<lambda>b. b = 0) (take 12 (drop 4 data)) then take 4 data else take 16 data)"

fun swap_words :: "'a list \<Rightarrow> 'a list" where
  "swap_words (a # b # c # d # r) = d # c # b # a # swap_words r"
| "swap_words _ = []"

definition marshalStreamID :: "string \<Rightarrow> bytes" where
  "marshalStreamID sid =
     (let size = length sid; rem = size mod 4;
          size = (if rem \<noteq> 0 then size + (4 - rem) else size)
      in swap_words (go_copy (replicate size 0) 0 (map byte_of_char sid)))"

definition TrimRight0 :: "string \<Rightarrow> string" where
  "TrimRight0 s = rev (dropWhile (\<lambda>c. c = CHR 0x00) (rev s))"

definition unmarshalStreamID :: "bytes \<Rightarrow> string" where
  "unmarshalStreamID data = TrimRight0 (map char_of_byte (swap_words data))"

section \<open>Handshake extension\<close>

record CIFHandshakeExtension =
  SRTVersion :: u32
  SRTFlags :: u32
  RecvTSBPDDelay :: u16
  SendTSBPDDelay :: u16

definition zero_HSExt :: CIFHandshakeExtension where
  "zero_HSExt = \<lparr>SRTVersion = 0, SRTFlags = 0, RecvTSBPDDelay = 0, SendTSBPDDelay = 0\<rparr>"

definition HSExt_MarshalCIF :: "CIFHandshakeExtension \<Rightarrow> perr + bytes" where
  "HSExt_MarshalCIF c = Inr
     (put_be32 (SRTVersion c) @ put_be32 (SRTFlags c) @ put_be16 (RecvTSBPDDelay c)
      @ put_be16 (SendTSBPDDelay c))"

definition HSExt_UnmarshalCIF ::
    "CIFHandshakeExtension \<Rightarrow> bytes \<Rightarrow> CIFHandshakeExtension \<times> perr option" where
  "HSExt_UnmarshalCIF c data =
     (if length data < 12 then (c, Some (HSExtensionTooShort (length data)))
      else (c\<lparr>SRTVersion := get_be32 data, SRTFlags := get_be32 (drop 4 data),
              RecvTSBPDDelay := get_be16 (drop 8 data),
              SendTSBPDDelay := get_be16 (drop 10 data)\<rparr>, None))"

section \<open>Key material\<close>

record CIFKeyMaterial =
  km_Error :: u32
  km_S :: u8
  km_Version :: u8
  km_PacketType :: u8
  km_Sign :: u16
  km_KeyBasedEncryption :: PacketEncryption
  km_KeyEncryptionKeyIndex :: u32
  km_Cipher :: u8
  km_Authentication :: u8
  km_StreamEncapsulation :: u8
  km_SLen :: u16
  km_KLen :: u16
  km_Salt :: bytes
  km_Wrap :: bytes

definition zero_KM :: CIFKeyMaterial where
  "zero_KM = \<lparr>km_Error = 0, km_S = 0, km_Version = 0, km_PacketType = 0, km_Sign = 0,
     km_KeyBasedEncryption = 0, km_KeyEncryptionKeyIndex = 0, km_Cipher = 0, km_Authentication = 0,
     km_StreamEncapsulation = 0, km_SLen = 0, km_KLen = 0, km_Salt = [], km_Wrap = []\<rparr>"

text \<open>The 16 fixed bytes of the message.\<close>

definition km_header :: "CIFKeyMaterial \<Rightarrow> bytes" where
  "km_header c =
     [(push_bit 7 (km_S c) AND 0x80) OR (push_bit 4 (km_Version c) AND 0x70) OR (km_PacketType c AND 0x0F)]
     @ put_be16 (km_Sign c)
     @ [km_KeyBasedEncryption c AND 0x03]
     @ put_be32 (km_KeyEncryptionKeyIndex c)
     @ [km_Cipher c, km_Authentication c, km_StreamEncapsulation c, 0]
     @ put_be16 0
     @ [ucast (km_SLen c div 4), ucast (km_KLen c div 4)]"

definition KM_MarshalCIF :: "CIFKeyMaterial \<Rightarrow> perr + bytes" where
  "KM_MarshalCIF c =
     (if km_Error c \<noteq> 0 then Inr (put_be32 (km_Error c))
      else
        let body = replicate (unat (km_SLen c) + length (km_Wrap c)) 0;
            offset = (if km_SLen c > 0 then unat (km_SLen c) else 0);
            body = (if km_SLen c > 0 then go_copy body 0 (km_Salt c) else body)
        in Inr (km_header c @ go_copy body offset (km_Wrap c)))"

definition KM_UnmarshalCIF :: "CIFKeyMaterial \<Rightarrow> bytes \<Rightarrow> CIFKeyMaterial \<times> perr option" where
  "KM_UnmarshalCIF c data =
     (if length data = 4 then (c\<lparr>km_Error := get_be32 data\<rparr>, None)
      else if length data < 16 then (c, Some (KMTooShort (length data)))
      else let c = c\<lparr>km_S := drop_bit 7 (data ! 0) AND 1,
                     km_Version := drop_bit 4 (data ! 0) AND 7,
                     km_PacketType := data ! 0 AND 0x0F\<rparr> in
      if km_Version c \<noteq> 1 then (c, Some (KMVersion (km_Version c)))
      else if km_PacketType c \<noteq> 2 then (c, Some (KMPacketType (km_PacketType c)))
      else let c = c\<lparr>km_Sign := get_be16 (drop 1 data)\<rparr> in
      if km_Sign c \<noteq> 0x2029 then (c, Some (KMSignature (km_Sign c)))
      else let c = c\<lparr>km_KeyBasedEncryption := data ! 3 AND 3\<rparr> in
      if km_KeyBasedEncryption c = EncryptionNone then (c, Some KMNoKey)
      else let c = c\<lparr>km_KeyEncryptionKeyIndex := get_be32 (drop 4 data), km_Cipher := data ! 8,
                     km_Authentication := data ! 9, km_StreamEncapsulation := data ! 10\<rparr> in
      if km_Cipher c \<notin> {2, 4} then (c, Some (KMCipher (km_Cipher c)))
      else if km_Cipher c = 4 \<and> km_Authentication c \<noteq> 1 then (c, Some (KMAuth (km_Authentication c)))
      else if km_Cipher c = 2 \<and> km_Authentication c \<noteq> 0 then (c, Some (KMAuth (km_Authentication c)))
      else if km_StreamEncapsulation c \<noteq> 2
        then (c, Some (KMEncapsulation (km_StreamEncapsulation c)))
      else let c = c\<lparr>km_SLen := ucast (data ! 14) * 4, km_KLen := ucast (data ! 15) * 4\<rparr> in
      if km_KLen c \<notin> {16, 24, 32} then (c, Some (KMKeyLength (km_KLen c)))
      else if km_SLen c > 0 \<and> km_SLen c \<noteq> 16 then (c, Some (KMSaltLength (km_SLen c)))
      else if km_SLen c > 0 \<and> length (drop 16 data) < unat (km_SLen c) then (c, Some KMShortSalt)
      else let c = (if km_SLen c > 0
                    then c\<lparr>km_Salt := take (unat (km_SLen c)) (drop 16 data)\<rparr> else c);
               offset = 16 + (if km_SLen c > 0 then unat (km_SLen c) else 0);
               n = (if km_KeyBasedEncryption c = EncryptionBoth then 2 else 1);
               wrapLen = n * unat (km_KLen c) + 8 in
      if length (drop offset data) < wrapLen then (c, Some KMShortKeys)
      else let expectedLen = 16 + unat (km_SLen c) + wrapLen in
      if length data \<noteq> expectedLen then (c, Some (KMLengthInconsistent (length data) expectedLen))
      else (c\<lparr>km_Wrap := take wrapLen (drop offset data)\<rparr>, None))"

section \<open>Handshake\<close>

record CIFHandshake =
  Version :: u32
  EncryptionField :: u16
  ExtensionField :: u16
  InitialPacketSequenceNumber :: u32
  MaxTransmissionUnitSize :: u32
  MaxFlowWindowSize :: u32
  HandshakeType :: HandshakeType
  SRTSocketID :: u32
  SynCookie :: u32
  PeerIP :: bytes
  IsRequest :: bool
  HasHS :: bool
  SRTHS :: "CIFHandshakeExtension option"
  HasKM :: bool
  SRTKM :: "CIFKeyMaterial option"
  HasSID :: bool
  StreamID :: string
  HasCongestion :: bool
  CongestionType :: string
  HasFilter :: bool
  FilterConfig :: string
  HasGroup :: bool
  GroupID :: u32
  GroupType :: u8
  GroupFlags :: u8
  GroupWeight :: u16

definition zero_HS :: CIFHandshake where
  "zero_HS = \<lparr>Version = 0, EncryptionField = 0, ExtensionField = 0, InitialPacketSequenceNumber = 0,
     MaxTransmissionUnitSize = 0, MaxFlowWindowSize = 0, HandshakeType = 0, SRTSocketID = 0,
     SynCookie = 0, PeerIP = [], IsRequest = False, HasHS = False, SRTHS = None, HasKM = False,
     SRTKM = None, HasSID = False, StreamID = [], HasCongestion = False, CongestionType = [],
     HasFilter = False, FilterConfig = [], HasGroup = False, GroupID = 0, GroupType = 0,
     GroupFlags = 0, GroupWeight = 0\<rparr>"

text \<open>The first part of \<^verbatim>\<open>MarshalCIF\<close> updates the receiver: the extension field is computed.\<close>

definition hs_prepare :: "CIFHandshake \<Rightarrow> CIFHandshake" where
  "hs_prepare c =
     (let c = (if StreamID c = [] then c\<lparr>HasSID := False\<rparr> else c) in
      if Version c = 5 \<and> HandshakeType c = HandshakeTypeConclusion
      then c\<lparr>ExtensionField :=
               (if HasHS c then 1 else 0) OR (if HasKM c then 2 else 0)
               OR (if HasSID c \<or> HasCongestion c \<or> HasFilter c \<or> HasGroup c then 4 else 0)\<rparr>
      else if Version c = 4 then c\<lparr>EncryptionField := 0, ExtensionField := 2\<rparr>
      else c)"

definition hs_base :: "CIFHandshake \<Rightarrow> bytes" where
  "hs_base c =
     put_be32 (Version c) @ put_be16 (EncryptionField c) @ put_be16 (ExtensionField c)
     @ put_be32 (InitialPacketSequenceNumber c AND 0x7FFFFFFF)
     @ put_be32 (MaxTransmissionUnitSize c) @ put_be32 (MaxFlowWindowSize c)
     @ put_be32 (HandshakeType c) @ put_be32 (SRTSocketID c) @ put_be32 (SynCookie c)
     @ marshalIP (PeerIP c)"

definition group_word :: "CIFHandshake \<Rightarrow> u32" where
  "group_word c = push_bit 24 (ucast (GroupType c)) OR push_bit 16 (ucast (GroupFlags c))
     OR ucast (GroupWeight c)"

definition HS_MarshalCIF :: "CIFHandshake \<Rightarrow> CIFHandshake \<times> (perr + bytes)" where
  "HS_MarshalCIF c =
     (let c = hs_prepare c; buf = hs_base c in
      case (if HasHS c
            then (case SRTHS c of None \<Rightarrow> Inl NilPanic
                  | Some hs \<Rightarrow>
                     (case HSExt_MarshalCIF hs of Inl err \<Rightarrow> Inl err
                      | Inr hsData \<Rightarrow>
                         Inr (appendExtension buf
                               (if \<not> IsRequest c then ExtTypeHSRsp else ExtTypeHSReq) hsData)))
            else Inr buf) of
        Inl err \<Rightarrow> (c, Inl err)
      | Inr buf \<Rightarrow>
         let buf = (if HasSID c then appendExtension buf ExtTypeSID (marshalStreamID (StreamID c))
                    else buf);
             buf = (if HasCongestion c
                    then appendExtension buf ExtTypeCongestion (marshalStreamID (CongestionType c))
                    else buf);
             buf = (if HasFilter c \<and> FilterConfig c \<noteq> []
                    then appendExtension buf ExtTypeFilter (marshalStreamID (FilterConfig c))
                    else buf);
             buf = (if HasGroup c \<and> GroupID c \<noteq> 0
                    then appendExtension buf ExtTypeGroup
                           (put_be32 (GroupID c) @ put_be32 (group_word c))
                    else buf)
         in if HasKM c
            then (case SRTKM c of None \<Rightarrow> (c, Inl NilPanic)
                  | Some km \<Rightarrow>
                     (case KM_MarshalCIF km of Inl err \<Rightarrow> (c, Inl err)
                      | Inr kmData \<Rightarrow>
                         (c, Inr (appendExtension buf
                               (if \<not> IsRequest c then ExtTypeKMRsp else ExtTypeKMReq) kmData))))
            else (c, Inr buf))"

text \<open>The \<^verbatim>\<open>switch\<close> of the extension loop: the effect of one extension block.\<close>

definition hs_extension :: "SubType \<Rightarrow> bytes \<Rightarrow> CIFHandshake \<Rightarrow> CIFHandshake \<times> perr option" where
  "hs_extension extType extData c =
     (let extLen = length extData in
      if extType = ExtTypeHSReq \<or> extType = ExtTypeHSRsp then
        if extLen \<noteq> 12 then (c, Some (HSWrongLength extLen))
        else (case HSExt_UnmarshalCIF zero_HSExt extData of
                (hs, err) \<Rightarrow>
                  (c\<lparr>HasHS := True, IsRequest := (extType = ExtTypeHSReq), SRTHS := Some hs\<rparr>, err))
      else if extType = ExtTypeKMReq \<or> extType = ExtTypeKMRsp then
        (case KM_UnmarshalCIF zero_KM extData of
           (km, err) \<Rightarrow>
             (c\<lparr>HasKM := True, IsRequest := (extType = ExtTypeKMReq), SRTKM := Some km\<rparr>, err))
      else if extType = ExtTypeSID then
        if extLen > 512 then (c, Some (StreamIDTooLong extLen))
        else (c\<lparr>HasSID := True, StreamID := unmarshalStreamID extData\<rparr>, None)
      else if extType = ExtTypeCongestion then
        (c\<lparr>HasCongestion := True, CongestionType := unmarshalStreamID extData\<rparr>, None)
      else if extType = ExtTypeFilter then
        (c\<lparr>HasFilter := True, FilterConfig := unmarshalStreamID extData\<rparr>, None)
      else if extType = ExtTypeGroup then
        if extLen \<ge> 8 then
          let dataword = get_be32 (drop 4 extData) in
          (c\<lparr>HasGroup := True, GroupID := get_be32 extData,
             GroupType := ucast (drop_bit 24 dataword), GroupFlags := ucast (drop_bit 16 dataword),
             GroupWeight := ucast dataword\<rparr>, None)
        else (c, None)
      else (c, None))"

function hs_extensions :: "bytes \<Rightarrow> u32 \<Rightarrow> CIFHandshake \<Rightarrow> CIFHandshake \<times> perr option" where
  "hs_extensions pivot seenExt c =
     (if length pivot < 4 then (c, None)
      else
        let extType = get_be16 pivot;
            extLen = unat (get_be16 (drop 2 pivot)) * 4;
            pivot' = drop 4 pivot
        in if length pivot' < extLen then (c, Some (ExtensionTruncated extType (length pivot') extLen))
        else
          let extBit = push_bit (unat extType mod 32) 1 in
          if seenExt AND extBit \<noteq> 0 then (c, Some (DuplicateExtension extType))
          else case hs_extension extType (take extLen pivot') c of
                 (c, Some err) \<Rightarrow> (c, Some err)
               | (c, None) \<Rightarrow>
                   if length pivot' > extLen
                   then hs_extensions (drop extLen pivot') (seenExt OR extBit) c
                   else (c, None))"
  by pat_completeness auto
termination
  by (relation "measure (\<lambda>(pivot, seen, c). length pivot)") auto

declare hs_extensions.simps [simp del]

definition HS_UnmarshalCIF :: "CIFHandshake \<Rightarrow> bytes \<Rightarrow> CIFHandshake \<times> perr option" where
  "HS_UnmarshalCIF c data =
     (if length data < 48 then (c, Some (HandshakeTooShort (length data)))
      else
        let c = c\<lparr>Version := get_be32 data,
                  EncryptionField := get_be16 (drop 4 data),
                  ExtensionField := get_be16 (drop 6 data),
                  InitialPacketSequenceNumber := get_be32 (drop 8 data) AND 0x7FFFFFFF,
                  MaxTransmissionUnitSize := get_be32 (drop 12 data),
                  MaxFlowWindowSize := get_be32 (drop 16 data),
                  HandshakeType := get_be32 (drop 20 data),
                  SRTSocketID := get_be32 (drop 24 data),
                  SynCookie := get_be32 (drop 28 data),
                  PeerIP := unmarshalIP (take 16 (drop 32 data))\<rparr> in
        if HandshakeType c = HandshakeTypeInduction then (c, None)
        else if HandshakeType c \<noteq> HandshakeTypeConclusion then (c, None)
        else if ExtensionField c = 0 \<or> length data \<le> 48 then (c, None)
        else if EncryptionField c \<notin> {0, 2, 3, 4}
          then (c, Some (InvalidEncryptionField (EncryptionField c)))
        else hs_extensions (drop 48 data) 0 c)"

section \<open>Well-formed messages\<close>

text \<open>The padding of a string to whole words, the strings and addresses the wire format represents.\<close>

definition pad4 :: "nat \<Rightarrow> nat" where
  "pad4 n = (if n mod 4 = 0 then 0 else 4 - n mod 4)"

definition no_trailing_nul :: "string \<Rightarrow> bool" where
  "no_trailing_nul s \<longleftrightarrow> s = [] \<or> last s \<noteq> CHR 0x00"

definition ip_canonical :: "bytes \<Rightarrow> bool" where
  "ip_canonical ip \<longleftrightarrow> length ip = 4 \<or>
     length ip = 16 \<and> To4 ip = [] \<and> \<not> list_all (\<lambda>b. b = 0) (drop 4 ip)"

text \<open>The key-material messages the decoder accepts, and the number of keys one carries.\<close>

definition km_ok :: "CIFKeyMaterial \<Rightarrow> bool" where
  "km_ok c \<longleftrightarrow>
     (if km_Error c \<noteq> 0 then c\<lparr>km_Error := 0\<rparr> = zero_KM
      else km_S c \<in> {0, 1} \<and> km_Version c = 1 \<and> km_PacketType c = 2 \<and> km_Sign c = 0x2029 \<and>
        km_KeyBasedEncryption c \<in> {EncryptionEven, EncryptionOdd, EncryptionBoth} \<and>
        (km_Cipher c = 2 \<and> km_Authentication c = 0 \<or> km_Cipher c = 4 \<and> km_Authentication c = 1) \<and>
        km_StreamEncapsulation c = 2 \<and> km_SLen c \<in> {0, 16} \<and> length (km_Salt c) = unat (km_SLen c) \<and>
        km_KLen c \<in> {16, 24, 32} \<and>
        length (km_Wrap c) =
          (if km_KeyBasedEncryption c = EncryptionBoth then 2 else 1) * unat (km_KLen c) + 8)"

definition km_count :: "CIFKeyMaterial \<Rightarrow> nat" where
  "km_count c = (if km_KeyBasedEncryption c = EncryptionBoth then 2 else 1)"

text \<open>An extension block, and the effect of a list of blocks applied in order.\<close>

definition hs_block :: "SubType \<times> bytes \<Rightarrow> bytes" where
  "hs_block b = put_be16 (fst b) @ put_be16 (of_nat (length (snd b) div 4)) @ snd b"

fun hs_apply :: "(SubType \<times> bytes) list \<Rightarrow> CIFHandshake \<Rightarrow> CIFHandshake \<times> perr option" where
  "hs_apply [] c = (c, None)"
| "hs_apply ((t, d) # es) c =
     (case hs_extension t d c of (c, Some err) \<Rightarrow> (c, Some err) | (c, None) \<Rightarrow> hs_apply es c)"

definition block_ok :: "SubType \<times> bytes \<Rightarrow> bool" where
  "block_ok b \<longleftrightarrow> unat (fst b) < 32 \<and> length (snd b) mod 4 = 0 \<and> length (snd b) < 262144"

text \<open>Handshakes the wire format represents: with extensions (a version 5 conclusion) or without.\<close>

definition hs_ext_ok :: "CIFHandshake \<Rightarrow> bool" where
  "hs_ext_ok c \<longleftrightarrow>
     EncryptionField c \<in> {0, 2, 3, 4} \<and>
     (IsRequest c \<longrightarrow> HasHS c \<or> HasKM c) \<and>
     HasHS c = (SRTHS c \<noteq> None) \<and>
     (case SRTKM c of None \<Rightarrow> \<not> HasKM c | Some km \<Rightarrow> HasKM c \<and> km_ok km) \<and>
     HasSID c = (StreamID c \<noteq> []) \<and> no_trailing_nul (StreamID c) \<and> length (StreamID c) \<le> 512 \<and>
     (\<not> HasCongestion c \<longrightarrow> CongestionType c = []) \<and> no_trailing_nul (CongestionType c) \<and>
     length (CongestionType c) \<le> 512 \<and>
     HasFilter c = (FilterConfig c \<noteq> []) \<and> no_trailing_nul (FilterConfig c) \<and>
     length (FilterConfig c) \<le> 512 \<and>
     HasGroup c = (GroupID c \<noteq> 0) \<and>
     (\<not> HasGroup c \<longrightarrow> GroupType c = 0 \<and> GroupFlags c = 0 \<and> GroupWeight c = 0)"

definition hs_no_ext :: "CIFHandshake \<Rightarrow> bool" where
  "hs_no_ext c \<longleftrightarrow>
     \<not> IsRequest c \<and> \<not> HasHS c \<and> SRTHS c = None \<and> \<not> HasKM c \<and> SRTKM c = None \<and>
     \<not> HasSID c \<and> StreamID c = [] \<and> \<not> HasCongestion c \<and> CongestionType c = [] \<and>
     \<not> HasFilter c \<and> FilterConfig c = [] \<and> \<not> HasGroup c \<and> GroupID c = 0 \<and> GroupType c = 0 \<and>
     GroupFlags c = 0 \<and> GroupWeight c = 0"

definition hs_ok :: "CIFHandshake \<Rightarrow> bool" where
  "hs_ok c \<longleftrightarrow> InitialPacketSequenceNumber c \<le> Max \<and> ip_canonical (PeerIP c) \<and>
     (if Version c = 5 \<and> HandshakeType c = HandshakeTypeConclusion then hs_ext_ok c else hs_no_ext c)"

text \<open>The extension blocks of a handshake, and the structure after its fixed part is decoded.\<close>

definition hs_bytes :: "CIFHandshake \<Rightarrow> bytes" where
  "hs_bytes c = (case SRTHS c of None \<Rightarrow> [] | Some hs \<Rightarrow> projr (HSExt_MarshalCIF hs))"

definition km_bytes :: "CIFHandshake \<Rightarrow> bytes" where
  "km_bytes c = (case SRTKM c of None \<Rightarrow> [] | Some km \<Rightarrow> projr (KM_MarshalCIF km))"

definition hs_blocks :: "CIFHandshake \<Rightarrow> (SubType \<times> bytes) list" where
  "hs_blocks c =
     (if HasHS c then [(if \<not> IsRequest c then ExtTypeHSRsp else ExtTypeHSReq, hs_bytes c)] else [])
     @ (if HasSID c then [(ExtTypeSID, marshalStreamID (StreamID c))] else [])
     @ (if HasCongestion c then [(ExtTypeCongestion, marshalStreamID (CongestionType c))] else [])
     @ (if HasFilter c \<and> FilterConfig c \<noteq> [] then [(ExtTypeFilter, marshalStreamID (FilterConfig c))] else [])
     @ (if HasGroup c \<and> GroupID c \<noteq> 0
        then [(ExtTypeGroup, put_be32 (GroupID c) @ put_be32 (group_word c))] else [])
     @ (if HasKM c then [(if \<not> IsRequest c then ExtTypeKMRsp else ExtTypeKMReq, km_bytes c)] else [])"

definition hs_stage :: "CIFHandshake \<Rightarrow> CIFHandshake" where
  "hs_stage c = zero_HS\<lparr>Version := Version c, EncryptionField := EncryptionField c,
     ExtensionField := ExtensionField c, InitialPacketSequenceNumber := InitialPacketSequenceNumber c,
     MaxTransmissionUnitSize := MaxTransmissionUnitSize c, MaxFlowWindowSize := MaxFlowWindowSize c,
     HandshakeType := HandshakeType c, SRTSocketID := SRTSocketID c, SynCookie := SynCookie c,
     PeerIP := PeerIP c\<rparr>"

section \<open>Round trips of the helpers\<close>

lemma length_swap_words [simp]: "length (swap_words xs) = length xs div 4 * 4"
  by (induction xs rule: swap_words.induct) (auto simp: div_add_self1)

lemma swap_words_swap_words: "length xs mod 4 = 0 \<Longrightarrow> swap_words (swap_words xs) = xs"
  by (induction xs rule: swap_words.induct) auto

lemma swap_words_map: "swap_words (map f xs) = map f (swap_words xs)"
  by (induction xs rule: swap_words.induct) auto

lemma go_copy_prefix: "length src \<le> length dst \<Longrightarrow> go_copy dst 0 src = src @ drop (length src) dst"
  by (simp add: go_copy_def)

lemma pad4_mod: "(n + pad4 n) mod 4 = 0"
  unfolding pad4_def by presburger

lemma marshalStreamID_eq:
  "marshalStreamID sid = swap_words (map byte_of_char sid @ replicate (pad4 (length sid)) 0)"
  by (auto simp: marshalStreamID_def pad4_def Let_def go_copy_prefix)

lemma length_marshalStreamID: "length (marshalStreamID sid) = length sid + pad4 (length sid)"
  using pad4_mod [of "length sid"] by (simp add: marshalStreamID_eq dvd_div_mult_self mod_0_imp_dvd)

lemma TrimRight0_append: "TrimRight0 (s @ replicate n (CHR 0x00)) = TrimRight0 s"
  by (induction n) (simp_all add: TrimRight0_def replicate_app_Cons_same)

lemma TrimRight0_id: "no_trailing_nul s \<Longrightarrow> TrimRight0 s = s"
  by (cases s rule: rev_cases) (simp_all add: TrimRight0_def no_trailing_nul_def)

lemma unmarshalStreamID_marshal [wire_simps]:
  "no_trailing_nul sid \<Longrightarrow> unmarshalStreamID (marshalStreamID sid) = sid"
proof -
  assume "no_trailing_nul sid"
  moreover have "char_of_byte 0 = CHR 0x00" by (simp add: char_of_byte_def char_of_def)
  ultimately show ?thesis
    using pad4_mod [of "length sid"]
    by (simp add: unmarshalStreamID_def marshalStreamID_eq swap_words_swap_words comp_def TrimRight0_append TrimRight0_id)
qed

lemma length_marshalIP [simp]: "length (marshalIP ip) = 16"
  by (auto simp: marshalIP_def To4_def To16_def go_copy_def Let_def)

lemma unmarshalIP_marshal [wire_simps]: "ip_canonical ip \<Longrightarrow> unmarshalIP (marshalIP ip) = ip"
  by (auto simp: ip_canonical_def unmarshalIP_def marshalIP_def go_copy_prefix Let_def To4_def To16_def list_all_iff)

section \<open>Key material round trip\<close>

lemma length_km_header [simp]: "length (km_header c) = 16"
  by (simp add: km_header_def)

lemma km_header_fixed:
  assumes "km_S c \<in> {0, 1}" "km_Version c = 1" "km_PacketType c = 2" "km_Sign c = 0x2029"
    "km_StreamEncapsulation c = 2"
  shows "km_header c ! 0 AND 0x0F = 2" "drop_bit 4 (km_header c ! 0) AND 7 = 1"
    "drop_bit 7 (km_header c ! 0) AND 1 = km_S c" "get_be16 (drop (Suc 0) (km_header c) @ r) = 0x2029"
    "get_be32 (drop 4 (km_header c) @ r) = km_KeyEncryptionKeyIndex c"
    "km_header c ! 8 = km_Cipher c" "km_header c ! 9 = km_Authentication c" "km_header c ! 10 = 2"
  using assms by (auto simp: km_header_def nth_append)

lemma km_header_lengths:
  "km_SLen c \<in> {0, 16} \<Longrightarrow> ucast (km_header c ! 14) * 4 = km_SLen c"
  "km_KLen c \<in> {16, 24, 32} \<Longrightarrow> ucast (km_header c ! 15) * 4 = km_KLen c"
  by (auto simp: km_header_def nth_append)

lemma km_header_keys:
  "km_KeyBasedEncryption c \<in> {EncryptionEven, EncryptionOdd, EncryptionBoth} \<Longrightarrow>
   km_header c ! 3 AND 3 = km_KeyBasedEncryption c \<and> km_KeyBasedEncryption c \<noteq> EncryptionNone"
  by (auto simp: km_header_def nth_append EncryptionEven_def EncryptionOdd_def EncryptionBoth_def
      EncryptionNone_def)

lemma km_filled:
  assumes "km_Error c = 0" "km_Version c = 1" "km_PacketType c = 2" "km_Sign c = 0x2029"
    "km_StreamEncapsulation c = 2" "b = km_KeyBasedEncryption c"
  shows "sl = km_SLen c \<Longrightarrow> sa = km_Salt c \<Longrightarrow>
    zero_KM\<lparr>km_S := km_S c, km_Version := 1, km_PacketType := 2, km_Sign := 0x2029,
      km_KeyBasedEncryption := b, km_KeyEncryptionKeyIndex := km_KeyEncryptionKeyIndex c,
      km_Cipher := km_Cipher c, km_Authentication := km_Authentication c, km_StreamEncapsulation := 2,
      km_SLen := sl, km_KLen := km_KLen c, km_Salt := sa, km_Wrap := km_Wrap c\<rparr> = c"
    "km_SLen c = 0 \<Longrightarrow> km_Salt c = [] \<Longrightarrow>
    zero_KM\<lparr>km_S := km_S c, km_Version := 1, km_PacketType := 2, km_Sign := 0x2029,
      km_KeyBasedEncryption := b, km_KeyEncryptionKeyIndex := km_KeyEncryptionKeyIndex c,
      km_Cipher := km_Cipher c, km_Authentication := km_Authentication c, km_StreamEncapsulation := 2,
      km_SLen := 0, km_KLen := km_KLen c, km_Wrap := km_Wrap c\<rparr> = c"
  using assms by (simp_all add: zero_KM_def)

lemma km_decode:
  assumes "km_ok c" and err: "km_Error c = 0"
  shows "KM_UnmarshalCIF zero_KM (km_header c @ km_Salt c @ km_Wrap c) = (c, None)"
proof -
  note km = assms [unfolded km_ok_def, simplified err if_False simp_thms]
  have kb: "km_KeyBasedEncryption c \<in> {EncryptionEven, EncryptionOdd, EncryptionBoth}"
    and ci0: "km_Cipher c = 2 \<and> km_Authentication c = 0 \<or> km_Cipher c = 4 \<and> km_Authentication c = 1"
    and sl: "km_SLen c \<in> {0, 16}" and kl: "km_KLen c \<in> {16, 24, 32}"
    and s: "km_S c \<in> {0, 1}" and sa: "length (km_Salt c) = unat (km_SLen c)"
    and fx: "km_Version c = 1" "km_PacketType c = 2" "km_Sign c = 0x2029" "km_StreamEncapsulation c = 2"
    using km by blast+
  have n: "length (km_Wrap c) = km_count c * unat (km_KLen c) + 8" using km by (simp add: km_count_def)
  have ci: "\<not> (km_Cipher c \<noteq> 2 \<and> km_Cipher c \<noteq> 4)" "\<not> (km_Cipher c = 4 \<and> km_Authentication c \<noteq> 1)"
    "\<not> (km_Cipher c = 2 \<and> km_Authentication c \<noteq> 0)" "\<not> (km_SLen c \<noteq> 0 \<and> km_SLen c \<noteq> 16)"
    "\<not> (km_KLen c \<noteq> 16 \<and> km_KLen c \<noteq> 24 \<and> km_KLen c \<noteq> 32)"
    "0 < km_SLen c \<longleftrightarrow> km_SLen c \<noteq> 0" and z: "km_SLen c = 0 \<longrightarrow> km_Salt c = []"
    using ci0 sl kl sa by (auto simp: word_gt_0)
  have g: "(km_header c @ r) ! i = km_header c ! i" if "i < 16" for i r
    using that by (simp add: nth_append)
  have f2: "km_header c ! 3 AND 3 = km_KeyBasedEncryption c" "km_KeyBasedEncryption c \<noteq> EncryptionNone"
    "EncryptionBoth \<noteq> EncryptionNone"
    using km_header_keys [OF kb] by (simp_all add: EncryptionBoth_def EncryptionNone_def)
  show ?thesis
    unfolding KM_UnmarshalCIF_def Let_def
    by (cases "km_KeyBasedEncryption c = EncryptionBoth")
      (use z in \<open>simp_all add: g f2 km_header_fixed [OF s fx]
        km_header_lengths(1) [OF sl] km_header_lengths(2) [OF kl] km_filled [OF err fx] sa n ci
        km_count_def del: de_Morgan_conj\<close>)
qed

lemma km_encode:
  assumes "km_ok c" and err: "km_Error c = 0"
  shows "KM_MarshalCIF c = Inr (km_header c @ km_Salt c @ km_Wrap c)"
    and "length (km_header c @ km_Salt c @ km_Wrap c) mod 4 = 0"
    and "length (km_header c @ km_Salt c @ km_Wrap c) \<le> 104"
proof -
  note km = assms [unfolded km_ok_def, simplified err if_False simp_thms]
  have sl: "km_SLen c \<in> {0, 16}" and sa: "length (km_Salt c) = unat (km_SLen c)"
    and kl: "km_KLen c \<in> {16, 24, 32}" using km by blast+
  show "KM_MarshalCIF c = Inr (km_header c @ km_Salt c @ km_Wrap c)"
    using sl sa err by (auto simp: KM_MarshalCIF_def Let_def go_copy_def)
  have "length (km_Wrap c) = km_count c * unat (km_KLen c) + 8" using km by (simp add: km_count_def)
  then show "length (km_header c @ km_Salt c @ km_Wrap c) mod 4 = 0"
    "length (km_header c @ km_Salt c @ km_Wrap c) \<le> 104"
    using sl kl sa unfolding length_append km_count_def by auto
qed

lemma km_error_round_trip:
  assumes "km_ok c" and "km_Error c \<noteq> 0"
  shows "KM_MarshalCIF c = Inr (put_be32 (km_Error c))"
    and "KM_UnmarshalCIF zero_KM (put_be32 (km_Error c)) = (c, None)"
proof -
  show "KM_MarshalCIF c = Inr (put_be32 (km_Error c))" using assms by (simp add: KM_MarshalCIF_def)
  have "KM_UnmarshalCIF zero_KM (put_be32 e) = (zero_KM\<lparr>km_Error := e\<rparr>, None)" for e
    unfolding KM_UnmarshalCIF_def by (simp only: length_put_be get_put_be32_Nil simp_thms if_True)
  moreover have "zero_KM\<lparr>km_Error := km_Error c\<rparr> = c"
  proof -
    have z: "zero_KM = c\<lparr>km_Error := 0\<rparr>" using assms by (simp only: km_ok_def simp_thms if_True)
    show ?thesis unfolding z by simp
  qed
  ultimately show "KM_UnmarshalCIF zero_KM (put_be32 (km_Error c)) = (c, None)" by (simp only:)
qed

lemma km_round_trip:
  assumes "km_ok c"
  shows "\<exists>b. KM_MarshalCIF c = Inr b \<and> length b mod 4 = 0 \<and> length b \<le> 104 \<and>
    KM_UnmarshalCIF zero_KM b = (c, None)"
proof (cases "km_Error c = 0")
  case False
  show ?thesis
    by (rule exI [of _ "put_be32 (km_Error c)"])
      (simp add: km_error_round_trip [OF assms False])
next
  case True
  show ?thesis
    by (rule exI [of _ "km_header c @ km_Salt c @ km_Wrap c"], intro conjI)
      (rule km_encode [OF assms True] km_decode [OF assms True])+
qed

section \<open>Handshake round trip\<close>

lemma appendExtension_block: "appendExtension buf t d = buf @ hs_block (t, d)"
  by (simp add: appendExtension_def hs_block_def)

lemma hs_extensions_Nil [simp]: "hs_extensions [] seen c = (c, None)"
  by (simp add: hs_extensions.simps)

lemma hs_extensions_block:
  assumes ok: "block_ok (t, d)" and new: "\<not> bit seen (unat t)"
  shows "hs_extensions (hs_block (t, d) @ rest) seen c =
    (case hs_extension t d c of (c, Some err) \<Rightarrow> (c, Some err)
     | (c, None) \<Rightarrow> hs_extensions rest (seen OR push_bit (unat t) 1) c)"
proof -
  have l: "length d div 4 < 65536" "length d div 4 * 4 = length d" using ok by (auto simp: block_ok_def)
  then have u: "unat (of_nat (length d div 4) :: u16) * 4 = length d"
    by (simp add: unat_of_nat)
  have "seen AND push_bit (unat t) 1 = 0"
    using new by (simp add: push_bit_of_1 and_exp_eq_0_iff_not_bit)
  then show ?thesis
    using ok u by (subst hs_extensions.simps)
      (auto simp: hs_block_def block_ok_def Let_def split: prod.splits option.splits)
qed

lemma hs_extensions_blocks:
  "\<forall>b \<in> set es. block_ok b \<and> \<not> bit seen (unat (fst b)) \<Longrightarrow> distinct (map fst es) \<Longrightarrow>
   hs_extensions (concat (map hs_block es)) seen c = hs_apply es c"
proof (induction es arbitrary: seen c)
  case (Cons b es)
  obtain t d where b: "b = (t, d)" by fastforce
  have "hs_extensions (concat (map hs_block es)) (seen OR push_bit (unat t) 1) c' = hs_apply es c'" for c'
  proof (rule Cons.IH)
    have "unat (fst x) \<noteq> unat t" if "x \<in> set es" for x
      using Cons.prems(2) that b by (auto simp: word_unat_eq_iff [symmetric])
    then show "\<forall>b\<in>set es. block_ok b \<and> \<not> bit (seen OR push_bit (unat t) 1) (unat (fst b))"
      using Cons.prems(1) by (auto simp: bit_or_iff push_bit_of_1 bit_exp_iff)
  qed (use Cons.prems in simp)
  then show ?case using Cons.prems b
    by (simp add: hs_extensions_block split: prod.splits option.splits)
qed simp

lemma hs_apply_append:
  "hs_apply xs c = (c', None) \<Longrightarrow> hs_apply (xs @ ys) c = hs_apply ys c'"
  by (induction xs c rule: hs_apply.induct) (auto split: prod.splits option.splits)

lemma group_word_fields:
  "ucast (drop_bit 24 (group_word c)) = GroupType c"
  "ucast (drop_bit 16 (group_word c)) = GroupFlags c"
  "ucast (group_word c) = GroupWeight c"
proof -
  show "ucast (group_word c) = GroupWeight c"
    by (rule bit_word_eqI) (simp add: group_word_def bit_simps)
  show "ucast (drop_bit 16 (group_word c)) = GroupFlags c"
  proof (rule bit_word_eqI)
    fix n :: nat assume "n < LENGTH(8)"
    then show "bit (ucast (drop_bit 16 (group_word c)) :: u8) n = bit (GroupFlags c) n"
      using bit_imp_le_length [of "GroupWeight c" "16 + n"] by (auto simp: group_word_def bit_simps)
  qed
  show "ucast (drop_bit 24 (group_word c)) = GroupType c"
  proof (rule bit_word_eqI)
    fix n :: nat assume "n < LENGTH(8)"
    then show "bit (ucast (drop_bit 24 (group_word c)) :: u8) n = bit (GroupType c) n"
      using bit_imp_le_length [of "GroupWeight c" "24 + n"] bit_imp_le_length [of "GroupFlags c" "8 + n"]
      by (auto simp: group_word_def bit_simps)
  qed
qed

lemmas ext_types = ExtTypeHSReq_def ExtTypeHSRsp_def ExtTypeKMReq_def ExtTypeKMRsp_def ExtTypeSID_def
  ExtTypeCongestion_def ExtTypeFilter_def ExtTypeGroup_def

lemma hs_prepare_fields [simp]:
  "HasHS (hs_prepare c) = HasHS c" "SRTHS (hs_prepare c) = SRTHS c" "HasKM (hs_prepare c) = HasKM c"
  "SRTKM (hs_prepare c) = SRTKM c" 
  by (simp_all add: hs_prepare_def Let_def)

lemma HS_MarshalCIF_eq:
  assumes "HasHS c = (SRTHS c \<noteq> None)" "HasKM c = (SRTKM c \<noteq> None)"
    "\<forall>km. SRTKM c = Some km \<longrightarrow> km_ok km"
  shows "HS_MarshalCIF c = (hs_prepare c,
    Inr (hs_base (hs_prepare c) @ concat (map hs_block (hs_blocks (hs_prepare c)))))"
proof -
  define p where "p = hs_prepare c"
  have a: "HasHS p = (SRTHS p \<noteq> None)" "HasKM p = (SRTKM p \<noteq> None)"
    "\<forall>km. SRTKM p = Some km \<longrightarrow> km_ok km" using assms by (simp_all add: p_def)
  have k: "KM_MarshalCIF km = Inr (km_bytes p)" if "SRTKM p = Some km" for km
    using km_round_trip [of km] a that by (auto simp: km_bytes_def)
  have h: "HSExt_MarshalCIF hs = Inr (hs_bytes p)" if "SRTHS p = Some hs" for hs
    using that by (simp add: hs_bytes_def HSExt_MarshalCIF_def)
  show ?thesis
    unfolding HS_MarshalCIF_def p_def [symmetric] Let_def
    by (cases "SRTHS p"; cases "SRTKM p")
      (auto simp: a h k hs_blocks_def appendExtension_block)
qed

lemma ext_type_bounds [simp]:
  "unat ExtTypeHSReq < 32" "unat ExtTypeHSRsp < 32" "unat ExtTypeKMReq < 32" "unat ExtTypeKMRsp < 32"
  "unat ExtTypeSID < 32" "unat ExtTypeCongestion < 32" "unat ExtTypeFilter < 32" "unat ExtTypeGroup < 32"
  by (simp_all add: ext_types)

lemma block_ok_StreamID: "length s \<le> 512 \<Longrightarrow> unat t < 32 \<Longrightarrow> block_ok (t, marshalStreamID s)"
  using pad4_mod [of "length s"] by (auto simp: block_ok_def length_marshalStreamID pad4_def)

lemma length_hs_bytes: "SRTHS c = Some hs \<Longrightarrow> length (hs_bytes c) = 12"
  by (simp add: hs_bytes_def HSExt_MarshalCIF_def)

lemma km_bytes_spec:
  assumes "SRTKM c = Some km" "km_ok km"
  shows "length (km_bytes c) mod 4 = 0" "length (km_bytes c) \<le> 104" "KM_UnmarshalCIF zero_KM (km_bytes c) = (km, None)"
  using km_round_trip [OF assms(2)] assms(1) by (auto simp: km_bytes_def)

lemma hs_ext_ok_KM:
  "hs_ext_ok c \<Longrightarrow> HasKM c \<Longrightarrow> \<exists>km. SRTKM c = Some km \<and> km_ok km"
  "hs_ext_ok c \<Longrightarrow> \<not> HasKM c \<Longrightarrow> SRTKM c = None"
  by (cases "SRTKM c"; simp add: hs_ext_ok_def)+

lemma hs_ext_ok_HS: "hs_ext_ok c \<Longrightarrow> HasHS c = (SRTHS c \<noteq> None)"
  by (simp only: hs_ext_ok_def)

lemma hs_ext_ok_strings:
  "hs_ext_ok c \<Longrightarrow> length (StreamID c) \<le> 512 \<and> no_trailing_nul (StreamID c)"
  "hs_ext_ok c \<Longrightarrow> length (CongestionType c) \<le> 512 \<and> no_trailing_nul (CongestionType c)"
  "hs_ext_ok c \<Longrightarrow> length (FilterConfig c) \<le> 512 \<and> no_trailing_nul (FilterConfig c)"
  by (simp_all add: hs_ext_ok_def)

lemma hs_blocks_ok:
  assumes "hs_ext_ok c"
  shows "\<forall>b \<in> set (hs_blocks c). block_ok b"
proof -
  have h: "block_ok (t, hs_bytes c)" if t: "HasHS c" "unat t < 32" for t
  proof -
    obtain hs where "SRTHS c = Some hs" using hs_ext_ok_HS [OF assms] t(1) by auto
    with t(2) show ?thesis by (simp add: block_ok_def length_hs_bytes)
  qed
  have k: "block_ok (t, km_bytes c)" if t: "HasKM c" "unat t < 32" for t
  proof -
    obtain km where "SRTKM c = Some km" "km_ok km" using hs_ext_ok_KM(1) [OF assms t(1)] by blast
    from km_bytes_spec(1,2) [OF this] t(2) show ?thesis by (simp add: block_ok_def)
  qed
  have g: "block_ok (ExtTypeGroup, put_be32 v @ put_be32 w)" for v w
    by (simp add: block_ok_def)
  note s = hs_ext_ok_strings [OF assms, THEN conjunct1, THEN block_ok_StreamID]
  show ?thesis
    unfolding hs_blocks_def set_append ball_Un
    by (intro conjI) (simp_all add: h k g s)
qed

lemma distinct_options:
  "h \<in> {1, 2} \<Longrightarrow> k \<in> {3, 4} \<Longrightarrow>
   distinct ((if b1 then [h] else []) @ (if b2 then [5] else []) @ (if b3 then [6] else []) @
     (if b4 then [7] else []) @ (if b5 then [8] else []) @ (if b6 then [k :: u16] else []))"
  by (cases b1; cases b2; cases b3; cases b4; cases b5; cases b6) auto

lemma hs_blocks_distinct: "distinct (map fst (hs_blocks c))"
proof -
  have "map fst (if b then [(t, d)] else []) = (if b then [t] else [])" for b and t :: u16 and d :: bytes
    by simp
  then show ?thesis
    unfolding hs_blocks_def map_append ext_types
    by (simp only:) (rule distinct_options; simp)
qed

lemma pad4_le: "n \<le> 512 \<Longrightarrow> n + pad4 n \<le> 512"
  unfolding pad4_def by presburger

lemma hs_extension_simps:
  "SRTHS c = Some hs \<Longrightarrow> hs_extension ExtTypeHSReq (hs_bytes c) d =
     (d\<lparr>HasHS := True, IsRequest := True, SRTHS := Some hs\<rparr>, None)"
  "SRTHS c = Some hs \<Longrightarrow> hs_extension ExtTypeHSRsp (hs_bytes c) d =
     (d\<lparr>HasHS := True, IsRequest := False, SRTHS := Some hs\<rparr>, None)"
  "SRTKM c = Some km \<Longrightarrow> km_ok km \<Longrightarrow> hs_extension ExtTypeKMReq (km_bytes c) d =
     (d\<lparr>HasKM := True, IsRequest := True, SRTKM := Some km\<rparr>, None)"
  "SRTKM c = Some km \<Longrightarrow> km_ok km \<Longrightarrow> hs_extension ExtTypeKMRsp (km_bytes c) d =
     (d\<lparr>HasKM := True, IsRequest := False, SRTKM := Some km\<rparr>, None)"
  "no_trailing_nul s \<Longrightarrow> length s \<le> 512 \<Longrightarrow> hs_extension ExtTypeSID (marshalStreamID s) d =
     (d\<lparr>HasSID := True, StreamID := s\<rparr>, None)"
  "no_trailing_nul s \<Longrightarrow> hs_extension ExtTypeCongestion (marshalStreamID s) d =
     (d\<lparr>HasCongestion := True, CongestionType := s\<rparr>, None)"
  "no_trailing_nul s \<Longrightarrow> hs_extension ExtTypeFilter (marshalStreamID s) d =
     (d\<lparr>HasFilter := True, FilterConfig := s\<rparr>, None)"
  "hs_extension ExtTypeGroup (put_be32 (GroupID c) @ put_be32 (group_word c)) d =
     (d\<lparr>HasGroup := True, GroupID := GroupID c, GroupType := GroupType c, GroupFlags := GroupFlags c,
        GroupWeight := GroupWeight c\<rparr>, None)"
proof -
  show "hs_extension ExtTypeSID (marshalStreamID s) d = (d\<lparr>HasSID := True, StreamID := s\<rparr>, None)"
    if "no_trailing_nul s" "length s \<le> 512"
    using that by (auto simp: hs_extension_def ext_types unmarshalStreamID_marshal length_marshalStreamID
        not_less pad4_le Let_def)
qed (simp_all add: hs_extension_def ext_types length_hs_bytes km_bytes_spec(3) unmarshalStreamID_marshal
      group_word_fields hs_bytes_def HSExt_MarshalCIF_def HSExt_UnmarshalCIF_def zero_HSExt_def Let_def)

lemma length_hs_base [simp]: "length (hs_base c) = 48"
  by (simp add: hs_base_def)

text \<open>The fixed part of the message restores the fixed fields.\<close>

lemma HS_UnmarshalCIF_base:
  assumes "InitialPacketSequenceNumber c \<le> Max" and "ip_canonical (PeerIP c)"
  shows "HS_UnmarshalCIF zero_HS (hs_base c @ r) =
    (if HandshakeType c \<noteq> HandshakeTypeConclusion \<or> ExtensionField c = 0 \<or> r = [] then (hs_stage c, None)
     else if EncryptionField c \<notin> {0, 2, 3, 4}
       then (hs_stage c, Some (InvalidEncryptionField (EncryptionField c)))
     else hs_extensions r 0 (hs_stage c))"
proof -
  have m: "InitialPacketSequenceNumber c AND 0x7FFFFFFF = InitialPacketSequenceNumber c"
    using assms(1) by (simp add: masked_id Max_def)
  have "zero_HS\<lparr>Version := get_be32 (hs_base c @ r), EncryptionField := get_be16 (drop 4 (hs_base c @ r)),
      ExtensionField := get_be16 (drop 6 (hs_base c @ r)),
      InitialPacketSequenceNumber := get_be32 (drop 8 (hs_base c @ r)) AND 0x7FFFFFFF,
      MaxTransmissionUnitSize := get_be32 (drop 12 (hs_base c @ r)),
      MaxFlowWindowSize := get_be32 (drop 16 (hs_base c @ r)),
      HandshakeType := get_be32 (drop 20 (hs_base c @ r)),
      SRTSocketID := get_be32 (drop 24 (hs_base c @ r)), SynCookie := get_be32 (drop 28 (hs_base c @ r)),
      PeerIP := unmarshalIP (take 16 (drop 32 (hs_base c @ r)))\<rparr> = hs_stage c"
    using assms(2) by (simp add: hs_base_def hs_stage_def m unmarshalIP_marshal)
  then show ?thesis
    unfolding HS_UnmarshalCIF_def Let_def
    by (simp add: hs_stage_def HandshakeTypeConclusion_def HandshakeTypeInduction_def)
qed

lemma hs_apply_blocks:
  assumes "hs_ext_ok c"
  shows "hs_apply (hs_blocks c) (hs_stage c) = (c, None)"
proof -
  note km = hs_ext_ok_KM [OF assms] and hs = hs_ext_ok_HS [OF assms] and st = hs_ext_ok_strings [OF assms]
  define c1 where "c1 = (hs_stage c)\<lparr>HasHS := HasHS c, IsRequest := HasHS c \<and> IsRequest c, SRTHS := SRTHS c\<rparr>"
  define c2 where "c2 = c1\<lparr>HasSID := HasSID c, StreamID := StreamID c\<rparr>"
  define c3 where "c3 = c2\<lparr>HasCongestion := HasCongestion c, CongestionType := CongestionType c\<rparr>"
  define c4 where "c4 = c3\<lparr>HasFilter := HasFilter c, FilterConfig := FilterConfig c\<rparr>"
  define c5 where "c5 = c4\<lparr>HasGroup := HasGroup c, GroupID := GroupID c, GroupType := GroupType c,
    GroupFlags := GroupFlags c, GroupWeight := GroupWeight c\<rparr>"
  have s: "HasSID c = (StreamID c \<noteq> [])" "\<not> HasCongestion c \<longrightarrow> CongestionType c = []"
     "HasFilter c = (FilterConfig c \<noteq> [])" "HasGroup c = (GroupID c \<noteq> 0)"
     "\<not> HasGroup c \<longrightarrow> GroupType c = 0 \<and> GroupFlags c = 0 \<and> GroupWeight c = 0"
     "IsRequest c \<longrightarrow> HasHS c \<or> HasKM c"
    using assms unfolding hs_ext_ok_def by blast+
  have 1: "hs_apply (if HasHS c then [(if \<not> IsRequest c then ExtTypeHSRsp else ExtTypeHSReq, hs_bytes c)] else [])
      (hs_stage c) = (c1, None)"
    using hs by (auto simp: c1_def hs_stage_def zero_HS_def hs_extension_simps)
  have 2: "hs_apply (if HasSID c then [(ExtTypeSID, marshalStreamID (StreamID c))] else []) c1 = (c2, None)"
    using s(1) st(1) by (simp add: c2_def c1_def hs_stage_def zero_HS_def hs_extension_simps)
  have 3: "hs_apply (if HasCongestion c then [(ExtTypeCongestion, marshalStreamID (CongestionType c))] else []) c2
      = (c3, None)"
    using s(2) st(2) by (simp add: c3_def c2_def c1_def hs_stage_def zero_HS_def hs_extension_simps)
  have 4: "hs_apply (if HasFilter c \<and> FilterConfig c \<noteq> []
      then [(ExtTypeFilter, marshalStreamID (FilterConfig c))] else []) c3 = (c4, None)"
    using s(3) st(3) by (simp add: c4_def c3_def c2_def c1_def hs_stage_def zero_HS_def hs_extension_simps)
  have 5: "hs_apply (if HasGroup c \<and> GroupID c \<noteq> 0
      then [(ExtTypeGroup, put_be32 (GroupID c) @ put_be32 (group_word c))] else []) c4 = (c5, None)"
    using s(4,5) by (simp add: c5_def c4_def c3_def c2_def c1_def hs_stage_def zero_HS_def hs_extension_simps)
  have 6: "hs_apply (if HasKM c then [(if \<not> IsRequest c then ExtTypeKMRsp else ExtTypeKMReq, km_bytes c)] else []) c5
      = (c, None)"
  proof (cases "HasKM c")
    case True
    then obtain k where "SRTKM c = Some k" "km_ok k" using km(1) by blast
    then show ?thesis using True by (simp add: c5_def c4_def c3_def c2_def c1_def hs_stage_def zero_HS_def hs_extension_simps)
  next
    case False
    then have "(HasHS c \<and> IsRequest c) = IsRequest c" using s(6) by blast
    then show ?thesis using False km(2)
      by (simp add: c5_def c4_def c3_def c2_def c1_def hs_stage_def zero_HS_def)
  qed
  show ?thesis
    unfolding hs_blocks_def
    by (simp only: hs_apply_append [OF 1] hs_apply_append [OF 2] hs_apply_append [OF 3] hs_apply_append [OF 4]
      hs_apply_append [OF 5] 6)
qed

lemma hs_ext_ok_frame: "hs_ext_ok (c\<lparr>ExtensionField := x\<rparr>) = hs_ext_ok c"
  by (cases "SRTKM c") (simp_all add: hs_ext_ok_def)

lemma hs_blocks_frame: "hs_blocks (c\<lparr>ExtensionField := x\<rparr>) = hs_blocks c"
  by (simp add: hs_blocks_def hs_bytes_def km_bytes_def group_word_def)

lemma hs_flags_zero:
  "(if a then 1 else 0) OR (if b then 2 else 0) OR (if d then 4 else 0) = (0 :: u16) \<Longrightarrow> \<not> a \<and> \<not> b \<and> \<not> d"
  by (cases a; cases b; cases d) simp_all

lemma hs_prepare_ext:
  assumes "hs_ext_ok c" and "Version c = 5" and "HandshakeType c = HandshakeTypeConclusion"
  shows "\<exists>x. hs_prepare c = c\<lparr>ExtensionField := x\<rparr>" and "hs_ext_ok (hs_prepare c)"
    and "ExtensionField (hs_prepare c) = 0 \<Longrightarrow> hs_blocks (hs_prepare c) = []"
proof -
  have "HasSID c = (StreamID c \<noteq> [])" using assms(1) unfolding hs_ext_ok_def by blast
  then have sid: "(if StreamID c = [] then c\<lparr>HasSID := False\<rparr> else c) = c" by simp
  have p: "hs_prepare c = c\<lparr>ExtensionField := (if HasHS c then 1 else 0) OR (if HasKM c then 2 else 0)
      OR (if HasSID c \<or> HasCongestion c \<or> HasFilter c \<or> HasGroup c then 4 else 0)\<rparr>"
    unfolding hs_prepare_def Let_def sid using assms(2,3) by (simp only: simp_thms if_True)
  then show "\<exists>x. hs_prepare c = c\<lparr>ExtensionField := x\<rparr>" by blast
  show "hs_ext_ok (hs_prepare c)" unfolding p using assms(1) by (simp only: hs_ext_ok_frame)
  have ef: "ExtensionField (c\<lparr>ExtensionField := x\<rparr>) = x" for x by simp
  show "ExtensionField (hs_prepare c) = 0 \<Longrightarrow> hs_blocks (hs_prepare c) = []"
    unfolding p hs_blocks_frame ef
    by (drule hs_flags_zero) (simp add: hs_blocks_def)
qed

lemma hs_no_ext_blocks: "hs_no_ext c \<Longrightarrow> hs_blocks c = [] \<and> hs_stage c = c"
  by (simp add: hs_no_ext_def hs_blocks_def hs_stage_def zero_HS_def)

lemma hs_block_not_Nil [simp]: "hs_block b \<noteq> []"
  by (simp add: hs_block_def put_be16_def)

lemma hs_ok_pointers:
  assumes "hs_ok c"
  shows "HasHS c = (SRTHS c \<noteq> None) \<and> HasKM c = (SRTKM c \<noteq> None) \<and>
    (\<forall>km. SRTKM c = Some km \<longrightarrow> km_ok km)"
proof (cases "hs_ext_ok c")
  case True
  then show ?thesis using hs_ext_ok_HS [OF True] hs_ext_ok_KM [OF True] by fastforce
next
  case False
  then have "hs_no_ext c" using assms by (simp add: hs_ok_def split: if_splits)
  then show ?thesis by (simp add: hs_no_ext_def)
qed

lemma hs_round_trip:
  assumes "hs_ok c"
  shows "\<exists>b. snd (HS_MarshalCIF c) = Inr b \<and> HS_UnmarshalCIF zero_HS b = (hs_prepare c, None)"
proof -
  define p where "p = hs_prepare c"
  have h: "HasHS c = (SRTHS c \<noteq> None)" "HasKM c = (SRTKM c \<noteq> None)"
    "\<forall>km. SRTKM c = Some km \<longrightarrow> km_ok km"
    using hs_ok_pointers [OF assms] by blast+
  have m: "snd (HS_MarshalCIF c) = Inr (hs_base p @ concat (map hs_block (hs_blocks p)))"
    by (simp add: HS_MarshalCIF_eq [OF h] p_def)
  have b: "InitialPacketSequenceNumber p \<le> Max" "ip_canonical (PeerIP p)"
    using assms by (simp_all add: p_def hs_ok_def hs_prepare_def Let_def)
  have "HS_UnmarshalCIF zero_HS (hs_base p @ concat (map hs_block (hs_blocks p))) = (p, None)"
  proof (cases "Version c = 5 \<and> HandshakeType c = HandshakeTypeConclusion")
    case True
    then have ec: "hs_ext_ok c" using assms by (simp add: hs_ok_def)
    then have e: "hs_ext_ok p" using hs_prepare_ext(2) True by (simp add: p_def)
    obtain f where "p = c\<lparr>ExtensionField := f\<rparr>" using hs_prepare_ext(1) [OF ec] True by (auto simp: p_def)
    then have ht: "HandshakeType p = HandshakeTypeConclusion" using True by simp
    have ap: "hs_apply (hs_blocks p) (hs_stage p) = (p, None)" by (rule hs_apply_blocks [OF e])
    have x: "hs_extensions (concat (map hs_block (hs_blocks p))) 0 (hs_stage p) = (p, None)"
      using hs_extensions_blocks [of "hs_blocks p" 0 "hs_stage p"] hs_blocks_ok [OF e] hs_blocks_distinct [of p] ap
      by simp
    show ?thesis
    proof (cases "ExtensionField p = 0 \<or> hs_blocks p = []")
      case True
      then have "hs_blocks p = []"
        using hs_prepare_ext(3) [OF ec] \<open>Version c = 5 \<and> _\<close> by (auto simp: p_def)
      with ap have "hs_stage p = p" by simp
      with True \<open>hs_blocks p = []\<close> show ?thesis using HS_UnmarshalCIF_base [OF b, of "[]"] by simp
    next
      case False
      then have "concat (map hs_block (hs_blocks p)) \<noteq> []" by (cases "hs_blocks p") simp_all
      moreover have "EncryptionField p \<in> {0, 2, 3, 4}" using e unfolding hs_ext_ok_def by blast
      moreover have "ExtensionField p \<noteq> 0" using False by blast
      ultimately show ?thesis using ht x by (simp only: HS_UnmarshalCIF_base [OF b] simp_thms if_False)
    qed
  next
    case False
    then have "hs_no_ext c" using assms by (auto simp: hs_ok_def)
    then have "hs_no_ext p" by (simp add: p_def hs_no_ext_def hs_prepare_def Let_def)
    from hs_no_ext_blocks [OF this] show ?thesis using HS_UnmarshalCIF_base [OF b, of "[]"] by simp
  qed
  with m show ?thesis by (simp add: p_def)
qed

section \<open>Interpretations\<close>

interpretation hsext: cif_codec HSExt_MarshalCIF HSExt_UnmarshalCIF zero_HSExt "\<lambda>_. True" "\<lambda>c. c"
  by unfold_locales (auto simp: HSExt_MarshalCIF_def HSExt_UnmarshalCIF_def zero_HSExt_def)

interpretation km: cif_codec KM_MarshalCIF KM_UnmarshalCIF zero_KM km_ok "\<lambda>c. c"
  by unfold_locales (use km_round_trip in blast)

interpretation handshake: cif_codec "\<lambda>c. snd (HS_MarshalCIF c)" HS_UnmarshalCIF zero_HS hs_ok hs_prepare
  by unfold_locales (rule hs_round_trip)

section \<open>Properties\<close>

text \<open>
  C10. A handshake, with any combination of the HS, stream ID, congestion, filter, group and key-material
  extensions, arrives as it was sent: marshalling it into a packet, the packet onto the wire, parsing and
  decoding into an empty structure gives the sender's structure (with the extension field
  \<^verbatim>\<open>MarshalCIF\<close> computed for it).
\<close>

theorem Handshake_round_trip:
  assumes "hs_ok c" and "header_wf (Header p)"
  shows "\<exists>p1 raw p2. Packet_MarshalCIF (\<lambda>c. snd (HS_MarshalCIF c)) p c = Inr p1 \<and>
     MarshalTo p1 = Inr raw \<and> Parse raw addr = Inr p2 \<and>
     Packet_UnmarshalCIF HS_UnmarshalCIF p2 zero_HS = (fst (HS_MarshalCIF c), None)"
proof -
  have "fst (HS_MarshalCIF c) = hs_prepare c"
    using HS_MarshalCIF_eq [of c] hs_ok_pointers [OF assms(1)] by simp
  then show ?thesis using handshake.packet_round_trip [OF assms, of addr] by auto
qed

theorem Handshake_round_trip_witness:
  "\<exists>p1 raw p2. Packet_MarshalCIF (\<lambda>c. snd (HS_MarshalCIF c)) (NewControl None CtrlTypeHandshake 0 9)
       (zero_HS\<lparr>Version := 5, HandshakeType := HandshakeTypeConclusion, PeerIP := [127, 0, 0, 1],
          IsRequest := True, HasHS := True, SRTHS := Some zero_HSExt, HasSID := True,
          StreamID := ''live/cam''\<rparr>) = Inr p1 \<and>
     MarshalTo p1 = Inr raw \<and> Parse raw None = Inr p2 \<and>
     StreamID (fst (Packet_UnmarshalCIF HS_UnmarshalCIF p2 zero_HS)) = ''live/cam''"
proof -
  define c where "c = zero_HS\<lparr>Version := 5, HandshakeType := HandshakeTypeConclusion,
    PeerIP := [127, 0, 0, 1], IsRequest := True, HasHS := True, SRTHS := Some zero_HSExt,
    HasSID := True, StreamID := ''live/cam''\<rparr>"
  have "hs_ok c"
    by (simp add: c_def zero_HS_def hs_ok_def hs_ext_ok_def ip_canonical_def no_trailing_nul_def Max_def)
  moreover have "header_wf (Header (NewControl None CtrlTypeHandshake 0 9))"
    by (simp add: NewControl_def New_def header_wf_def zero_Header_def CtrlTypeHandshake_def)
  moreover have "StreamID (fst (HS_MarshalCIF c)) = ''live/cam''"
    using HS_MarshalCIF_eq [of c] by (simp add: c_def zero_HS_def hs_prepare_def Let_def)
  ultimately show ?thesis
    using Handshake_round_trip [of c "NewControl None CtrlTypeHandshake 0 9" None]
    unfolding c_def by (metis fst_conv)
qed

end
