(* ===== verification/Crypto.thy ===== *)
theory Crypto
  imports Key_Wrap Handshake_Cif
begin

text \<open>
  The encryption context, \<^verbatim>\<open>internal/crypto/crypto.go\<close>. A cached cipher block or AEAD is represented by the key it was
  created with; a nil slice is the empty list. Random bytes are arguments: what \<^verbatim>\<open>rand.Read\<close> delivers, or
  \<open>None\<close> when it fails. The read-write lock makes every method atomic.
\<close>

type_synonym CipherMode = u8

definition CipherCTR :: CipherMode where "CipherCTR = 2"
definition CipherGCM :: CipherMode where "CipherGCM = 4"
definition AuthNone :: u8 where "AuthNone = 0"
definition AuthGCM :: u8 where "AuthGCM = 1"
definition GCMTagSize :: nat where "GCMTagSize = 16"
definition GCMNonceSize :: nat where "GCMNonceSize = 12"

datatype crypto_err =
  InvalidKeySize int | RandFailed | CipherFailed | ErrInvalidKey | ErrInvalidPassphrase | ErrAuthFailed |
  WrapFailed wrap_err | WrongKeyLength nat nat

record Context =
  cx_mode :: CipherMode
  cx_keyLength :: nat
  cx_salt :: bytes
  evenSEK :: bytes
  oddSEK :: bytes
  evenCipher :: "bytes option"
  oddCipher :: "bytes option"
  evenAEAD :: "bytes option"
  oddAEAD :: "bytes option"
  useGcm153 :: bool

definition generateSEK :: "Context \<Rightarrow> PacketEncryption \<Rightarrow> bytes option \<Rightarrow> Context \<times> crypto_err option" where
  "generateSEK ctx key rnd =
     (case rnd of
        None \<Rightarrow> (ctx, Some RandFailed)
      | Some r \<Rightarrow>
          let sek = go_copy (replicate (cx_keyLength ctx) 0) 0 r in
          (case aes_NewCipher sek of
             None \<Rightarrow> (ctx, Some CipherFailed)
           | Some block \<Rightarrow>
               let aead = (if cx_mode ctx = CipherGCM then Some block else None) in
               if key = EncryptionEven
               then (ctx\<lparr>evenSEK := sek, evenCipher := Some block, evenAEAD := aead\<rparr>, None)
               else if key = EncryptionOdd
               then (ctx\<lparr>oddSEK := sek, oddCipher := Some block, oddAEAD := aead\<rparr>, None)
               else (ctx, Some ErrInvalidKey)))"

definition GenerateSEK :: "Context \<Rightarrow> PacketEncryption \<Rightarrow> bytes option \<Rightarrow> Context \<times> crypto_err option" where
  "GenerateSEK ctx key rnd = generateSEK ctx key rnd"

definition NewWithMode ::
    "int \<Rightarrow> CipherMode \<Rightarrow> bytes option \<Rightarrow> bytes option \<Rightarrow> bytes option \<Rightarrow> crypto_err + Context" where
  "NewWithMode keyLength mode rndSalt rndEven rndOdd =
     (if keyLength \<notin> {16, 24, 32} then Inl (InvalidKeySize keyLength)
      else case rndSalt of
             None \<Rightarrow> Inl RandFailed
           | Some r \<Rightarrow>
               let ctx = \<lparr>cx_mode = mode, cx_keyLength = nat keyLength, cx_salt = go_copy (replicate 16 0) 0 r, evenSEK = [], oddSEK = [],
                          evenCipher = None, oddCipher = None, evenAEAD = None, oddAEAD = None, useGcm153 = False\<rparr>
               in case generateSEK ctx EncryptionEven rndEven of
                    (_, Some err) \<Rightarrow> Inl err
                  | (ctx, None) \<Rightarrow>
                      (case generateSEK ctx EncryptionOdd rndOdd of
                         (_, Some err) \<Rightarrow> Inl err
                       | (ctx, None) \<Rightarrow> Inr ctx))"

definition crypto_New :: "int \<Rightarrow> bytes option \<Rightarrow> bytes option \<Rightarrow> bytes option \<Rightarrow> crypto_err + Context" where
  "crypto_New keyLength = NewWithMode keyLength CipherCTR"

definition SetMode :: "Context \<Rightarrow> CipherMode \<Rightarrow> Context" where
  "SetMode ctx mode =
     (if cx_mode ctx = mode then ctx
      else let ctx = ctx\<lparr>cx_mode := mode\<rparr> in
           if mode = CipherGCM
           then ctx\<lparr>evenAEAD := (case evenCipher ctx of None \<Rightarrow> evenAEAD ctx | Some k \<Rightarrow> Some k),
                    oddAEAD := (case oddCipher ctx of None \<Rightarrow> oddAEAD ctx | Some k \<Rightarrow> Some k)\<rparr>
           else ctx)"

definition SetGCM153 :: "Context \<Rightarrow> bool \<Rightarrow> Context" where
  "SetGCM153 ctx enabled = ctx\<lparr>useGcm153 := enabled\<rparr>"

definition ClearSEK :: "Context \<Rightarrow> PacketEncryption \<Rightarrow> Context" where
  "ClearSEK ctx key =
     (if key = EncryptionEven then ctx\<lparr>evenSEK := [], evenCipher := None, evenAEAD := None\<rparr>
      else if key = EncryptionOdd then ctx\<lparr>oddSEK := [], oddCipher := None, oddAEAD := None\<rparr>
      else ctx)"

definition cipherAndSalt :: "Context \<Rightarrow> PacketEncryption \<Rightarrow> bytes option \<times> bytes" where
  "cipherAndSalt ctx key =
     (if key = EncryptionEven then (evenCipher ctx, cx_salt ctx)
      else if key = EncryptionOdd then (oddCipher ctx, cx_salt ctx)
      else (None, cx_salt ctx))"

definition aeadAndSalt :: "Context \<Rightarrow> PacketEncryption \<Rightarrow> bytes option \<times> bytes" where
  "aeadAndSalt ctx key =
     (if key = EncryptionEven then (evenAEAD ctx, cx_salt ctx)
      else if key = EncryptionOdd then (oddAEAD ctx, cx_salt ctx)
      else (None, cx_salt ctx))"

text \<open>The 16-byte initial counter block: the sequence number at offset 10, XORed with 14 bytes of the salt.\<close>

definition ctr_iv :: "bytes \<Rightarrow> u32 \<Rightarrow> bytes" where
  "ctr_iv salt seqNo = xor_bytes (replicate 10 0 @ put_be32 seqNo) (take 14 salt) @ [0, 0]"

definition xorPayload :: "Context \<Rightarrow> bytes \<Rightarrow> PacketEncryption \<Rightarrow> u32 \<Rightarrow> bytes \<times> crypto_err option" where
  "xorPayload ctx data key seqNo =
     (case cipherAndSalt ctx key of
        (None, _) \<Rightarrow> (data, Some ErrInvalidKey)
      | (Some block, salt) \<Rightarrow> (CTR_XORKeyStream (aes_Encrypt block) (ctr_iv salt seqNo) data, None))"

definition buildGCMNonce :: "bytes \<Rightarrow> u32 \<Rightarrow> bool \<Rightarrow> bytes" where
  "buildGCMNonce salt seqNo legacy =
     (if legacy then drop 4 (xor_bytes (replicate 12 0 @ put_be32 seqNo) (take 16 salt))
      else xor_bytes (replicate 8 0 @ put_be32 seqNo) (take GCMNonceSize salt))"

definition gcm_aad :: "bytes \<Rightarrow> bytes" where
  "gcm_aad header = (if length header \<ge> 16 then take 16 header else [])"

definition encryptGCM :: "Context \<Rightarrow> bytes \<Rightarrow> bytes \<Rightarrow> PacketEncryption \<Rightarrow> u32 \<Rightarrow> bytes \<times> crypto_err option" where
  "encryptGCM ctx data header key seqNo =
     (case aeadAndSalt ctx key of
        (None, _) \<Rightarrow> ([], Some ErrInvalidKey)
      | (Some k, salt) \<Rightarrow>
          (GCM_Seal (aes_Encrypt k) (buildGCMNonce salt seqNo (useGcm153 ctx)) data (gcm_aad header), None))"

definition decryptGCM :: "Context \<Rightarrow> bytes \<Rightarrow> bytes \<Rightarrow> PacketEncryption \<Rightarrow> u32 \<Rightarrow> bytes \<times> crypto_err option" where
  "decryptGCM ctx data header key seqNo =
     (case aeadAndSalt ctx key of
        (None, _) \<Rightarrow> ([], Some ErrInvalidKey)
      | (Some k, salt) \<Rightarrow>
          if length data < GCMTagSize then ([], Some ErrAuthFailed)
          else (case GCM_Open (aes_Encrypt k) (buildGCMNonce salt seqNo (useGcm153 ctx)) data (gcm_aad header) of
                  None \<Rightarrow> ([], Some ErrAuthFailed)
                | Some plaintext \<Rightarrow> (plaintext, None)))"

definition EncryptPayload :: "Context \<Rightarrow> bytes \<Rightarrow> bytes \<Rightarrow> PacketEncryption \<Rightarrow> u32 \<Rightarrow> bytes \<times> crypto_err option" where
  "EncryptPayload ctx data header key seqNo =
     (if cx_mode ctx = CipherGCM then encryptGCM ctx data header key seqNo else xorPayload ctx data key seqNo)"

definition DecryptPayload :: "Context \<Rightarrow> bytes \<Rightarrow> bytes \<Rightarrow> PacketEncryption \<Rightarrow> u32 \<Rightarrow> bytes \<times> crypto_err option" where
  "DecryptPayload ctx data header key seqNo =
     (if cx_mode ctx = CipherGCM then decryptGCM ctx data header key seqNo else xorPayload ctx data key seqNo)"

section \<open>Key material\<close>

definition calculateKEK :: "bytes \<Rightarrow> bytes \<Rightarrow> nat \<Rightarrow> bytes" where
  "calculateKEK passphrase salt keyLength = pbkdf2_Key passphrase (drop 8 salt) 2048 keyLength"

definition km_plaintext :: "Context \<Rightarrow> PacketEncryption \<Rightarrow> bytes" where
  "km_plaintext ctx key =
     (let n = (if key = EncryptionBoth then 2 else 1); p = replicate (n * cx_keyLength ctx) 0 in
      if key = EncryptionEven then go_copy p 0 (evenSEK ctx)
      else if key = EncryptionOdd then go_copy p 0 (oddSEK ctx)
      else if key = EncryptionBoth
      then go_copy (take (cx_keyLength ctx) p) 0 (evenSEK ctx) @ go_copy (drop (cx_keyLength ctx) p) 0 (oddSEK ctx)
      else p)"

definition MarshalKM ::
    "Context \<Rightarrow> CIFKeyMaterial \<Rightarrow> bytes \<Rightarrow> PacketEncryption \<Rightarrow> CIFKeyMaterial \<times> crypto_err option" where
  "MarshalKM ctx km passphrase key =
     (if key = EncryptionNone then (km, Some ErrInvalidKey)
      else
        let km = km\<lparr>km_S := 0, km_Version := 1, km_PacketType := 2, km_Sign := 0x2029, km_KeyBasedEncryption := key,
                    km_KeyEncryptionKeyIndex := 0, km_StreamEncapsulation := 2, km_SLen := 16,
                    km_KLen := of_nat (cx_keyLength ctx),
                    km_Cipher := (if cx_mode ctx = CipherGCM then CipherGCM else CipherCTR),
                    km_Authentication := (if cx_mode ctx = CipherGCM then AuthGCM else AuthNone),
                    km_Salt := go_copy (replicate 16 0) 0 (cx_salt ctx)\<rparr>
        in case KeyWrap (calculateKEK passphrase (cx_salt ctx) (cx_keyLength ctx)) (km_plaintext ctx key) of
             Inl err \<Rightarrow> (km, Some (WrapFailed err))
           | Inr wrap \<Rightarrow> (km\<lparr>km_Wrap := wrap\<rparr>, None))"

text \<open>Installing unwrapped keys: every step that can fail stops the rest of its branch.\<close>

definition install_even :: "Context \<Rightarrow> bytes \<Rightarrow> Context \<times> crypto_err option" where
  "install_even ctx sek =
     (let ctx = ctx\<lparr>evenSEK := sek, evenCipher := aes_NewCipher sek\<rparr> in
      case aes_NewCipher sek of
        None \<Rightarrow> (ctx, Some CipherFailed)
      | Some block \<Rightarrow> (if cx_mode ctx = CipherGCM then ctx\<lparr>evenAEAD := Some block\<rparr> else ctx, None))"

definition install_odd :: "Context \<Rightarrow> bytes \<Rightarrow> Context \<times> crypto_err option" where
  "install_odd ctx sek =
     (let ctx = ctx\<lparr>oddSEK := sek, oddCipher := aes_NewCipher sek\<rparr> in
      case aes_NewCipher sek of
        None \<Rightarrow> (ctx, Some CipherFailed)
      | Some block \<Rightarrow> (if cx_mode ctx = CipherGCM then ctx\<lparr>oddAEAD := Some block\<rparr> else ctx, None))"

definition install_both :: "Context \<Rightarrow> bytes \<Rightarrow> bytes \<Rightarrow> Context \<times> crypto_err option" where
  "install_both ctx evenK oddK =
     (let ctx = ctx\<lparr>evenSEK := evenK, oddSEK := oddK, evenCipher := aes_NewCipher evenK\<rparr> in
      case aes_NewCipher evenK of
        None \<Rightarrow> (ctx, Some CipherFailed)
      | Some ke \<Rightarrow>
          let ctx = ctx\<lparr>oddCipher := aes_NewCipher oddK\<rparr> in
          case aes_NewCipher oddK of
            None \<Rightarrow> (ctx, Some CipherFailed)
          | Some ko \<Rightarrow> (if cx_mode ctx = CipherGCM then ctx\<lparr>evenAEAD := Some ke, oddAEAD := Some ko\<rparr> else ctx, None))"

definition install_keys :: "Context \<Rightarrow> PacketEncryption \<Rightarrow> bytes \<Rightarrow> Context \<times> crypto_err option" where
  "install_keys ctx key plaintext =
     (let n = (if key = EncryptionBoth then 2 else 1);
          expectedLen = n * cx_keyLength ctx
      in if length plaintext \<noteq> expectedLen then (ctx, Some (WrongKeyLength (length plaintext) expectedLen))
         else if key = EncryptionEven then install_even ctx plaintext
         else if key = EncryptionOdd then install_odd ctx plaintext
         else if key = EncryptionBoth
         then install_both ctx (take (cx_keyLength ctx) plaintext) (drop (cx_keyLength ctx) plaintext)
         else (ctx, None))"

text \<open>The salt and the cipher mode are taken from the message before it is known to be genuine.\<close>

definition adopt_km :: "Context \<Rightarrow> CIFKeyMaterial \<Rightarrow> Context" where
  "adopt_km ctx km =
     (let ctx = (if length (km_Salt km) = 16 then ctx\<lparr>cx_salt := km_Salt km\<rparr> else ctx)
      in ctx\<lparr>cx_mode := (if km_Cipher km = CipherGCM then CipherGCM else CipherCTR)\<rparr>)"

definition UnmarshalKM :: "Context \<Rightarrow> CIFKeyMaterial \<Rightarrow> bytes \<Rightarrow> Context \<times> crypto_err option" where
  "UnmarshalKM ctx km passphrase =
     (if km_KeyBasedEncryption km = EncryptionNone then (ctx, Some ErrInvalidKey)
      else
        let ctx = adopt_km ctx km
        in case KeyUnwrap (calculateKEK passphrase (cx_salt ctx) (cx_keyLength ctx)) (km_Wrap km) of
             Inl _ \<Rightarrow> (ctx, Some ErrInvalidPassphrase)
           | Inr plaintext \<Rightarrow> install_keys ctx (km_KeyBasedEncryption km) plaintext)"

end
