(* ===== verification/Crypto_Exchange.thy ===== *)
theory Crypto_Exchange
  imports Crypto
begin

text \<open>
  What the encryption context guarantees: the two modes are inverted by decryption, key material survives wrapping, the
  wire and unwrapping, and the fields of a context stay consistent. A rejected message shows where they do not.
\<close>

section \<open>Invariant and messages\<close>

text \<open>
  A key slot that is ready for use: the cached cipher and, in GCM mode, the AEAD belong to its key; a slot that has been cleared;
  and the invariant of a context, also slot by slot on the fields.
\<close>

definition slot_sek :: "Context \<Rightarrow> PacketEncryption \<Rightarrow> bytes" where
  "slot_sek ctx k = (if k = EncryptionEven then evenSEK ctx else oddSEK ctx)"

definition slot_ready :: "Context \<Rightarrow> PacketEncryption \<Rightarrow> bool" where
  "slot_ready ctx k \<longleftrightarrow>
     k \<in> {EncryptionEven, EncryptionOdd} \<and> length (slot_sek ctx k) = cx_keyLength ctx \<and>
     fst (cipherAndSalt ctx k) = Some (slot_sek ctx k) \<and>
     (cx_mode ctx = CipherGCM \<longrightarrow> fst (aeadAndSalt ctx k) = Some (slot_sek ctx k))"

definition slot_cleared :: "Context \<Rightarrow> PacketEncryption \<Rightarrow> bool" where
  "slot_cleared ctx k \<longleftrightarrow> slot_sek ctx k = [] \<and> fst (cipherAndSalt ctx k) = None \<and> fst (aeadAndSalt ctx k) = None"

definition ctx_inv :: "Context \<Rightarrow> bool" where
  "ctx_inv ctx \<longleftrightarrow>
     cx_keyLength ctx \<in> {16, 24, 32} \<and> length (cx_salt ctx) = 16 \<and> cx_mode ctx \<in> {CipherCTR, CipherGCM} \<and>
     (\<forall>k \<in> {EncryptionEven, EncryptionOdd}. slot_ready ctx k \<or> slot_cleared ctx k)"

definition slot_inv :: "nat \<Rightarrow> CipherMode \<Rightarrow> bytes \<Rightarrow> bytes option \<Rightarrow> bytes option \<Rightarrow> bool" where
  "slot_inv n mode sek cipher aead \<longleftrightarrow>
     length sek = n \<and> cipher = Some sek \<and> (mode = CipherGCM \<longrightarrow> aead = Some sek) \<or>
     sek = [] \<and> cipher = None \<and> aead = None"

text \<open>
  The number of keys a message carries, and the message that a context marshals, given the wrapped keys.
\<close>

definition km_keys :: "PacketEncryption \<Rightarrow> nat" where
  "km_keys key = (if key = EncryptionBoth then 2 else 1)"

definition km_of :: "Context \<Rightarrow> PacketEncryption \<Rightarrow> bytes \<Rightarrow> CIFKeyMaterial" where
  "km_of s key w =
     \<lparr>km_Error = 0, km_S = 0, km_Version = 1, km_PacketType = 2, km_Sign = 0x2029, km_KeyBasedEncryption = key,
      km_KeyEncryptionKeyIndex = 0, km_Cipher = cx_mode s, km_Authentication = (if cx_mode s = CipherGCM then AuthGCM else AuthNone),
      km_StreamEncapsulation = 2, km_SLen = 16, km_KLen = of_nat (cx_keyLength s), km_Salt = cx_salt s, km_Wrap = w\<rparr>"

text \<open>
  The operations of a context as values, to run sequences of them.
\<close>

datatype ctx_op = OpGenerate PacketEncryption "bytes option" | OpClear PacketEncryption | OpSetMode CipherMode | OpGCM153 bool

fun ctx_step :: "ctx_op \<Rightarrow> Context \<Rightarrow> Context" where
  "ctx_step (OpGenerate k rnd) ctx = fst (GenerateSEK ctx k rnd)"
| "ctx_step (OpClear k) ctx = ClearSEK ctx k"
| "ctx_step (OpSetMode m) ctx = SetMode ctx m"
| "ctx_step (OpGCM153 b) ctx = SetGCM153 ctx b"

fun ctx_op_ok :: "ctx_op \<Rightarrow> bool" where
  "ctx_op_ok (OpSetMode m) = (m \<in> {CipherCTR, CipherGCM})"
| "ctx_op_ok _ = True"

text \<open>
  A context to instantiate the properties with.
\<close>

definition ctx_example :: Context where
  "ctx_example = \<lparr>cx_mode = CipherCTR, cx_keyLength = 16, cx_salt = replicate 16 7, evenSEK = replicate 16 1, oddSEK = replicate 16 2,
     evenCipher = Some (replicate 16 1), oddCipher = Some (replicate 16 2), evenAEAD = None, oddAEAD = None, useGcm153 = False\<rparr>"

section \<open>Modes\<close>

lemma length_inc_little [simp]: "length (inc_little c) = length c"
  by (induction c rule: inc_little.induct) auto

lemma length_inc_counter [simp]: "length (inc_counter c) = length c" "length c = 16 \<Longrightarrow> length (inc32 c) = 16"
  by (simp_all add: inc_counter_def inc32_def)

context block_cipher
begin

lemma length_key_stream:
  assumes "key_ok k" "\<And>c. length c = 16 \<Longrightarrow> length (inc c) = 16"
  shows "length ctr = 16 \<Longrightarrow> length (key_stream (encrypt k) inc n ctr) = 16 * n"
  by (induction n arbitrary: ctr) (simp_all add: assms length_encrypt)

lemma stream_xor_twice:
  assumes "key_ok k" "\<And>c. length c = 16 \<Longrightarrow> length (inc c) = 16" "length ctr = 16"
  shows "length (stream_xor (encrypt k) inc ctr data) = length data"
    and "stream_xor (encrypt k) inc ctr (stream_xor (encrypt k) inc ctr data) = data"
proof -
  have "length data \<le> length (key_stream (encrypt k) inc ((length data + 15) div 16) ctr)"
    using length_key_stream [OF assms(1,2)] assms(3) by simp
  then show "length (stream_xor (encrypt k) inc ctr data) = length data"
    "stream_xor (encrypt k) inc ctr (stream_xor (encrypt k) inc ctr data) = data"
    by (simp_all add: stream_xor_def xor_bytes_twice)
qed

lemma length_put_be128 [simp]: "length (put_be128 w) = 16"
  by (simp add: put_be128_def length_put_be)

lemma Open_Seal:
  assumes "key_ok k" "length nonce = 12"
  shows "GCM_Open (encrypt k) nonce (GCM_Seal (encrypt k) nonce data aad) aad = Some data"
    "length (GCM_Seal (encrypt k) nonce data aad) = length data + 16"
proof -
  have l: "length (gcm_tag (encrypt k) nonce c aad) = 16" for c
    using assms by (simp add: gcm_tag_def Let_def length_encrypt)
  have ctr: "length (inc32 (nonce @ [0, 0, 0, 1])) = 16" using assms(2) by simp
  note S = stream_xor_twice [OF assms(1) length_inc_counter(2) ctr]
  show "GCM_Open (encrypt k) nonce (GCM_Seal (encrypt k) nonce data aad) aad = Some data"
    "length (GCM_Seal (encrypt k) nonce data aad) = length data + 16"
    by (simp_all add: GCM_Seal_def GCM_Open_def Let_def l S)
qed

lemma encrypt_inj: "key_ok k \<Longrightarrow> length a = 16 \<Longrightarrow> length b = 16 \<Longrightarrow> encrypt k a = encrypt k b \<Longrightarrow> a = b"
  by (metis decrypt_encrypt)

end

section \<open>Payloads\<close>

lemma xor_bytes_inj:
  assumes "length a = length b" "length k \<ge> length a" "xor_bytes a k = xor_bytes b k"
  shows "a = b"
  using xor_bytes_twice [of a k] xor_bytes_twice [of b k] assms by metis

lemma xor_bytes_commute: "xor_bytes a b = xor_bytes b a"
  by (rule nth_equalityI) (simp_all add: xor_bytes_def min.commute xor.commute)

lemma payload_lengths:
  assumes "length salt = 16"
  shows "length (ctr_iv salt s) = 16" "length (buildGCMNonce salt s g) = 12"
  using assms by (simp_all add: ctr_iv_def buildGCMNonce_def GCMNonceSize_def length_put_be)

lemma Decrypt_Encrypt:
  assumes s: "slot_ready s k" "cx_keyLength s \<in> {16, 24, 32}" "length (cx_salt s) = 16"
    and r: "slot_ready r k" "slot_sek r k = slot_sek s k" "cx_salt r = cx_salt s" "cx_mode r = cx_mode s"
      "useGcm153 r = useGcm153 s"
  shows "\<exists>c. EncryptPayload s data header k seqNo = (c, None) \<and> DecryptPayload r c header k seqNo = (data, None)"
proof -
  define sek where "sek = slot_sek s k"
  have k: "k \<in> {EncryptionEven, EncryptionOdd}" and ok: "length sek \<in> {16, 24, 32}" using s by (auto simp: slot_ready_def sek_def)
  have ci: "cipherAndSalt s k = (Some sek, cx_salt s)" "cipherAndSalt r k = (Some sek, cx_salt s)"
    using s(1) r(1-3) k by (auto simp: slot_ready_def sek_def cipherAndSalt_def split: if_splits)
  show ?thesis
  proof (cases "cx_mode s = CipherGCM")
    case True
    then have ae: "aeadAndSalt s k = (Some sek, cx_salt s)" "aeadAndSalt r k = (Some sek, cx_salt s)"
      using s(1) r(1-4) k by (auto simp: slot_ready_def sek_def aeadAndSalt_def split: if_splits)
    note G = aes.Open_Seal [OF ok payload_lengths(2) [OF s(3)]]
    show ?thesis using True r(4,5)
      by (simp add: EncryptPayload_def DecryptPayload_def encryptGCM_def decryptGCM_def ae G GCMTagSize_def)
  next
    case False
    then show ?thesis
      using r(4) aes.stream_xor_twice(2) [OF ok _ payload_lengths(1) [OF s(3)], where inc = inc_counter]
      by (simp add: EncryptPayload_def DecryptPayload_def xorPayload_def ci CTR_XORKeyStream_def)
  qed
qed

section \<open>Key exchange\<close>

lemma length_digest:
  "length (case h of (a, b, c, d, e) \<Rightarrow> put_be32 a @ put_be32 b @ put_be32 c @ put_be32 d @ put_be32 e) = 20"
  by (cases h) (simp add: length_put_be)

lemma length_sha1 [simp]: "length (sha1_Sum m) = 20"
  unfolding sha1_Sum_def Let_def by (rule length_digest)

lemma length_hmac [simp]: "length (hmac_sha1 key m) = 20"
  by (simp add: hmac_sha1_def Let_def)

lemma length_pbkdf2_iter: "length t = 20 \<Longrightarrow> length (pbkdf2_iter p n u t) = 20"
  by (induction n arbitrary: u t) (simp_all add: Let_def)

lemma length_pbkdf2_block [simp]: "length (pbkdf2_block p salt iter i) = 20"
  by (simp add: pbkdf2_block_def Let_def length_pbkdf2_iter)

lemma length_pbkdf2 [simp]: "length (pbkdf2_Key p salt iter n) = n"
proof -
  have "length (concat (map (pbkdf2_block p salt iter) xs)) = 20 * length xs" for xs
    by (induction xs) simp_all
  then have "length (pbkdf2_Key p salt iter n) = min (20 * ((n + 19) div 20)) n"
    by (simp add: pbkdf2_Key_def del: upt_Suc)
  then show ?thesis by linarith
qed

lemma enc_slots [simp]:
  "EncryptionEven \<noteq> EncryptionNone" "EncryptionOdd \<noteq> EncryptionNone" "EncryptionBoth \<noteq> EncryptionNone"
  "EncryptionNone \<noteq> EncryptionEven" "EncryptionNone \<noteq> EncryptionOdd" "EncryptionNone \<noteq> EncryptionBoth"
  "EncryptionOdd \<noteq> EncryptionEven" "EncryptionEven \<noteq> EncryptionOdd" "EncryptionBoth \<noteq> EncryptionEven" "EncryptionBoth \<noteq> EncryptionOdd"
  "EncryptionEven \<noteq> EncryptionBoth" "EncryptionOdd \<noteq> EncryptionBoth" "CipherCTR \<noteq> CipherGCM" "CipherGCM \<noteq> CipherCTR"
  by (simp_all add: EncryptionNone_def EncryptionEven_def EncryptionOdd_def EncryptionBoth_def CipherCTR_def CipherGCM_def)

lemma length_go_copy [simp]: "off \<le> length dst \<Longrightarrow> length (go_copy dst off src) = length dst"
  by (simp add: go_copy_def)

lemma go_copy_all: "length src = length dst \<Longrightarrow> go_copy dst 0 src = src"
  by (simp add: go_copy_def)

lemma length_km_plaintext [simp]: "length (km_plaintext ctx key) = km_keys key * cx_keyLength ctx"
  by (simp add: km_plaintext_def km_keys_def Let_def)

lemma MarshalKM_eq:
  assumes s: "ctx_inv s" and key: "key \<in> {EncryptionEven, EncryptionOdd, EncryptionBoth}"
  shows "\<exists>w. MarshalKM s zero_KM pass key = (km_of s key w, None) \<and> km_ok (km_of s key w) \<and>
    KeyUnwrap (calculateKEK pass (cx_salt s) (cx_keyLength s)) w = Inr (km_plaintext s key)"
proof -
  have kl: "cx_keyLength s \<in> {16, 24, 32}" and salt: "length (cx_salt s) = 16" and mode: "cx_mode s = CipherCTR \<or> cx_mode s = CipherGCM"
    using s by (auto simp: ctx_inv_def)
  have "length (calculateKEK pass (cx_salt s) (cx_keyLength s)) \<in> {16, 24, 32}"
    using kl by (simp add: calculateKEK_def)
  moreover have "length (km_plaintext s key) mod 8 = 0" "km_plaintext s key \<noteq> []"
    using kl by (auto simp: km_keys_def simp flip: length_0_conv)
  ultimately obtain w where w: "KeyWrap (calculateKEK pass (cx_salt s) (cx_keyLength s)) (km_plaintext s key) = Inr w"
    "length w = km_keys key * cx_keyLength s + 8"
    "KeyUnwrap (calculateKEK pass (cx_salt s) (cx_keyLength s)) w = Inr (km_plaintext s key)"
    using unwrap_of_wrap [of "calculateKEK pass (cx_salt s) (cx_keyLength s)" "km_plaintext s key"] by auto
  have "MarshalKM s zero_KM pass key = (km_of s key w, None)"
    using key mode w(1) salt by (auto simp: MarshalKM_def Let_def km_of_def zero_KM_def go_copy_all)
  moreover have "km_ok (km_of s key w)"
    using key mode w(2) salt kl
    by (auto simp: km_ok_def km_of_def km_keys_def CipherCTR_def CipherGCM_def AuthGCM_def AuthNone_def)
  ultimately show ?thesis using w(3) by blast
qed

lemma aes_NewCipher_ok: "length k \<in> {16, 24, 32} \<Longrightarrow> aes_NewCipher k = Some k"
  by (simp add: aes_NewCipher_def)

text \<open>What a successful exchange leaves in the receiving context.\<close>

lemma UnmarshalKM_eq:
  assumes s: "ctx_inv s" and kl: "cx_keyLength r = cx_keyLength s" and key: "key = EncryptionBoth \<or> k = key"
    and k: "k \<in> {EncryptionEven, EncryptionOdd}" "slot_ready s k"
    and w: "KeyUnwrap (calculateKEK pass (cx_salt s) (cx_keyLength s)) w = Inr (km_plaintext s key)"
  shows "\<exists>r'. UnmarshalKM r (km_of s key w) pass = (r', None) \<and> slot_ready r' k \<and> slot_sek r' k = slot_sek s k \<and>
    cx_salt r' = cx_salt s \<and> cx_mode r' = cx_mode s \<and> useGcm153 r' = useGcm153 r"
proof -
  define n where "n = cx_keyLength s"
  have n: "n \<in> {16, 24, 32}" and salt: "length (cx_salt s) = 16" and mode: "cx_mode s = CipherCTR \<or> cx_mode s = CipherGCM"
    using s by (auto simp: ctx_inv_def n_def)
  define r1 where "r1 = r\<lparr>cx_salt := cx_salt s, cx_mode := cx_mode s\<rparr>"
  have sek: "length (slot_sek s k) = n" using k by (simp add: slot_ready_def n_def)
  have sekc: "aes_NewCipher (slot_sek s k) = Some (slot_sek s k)" using sek n by (simp add: aes_NewCipher_def)
  have mr1: "cx_mode r1 = cx_mode s" "cx_keyLength r1 = n" "cx_salt r1 = cx_salt s" "useGcm153 r1 = useGcm153 r"
    using kl by (simp_all add: r1_def n_def)
  have U: "UnmarshalKM r (km_of s key w) pass = install_keys r1 key (km_plaintext s key)"
  proof -
    have "adopt_km r (km_of s key w) = r1" using mode salt by (auto simp: adopt_km_def km_of_def r1_def)
    moreover have "key \<noteq> EncryptionNone" using key k(1) by auto
    ultimately show ?thesis using w mr1 by (simp add: UnmarshalKM_def km_of_def n_def)
  qed
  have l: "length (km_plaintext s key) = km_keys key * n" by (simp add: n_def)
  consider "key = EncryptionEven" "k = EncryptionEven" | "key = EncryptionOdd" "k = EncryptionOdd" | "key = EncryptionBoth"
    using key k(1) by auto
  then show ?thesis
  proof cases
    case 1
    then have "km_plaintext s key = slot_sek s k"
      using sek by (simp add: km_plaintext_def Let_def slot_sek_def go_copy_all n_def)
    then show ?thesis using 1 sek sekc mr1 l unfolding U
      by (simp add: install_keys_def km_keys_def install_even_def Let_def slot_ready_def slot_sek_def cipherAndSalt_def aeadAndSalt_def)
  next
    case 2
    then have "km_plaintext s key = slot_sek s k"
      using sek by (simp add: km_plaintext_def Let_def slot_sek_def go_copy_all n_def)
    then show ?thesis using 2 sek sekc mr1 l unfolding U
      by (simp add: install_keys_def km_keys_def install_odd_def Let_def slot_ready_def slot_sek_def cipherAndSalt_def aeadAndSalt_def)
  next
    case 3
    have p: "length (take n (km_plaintext s key)) = n" "length (drop n (km_plaintext s key)) = n"
      using 3 by (simp_all add: km_keys_def n_def)
    then have c: "aes_NewCipher (take n (km_plaintext s key)) = Some (take n (km_plaintext s key))"
      "aes_NewCipher (drop n (km_plaintext s key)) = Some (drop n (km_plaintext s key))"
      using n by (simp_all only: aes_NewCipher_ok)
    have "(if k = EncryptionEven then take n (km_plaintext s key) else drop n (km_plaintext s key)) = slot_sek s k"
      using 3 k(1) sek by (auto simp: km_plaintext_def Let_def slot_sek_def go_copy_all n_def)
    then show ?thesis using 3 k(1) p c mr1 l unfolding U
      by (auto simp: install_keys_def km_keys_def install_both_def Let_def slot_ready_def slot_sek_def cipherAndSalt_def aeadAndSalt_def)
  qed
qed

section \<open>Contexts\<close>

lemmas slot_defs = slot_ready_def slot_cleared_def slot_sek_def cipherAndSalt_def aeadAndSalt_def

lemma ctx_inv_slots:
  "ctx_inv ctx \<longleftrightarrow> cx_keyLength ctx \<in> {16, 24, 32} \<and> length (cx_salt ctx) = 16 \<and> cx_mode ctx \<in> {CipherCTR, CipherGCM} \<and>
     slot_inv (cx_keyLength ctx) (cx_mode ctx) (evenSEK ctx) (evenCipher ctx) (evenAEAD ctx) \<and>
     slot_inv (cx_keyLength ctx) (cx_mode ctx) (oddSEK ctx) (oddCipher ctx) (oddAEAD ctx)"
  by (simp add: ctx_inv_def slot_defs slot_inv_def)

lemma slot_inv_rules [simp]:
  "slot_inv n mode [] None None" "length sek = n \<Longrightarrow> slot_inv n mode sek (Some sek) (if mode = CipherGCM then Some sek else a)"
  "slot_inv n mode sek c a \<Longrightarrow> slot_inv n CipherCTR sek c a"
  "slot_inv n mode sek c a \<Longrightarrow> slot_inv n CipherGCM sek c (case c of None \<Rightarrow> a | Some k \<Rightarrow> Some k)"
  by (auto simp: slot_inv_def)

lemma generateSEK_inv:
  assumes "ctx_inv ctx"
  shows "ctx_inv (fst (generateSEK ctx k rnd))"
    and "rnd \<noteq> None \<Longrightarrow> k \<in> {EncryptionEven, EncryptionOdd} \<Longrightarrow> snd (generateSEK ctx k rnd) = None \<and> slot_ready (fst (generateSEK ctx k rnd)) k"
proof -
  let ?sek = "\<lambda>r. go_copy (replicate (cx_keyLength ctx) 0) 0 r"
  have ok: "aes_NewCipher (?sek r) = Some (?sek r)" "length (?sek r) = cx_keyLength ctx" for r
    using assms by (simp_all add: aes_NewCipher_def ctx_inv_def)
  show "ctx_inv (fst (generateSEK ctx k rnd))"
    using assms ok by (cases rnd) (auto simp: generateSEK_def Let_def ctx_inv_slots)
  show "snd (generateSEK ctx k rnd) = None \<and> slot_ready (fst (generateSEK ctx k rnd)) k"
    if "rnd \<noteq> None" "k \<in> {EncryptionEven, EncryptionOdd}"
    using that ok by (auto simp: generateSEK_def Let_def slot_defs)
qed

lemma SetMode_inv: "ctx_inv ctx \<Longrightarrow> m \<in> {CipherCTR, CipherGCM} \<Longrightarrow> ctx_inv (SetMode ctx m)"
  using slot_inv_rules(3,4) by (auto simp: SetMode_def ctx_inv_slots Let_def)

lemma ClearSEK_inv: "ctx_inv ctx \<Longrightarrow> ctx_inv (ClearSEK ctx k)" "ctx_inv ctx \<Longrightarrow> ctx_inv (SetGCM153 ctx b)"
  by (simp_all add: ClearSEK_def SetGCM153_def ctx_inv_slots)

lemma ctx_step_inv: "ctx_inv ctx \<Longrightarrow> ctx_op_ok op \<Longrightarrow> ctx_inv (ctx_step op ctx)"
  by (cases op) (simp_all add: SetMode_inv GenerateSEK_def generateSEK_inv ClearSEK_inv)

lemma generateSEK_frame:
  assumes "generateSEK ctx k rnd = (ctx', None)"
  shows "rnd \<noteq> None" "k \<in> {EncryptionEven, EncryptionOdd}" "cx_keyLength ctx' = cx_keyLength ctx" "cx_mode ctx' = cx_mode ctx"
    "cx_salt ctx' = cx_salt ctx" "useGcm153 ctx' = useGcm153 ctx" "j \<noteq> k \<Longrightarrow> slot_ready ctx j \<Longrightarrow> slot_ready ctx' j"
  using assms by (auto simp: generateSEK_def Let_def slot_defs split: option.splits if_splits)

lemma NewWithMode_inv:
  assumes "NewWithMode kl mode rs re ro = Inr ctx" "mode \<in> {CipherCTR, CipherGCM}"
  shows "ctx_inv ctx \<and> cx_keyLength ctx = nat kl \<and> \<not> useGcm153 ctx \<and> cx_mode ctx = mode \<and>
    slot_ready ctx EncryptionEven \<and> slot_ready ctx EncryptionOdd"
proof -
  obtain r where r: "rs = Some r" "kl \<in> {16, 24, 32}"
    using assms(1) by (auto simp: NewWithMode_def split: if_splits option.splits)
  define c0 where "c0 = \<lparr>cx_mode = mode, cx_keyLength = nat kl, cx_salt = go_copy (replicate 16 0) 0 r, evenSEK = [], oddSEK = [],
     evenCipher = None, oddCipher = None, evenAEAD = None, oddAEAD = None, useGcm153 = False\<rparr>"
  obtain c1 where c1: "generateSEK c0 EncryptionEven re = (c1, None)" "generateSEK c1 EncryptionOdd ro = (ctx, None)"
    using assms(1) r by (auto simp: NewWithMode_def c0_def split: prod.splits option.splits)
  have "ctx_inv c0" using r assms(2) by (auto simp: ctx_inv_slots c0_def)
  then have "ctx_inv c1" "slot_ready c1 EncryptionEven"
    using generateSEK_inv [where ctx = c0 and k = EncryptionEven and rnd = re] generateSEK_frame(1,2) [OF c1(1)] c1(1) by auto
  moreover from this have "ctx_inv ctx" "slot_ready ctx EncryptionOdd"
    using generateSEK_inv [where ctx = c1 and k = EncryptionOdd and rnd = ro] generateSEK_frame(1,2) [OF c1(2)] c1(2) by auto
  ultimately show ?thesis
    using generateSEK_frame(3-7) [OF c1(1)] generateSEK_frame(3-7) [OF c1(2)] by (simp add: c0_def)
qed

lemma key_stream_differs:
  assumes "length k \<in> {16, 24, 32}" "length a = 16" "length b = 16" "a \<noteq> b" "16 \<le> length data"
  shows "CTR_XORKeyStream (aes_Encrypt k) b (CTR_XORKeyStream (aes_Encrypt k) a data) \<noteq> data"
proof
  let ?X = "\<lambda>c. stream_xor (aes_Encrypt k) inc_counter c"
  note T = aes.stream_xor_twice [OF assms(1) length_inc_counter(1) [THEN trans]]
  assume "CTR_XORKeyStream (aes_Encrypt k) b (CTR_XORKeyStream (aes_Encrypt k) a data) = data"
  then have "?X b (?X b (?X a data)) = ?X b data" by (simp add: CTR_XORKeyStream_def)
  then have eq: "?X a data = ?X b data" using T(2) [OF _ assms(3)] by simp
  define m where "m = (length data + 15) div 16 - 1"
  have m: "(length data + 15) div 16 = Suc m" using assms(5) by (simp add: m_def)
  have "take 16 (?X c data) = xor_bytes (take 16 data) (aes_Encrypt k c)" if "length c = 16" for c
    using aes.length_encrypt [OF assms(1) that] by (simp add: stream_xor_def m xor_bytes_def take_map take_zip)
  then have "xor_bytes (take 16 data) (aes_Encrypt k a) = xor_bytes (take 16 data) (aes_Encrypt k b)"
    using eq assms(2,3) by metis
  then have "aes_Encrypt k a = aes_Encrypt k b"
    using xor_bytes_inj [of "aes_Encrypt k a" "aes_Encrypt k b" "take 16 data"] assms(5)
      aes.length_encrypt [OF assms(1)] assms(2,3) by (simp add: xor_bytes_commute)
  then show False using aes.encrypt_inj [OF assms(1-3)] assms(4) by blast
qed

lemma ctr_iv_inj:
  assumes "length salt = 16" "length salt' = 16" "take 14 salt \<noteq> take 14 salt'"
  shows "ctr_iv salt s \<noteq> ctr_iv salt' s"
  using xor_bytes_inj [of "take 14 salt" "take 14 salt'" "replicate 10 0 @ put_be32 s"] assms
  by (auto simp: ctr_iv_def xor_bytes_commute length_put_be)

lemma ctx_example_ok: "ctx_inv ctx_example" "slot_ready ctx_example EncryptionEven" "slot_ready ctx_example EncryptionOdd"
  by (simp_all add: ctx_example_def ctx_inv_slots slot_inv_def slot_defs)

section \<open>Properties\<close>

text \<open>
  C29. Key exchange end to end. The key material that one side marshals for a slot (or both) goes over the wire
  unchanged, the other side unwraps it with the same passphrase, and from then on every payload encrypted with that slot,
  in CTR or GCM mode, with any sequence number and header, decrypts to itself.
\<close>

theorem key_exchange:
  assumes "ctx_inv s" "ctx_inv r" "cx_keyLength r = cx_keyLength s" "useGcm153 r = useGcm153 s"
    and "key \<in> {EncryptionEven, EncryptionOdd, EncryptionBoth}" "slot_ready s k" "key = EncryptionBoth \<or> k = key"
  shows "\<exists>km b r'. MarshalKM s zero_KM pass key = (km, None) \<and> KM_MarshalCIF km = Inr b \<and>
    KM_UnmarshalCIF zero_KM b = (km, None) \<and> UnmarshalKM r km pass = (r', None) \<and>
    (\<forall>data header seqNo. \<exists>c. EncryptPayload s data header k seqNo = (c, None) \<and>
       DecryptPayload r' c header k seqNo = (data, None))"
proof -
  have k: "k \<in> {EncryptionEven, EncryptionOdd}" using assms(6) by (simp add: slot_ready_def)
  obtain w where w: "MarshalKM s zero_KM pass key = (km_of s key w, None)" "km_ok (km_of s key w)"
    "KeyUnwrap (calculateKEK pass (cx_salt s) (cx_keyLength s)) w = Inr (km_plaintext s key)"
    using MarshalKM_eq [OF assms(1,5), of pass] by blast
  obtain b where b: "KM_MarshalCIF (km_of s key w) = Inr b" "KM_UnmarshalCIF zero_KM b = (km_of s key w, None)"
    using km_round_trip [OF w(2)] by blast
  obtain r' where r': "UnmarshalKM r (km_of s key w) pass = (r', None)" "slot_ready r' k" "slot_sek r' k = slot_sek s k"
    "cx_salt r' = cx_salt s" "cx_mode r' = cx_mode s" "useGcm153 r' = useGcm153 r"
    using UnmarshalKM_eq [OF assms(1,3,7) k assms(6) w(3)] by blast
  have "cx_keyLength s \<in> {16, 24, 32}" "length (cx_salt s) = 16" using assms(1) by (auto simp: ctx_inv_def)
  then have "\<exists>c. EncryptPayload s data header k seqNo = (c, None) \<and> DecryptPayload r' c header k seqNo = (data, None)"
    for data header seqNo using Decrypt_Encrypt [OF assms(6) _ _ r'(2-5)] r'(6) assms(4) by simp
  then show ?thesis using w(1) b r'(1) by blast
qed

theorem key_exchange_witness:
  "\<exists>km r'. MarshalKM ctx_example zero_KM [112, 119] EncryptionBoth = (km, None) \<and>
     UnmarshalKM (ctx_example\<lparr>cx_salt := replicate 16 0\<rparr>) km [112, 119] = (r', None)"
proof -
  have "ctx_inv (ctx_example\<lparr>cx_salt := replicate 16 0\<rparr>)" by (simp add: ctx_example_def ctx_inv_slots slot_inv_def)
  from key_exchange [OF ctx_example_ok(1) this, where key = EncryptionBoth and k = EncryptionOdd and pass = "[112, 119]"]
  show ?thesis using ctx_example_ok(3) by (simp add: ctx_example_def) blast
qed

text \<open>
  C30. Every context created by the package and changed by generating, clearing or switching keys is consistent: each key
  slot is either cleared or holds a key of the configured length whose cached cipher, and AEAD in GCM mode, belong to it.
\<close>

theorem Context_invariant:
  assumes "NewWithMode keyLength mode rndSalt rndEven rndOdd = Inr ctx" "mode \<in> {CipherCTR, CipherGCM}"
    and "list_all ctx_op_ok ops"
  shows "ctx_inv (fold ctx_step ops ctx)"
proof -
  have "list_all ctx_op_ok ops \<Longrightarrow> ctx_inv c \<Longrightarrow> ctx_inv (fold ctx_step ops c)" for c
    by (induction ops arbitrary: c) (simp_all add: ctx_step_inv)
  then show ?thesis using NewWithMode_inv [OF assms(1,2)] assms(3) by blast
qed

theorem Context_invariant_witness:
  "\<exists>ctx. NewWithMode 16 CipherGCM (Some []) (Some [1]) (Some [2]) = Inr ctx \<and>
     ctx_inv (fold ctx_step [OpClear EncryptionEven, OpGenerate EncryptionOdd (Some [3]), OpSetMode CipherCTR] ctx)"
proof -
  obtain ctx where c: "NewWithMode 16 CipherGCM (Some []) (Some [1]) (Some [2]) = Inr ctx"
    by (simp add: NewWithMode_def generateSEK_def Let_def aes_NewCipher_def)
  have "ctx_inv (fold ctx_step [OpClear EncryptionEven, OpGenerate EncryptionOdd (Some [3]), OpSetMode CipherCTR] ctx)"
    by (rule Context_invariant [OF c]) simp_all
  with c show ?thesis by blast
qed

text \<open>
  C31. A key-material message that is rejected is not without effect: the salt it carries has replaced the one in use,
  so payloads of at least one block that decrypted correctly before come out wrong afterwards, with the keys unchanged.
\<close>

theorem rejected_KM_breaks_decryption:
  assumes "ctx_inv r" "slot_ready r k" "cx_mode r = CipherCTR"
    and "km_KeyBasedEncryption km \<noteq> EncryptionNone" "km_Cipher km = CipherCTR" "length (km_Salt km) = 16"
    and "take 14 (km_Salt km) \<noteq> take 14 (cx_salt r)"
    and "KeyUnwrap (calculateKEK pass (km_Salt km) (cx_keyLength r)) (km_Wrap km) = Inl err" "16 \<le> length data"
  shows "snd (UnmarshalKM r km pass) = Some ErrInvalidPassphrase \<and>
    fst (DecryptPayload r (fst (EncryptPayload r data header k seqNo)) header k seqNo) = data \<and>
    fst (DecryptPayload (fst (UnmarshalKM r km pass)) (fst (EncryptPayload r data header k seqNo)) header k seqNo) \<noteq> data"
proof -
  have inv: "cx_keyLength r \<in> {16, 24, 32}" "length (cx_salt r) = 16" using assms(1) by (auto simp: ctx_inv_def)
  obtain c where c: "EncryptPayload r data header k seqNo = (c, None)" "DecryptPayload r c header k seqNo = (data, None)"
    using Decrypt_Encrypt [OF assms(2) inv assms(2) refl refl refl refl] by blast
  define sek where "sek = slot_sek r k"
  have sek: "length sek \<in> {16, 24, 32}" and k: "k \<in> {EncryptionEven, EncryptionOdd}"
    using assms(2) inv(1) by (auto simp: slot_ready_def sek_def)
  have U: "UnmarshalKM r km pass = (r\<lparr>cx_salt := km_Salt km\<rparr>, Some ErrInvalidPassphrase)"
    using assms(3-6,8) by (simp add: UnmarshalKM_def adopt_km_def)
  have ci: "cipherAndSalt r k = (Some sek, cx_salt r)" "cipherAndSalt (r\<lparr>cx_salt := km_Salt km\<rparr>) k = (Some sek, km_Salt km)"
    using assms(2) k by (auto simp: slot_ready_def sek_def cipherAndSalt_def)
  have "c = CTR_XORKeyStream (aes_Encrypt sek) (ctr_iv (cx_salt r) seqNo) data"
    using c(1) assms(3) ci by (simp add: EncryptPayload_def xorPayload_def)
  then have "fst (DecryptPayload (r\<lparr>cx_salt := km_Salt km\<rparr>) c header k seqNo) \<noteq> data"
    using key_stream_differs [OF sek payload_lengths(1) [OF inv(2)] payload_lengths(1) [OF assms(6)]
        ctr_iv_inj [OF inv(2) assms(6) assms(7) [symmetric]] assms(9)] assms(3) ci
    by (simp add: DecryptPayload_def xorPayload_def)
  then show ?thesis using U c by simp
qed

theorem rejected_KM_breaks_decryption_witness:
  "fst (DecryptPayload (fst (UnmarshalKM ctx_example (zero_KM\<lparr>km_KeyBasedEncryption := EncryptionEven, km_Cipher := CipherCTR,
       km_Salt := replicate 16 0\<rparr>) []))
     (fst (EncryptPayload ctx_example (replicate 16 9) [] EncryptionEven 5)) [] EncryptionEven 5) \<noteq> replicate 16 9"
  using rejected_KM_breaks_decryption [OF ctx_example_ok(1,2), where pass = "[]" and data = "replicate 16 9" and header = "[]"
      and seqNo = 5 and err = errUnwrapCiphertext and km = "zero_KM\<lparr>km_KeyBasedEncryption := EncryptionEven, km_Cipher := CipherCTR,
       km_Salt := replicate 16 0\<rparr>"]
  by (simp add: ctx_example_def zero_KM_def KeyUnwrap_def)

end
