(* ===== verification/Conn_State.thy ===== *)
theory Conn_State
  imports Controller Send_Buffer Recv_Window Tsbpd Fec_Recovery Crypto_Exchange
begin

text \<open>
  The state of the connection core (\<^verbatim>\<open>internal/core\<close>): its queues, timers, outputs and events, the parameters of
  a handshake in progress and the record of a connection. Three pointers of the struct are set together when
  the connection is established (\<^verbatim>\<open>sendBuf\<close>, \<^verbatim>\<open>recvBuf\<close>, \<^verbatim>\<open>sendCC\<close>); \<open>c_up\<close> says that they are not nil.
  Buffers returned to a pool have no effect on the state and are not modelled.
\<close>

section \<open>Queues\<close>

record 'a fifo =
  ff_items :: "'a list"
  ff_head :: nat

definition fifo_empty :: "'a fifo" where
  "fifo_empty = \<lparr> ff_items = [], ff_head = 0 \<rparr>"

definition fifo_push :: "'a fifo \<Rightarrow> 'a \<Rightarrow> 'a fifo" where
  "fifo_push q v = q\<lparr>ff_items := ff_items q @ [v]\<rparr>"

definition fifo_reset :: "'a fifo \<Rightarrow> 'a fifo" where
  "fifo_reset q = q\<lparr>ff_items := [], ff_head := 0\<rparr>"

definition fifo_len :: "'a fifo \<Rightarrow> nat" where
  "fifo_len q = length (ff_items q) - ff_head q"

definition fifo_pop :: "'a fifo \<Rightarrow> 'a fifo \<times> 'a option" where
  "fifo_pop q =
     (if length (ff_items q) \<le> ff_head q then (fifo_reset q, None)
      else let v = ff_items q ! ff_head q; q = q\<lparr>ff_head := ff_head q + 1\<rparr> in
        (if length (ff_items q) \<le> ff_head q then fifo_reset q else q, Some v))"

section \<open>Timers, outputs, events\<close>

datatype TimerID =
    TimerHandshake | TimerACK | TimerNAK | TimerEXP | TimerTSBPD | TimerSndPacing | TimerLinger
  | TimerKeepalive | TimerPeerIdle | TimerKMRefresh

definition TimerID_String :: "TimerID \<Rightarrow> string" where
  "TimerID_String i =
     (case i of
        TimerHandshake \<Rightarrow> ''Handshake'' | TimerACK \<Rightarrow> ''ACK'' | TimerNAK \<Rightarrow> ''NAK'' | TimerEXP \<Rightarrow> ''EXP''
      | TimerTSBPD \<Rightarrow> ''TSBPD'' | TimerSndPacing \<Rightarrow> ''SndPacing'' | TimerLinger \<Rightarrow> ''Linger''
      | TimerKeepalive \<Rightarrow> ''Keepalive'' | TimerPeerIdle \<Rightarrow> ''PeerIdle'' | TimerKMRefresh \<Rightarrow> ''KMRefresh'')"

datatype Output = SendPacket Packet bool | SetTimer TimerID Timestamp | ClearTimer TimerID

datatype conn_err =
    ErrPeerIdle | RejectError u32 | NotHSv5 u32 u16 | ISNOutOfRange u32 | ISNNotEchoed u32 u32
  | FlowWindowTooSmall u32 | NoKeyMaterial | HandshakeRefused

record DataReceived_ev =
  ev_Data :: bytes
  ev_Seq :: u32
  ev_MsgNo :: u32
  ev_Boundary :: int

datatype Event = Connected u32 | DataReceived DataReceived_ev | Failed conn_err | Closed | KeyRefreshNeeded int

section \<open>Constants\<close>

definition ackTimeSlots :: nat where "ackTimeSlots = 64"
definition synInterval :: Microseconds where "synInterval = 10 * Millisecond"
definition liteACKPeriod :: int where "liteACKPeriod = 64"
definition initialRTT :: Microseconds where "initialRTT = 100 * Millisecond"
definition defaultMinNAKInterval :: Microseconds where "defaultMinNAKInterval = 300 * Millisecond"
definition rttSanityCap :: Microseconds where "rttSanityCap = 10 * Second"
definition maxPacingBurst :: Microseconds where "maxPacingBurst = 10 * Millisecond"
definition liveDefaultPayloadSize :: int where "liveDefaultPayloadSize = 1316"
definition defaultTsbpdDelay :: Microseconds where "defaultTsbpdDelay = 120 * Millisecond"
definition keepaliveInterval :: Microseconds where "keepaliveInterval = 1 * Second"
definition handshakeRetryInterval :: Microseconds where "handshakeRetryInterval = 250 * Millisecond"

definition rejCongestion :: u32 where "rejCongestion = 1013"
definition rejPeer :: u32 where "rejPeer = 1002"
definition rejRogue :: u32 where "rejRogue = 1004"
definition rejBadSecret :: u32 where "rejBadSecret = 1010"
definition rejUnsecure :: u32 where "rejUnsecure = 1011"
definition rejRdvCookie :: u32 where "rejRdvCookie = 1005"

definition kmStateUnsecured :: int where "kmStateUnsecured = 0"
definition kmStateSecuring :: int where "kmStateSecuring = 1"
definition kmStateSecured :: int where "kmStateSecured = 2"
definition kmStateNoSecret :: int where "kmStateNoSecret = 3"
definition kmStateBadSecret :: int where "kmStateBadSecret = 4"
definition srtMaxKMRetry :: int where "srtMaxKMRetry = 10"

section \<open>Messages and parameters\<close>

record MsgOptions =
  mo_SrcTime :: u32
  mo_InOrder :: bool
  mo_TTL :: Microseconds
  mo_MsgNo :: u32
  mo_ForceMsgNo :: bool

record frame =
  f_payload :: bytes
  f_msgNo :: u32
  f_pos :: PacketPosition
  f_order :: bool
  f_srcTime :: u32
  f_ttlNs :: int
  f_pooled :: bool

record ackSlot =
  as_ackNo :: u32
  as_sendTime :: Timestamp
  as_dataSeq :: u32
  as_valid :: bool

definition zero_ackSlot :: ackSlot where
  "zero_ackSlot = \<lparr> as_ackNo = 0, as_sendTime = 0, as_dataSeq = 0, as_valid = False \<rparr>"

record establishParams =
  ep_MSS :: u32
  ep_PeerSocketID :: u32
  ep_PayloadSize :: int
  ep_SendISN :: Number
  ep_RecvISN :: Number
  ep_PeerVersion :: u32
  ep_FlowWindow :: int
  ep_BufferCapacity :: int
  ep_SendBufCapacity :: int
  ep_RecvBufCapacity :: int
  ep_MaxBW :: int
  ep_InputBW :: int
  ep_MinInputBW :: int
  ep_OverheadBW :: int
  ep_Live :: bool
  ep_TsbpdDelay :: Microseconds
  ep_PeerTsbpdDelay :: Microseconds
  ep_Congestion :: string
  ep_Message :: bool
  ep_TLPktDrop :: bool
  ep_SndDropDelay :: int
  ep_LossMaxTTL :: int
  ep_DisableNAKReport :: bool
  ep_PeerNakReport :: bool
  ep_PeerIdleTimeout :: Microseconds
  ep_CryptoCtx :: "Context option"
  ep_ActiveKey :: PacketEncryption
  ep_Passphrase :: bytes
  ep_KMRefreshRate :: u64
  ep_KMPreAnnounce :: u64
  ep_FilterConfig :: string
  ep_HSv4AwaitKey :: bool

definition zero_establishParams :: establishParams where
  "zero_establishParams = \<lparr> ep_MSS = 0, ep_PeerSocketID = 0, ep_PayloadSize = 0, ep_SendISN = 0, ep_RecvISN = 0,
     ep_PeerVersion = 0, ep_FlowWindow = 0, ep_BufferCapacity = 0, ep_SendBufCapacity = 0, ep_RecvBufCapacity = 0,
     ep_MaxBW = 0, ep_InputBW = 0, ep_MinInputBW = 0, ep_OverheadBW = 0, ep_Live = False, ep_TsbpdDelay = 0,
     ep_PeerTsbpdDelay = 0, ep_Congestion = '''', ep_Message = False, ep_TLPktDrop = False, ep_SndDropDelay = 0,
     ep_LossMaxTTL = 0, ep_DisableNAKReport = False, ep_PeerNakReport = False, ep_PeerIdleTimeout = 0,
     ep_CryptoCtx = None, ep_ActiveKey = 0, ep_Passphrase = [], ep_KMRefreshRate = 0, ep_KMPreAnnounce = 0,
     ep_FilterConfig = '''', ep_HSv4AwaitKey = False \<rparr>"

section \<open>Handshakes in progress\<close>

datatype connState = stateInduction | stateConclusion | stateConnected | stateFailed

record dialState =
  d_socketID :: u32
  d_isn :: Number
  d_mss :: u32
  d_fc :: u32
  d_recvLatMS :: u16
  d_sendLatMS :: u16
  d_cong :: string
  d_streamID :: string
  d_filterCfg :: string
  d_cookie :: u32
  d_cryptoCtx :: "Context option"
  d_passphrase :: bytes
  d_kmRefreshRate :: u64
  d_kmPreAnnounce :: u64
  d_allowUnencFallback :: bool
  d_payloadSize :: int
  d_bufferCapacity :: int
  d_sendBufCapacity :: int
  d_recvBufCapacity :: int
  d_maxBW :: int
  d_inputBW :: int
  d_minInputBW :: int
  d_overheadBW :: int
  d_live :: bool
  d_message :: bool
  d_tlPktDrop :: bool
  d_sndDropDelay :: int
  d_lossMaxTTL :: int
  d_disableNAKReport :: bool
  d_peerIdleTimeout :: Microseconds
  d_forceHSv4 :: bool
  d_hsv4 :: bool
  d_groupID :: u32
  d_groupType :: u8
  d_groupWeight :: u16

datatype rdvState = rdvWaving | rdvAttention | rdvFine | rdvInitiated | rdvConnected

datatype rdvSide = rdvDraw | rdvInitiator | rdvResponder

record rdvTransition =
  rt_newState :: rdvState
  rt_rspType :: HandshakeType
  rt_needsExt :: bool
  rt_needsHSRSP :: bool

definition zero_rdvTransition :: rdvTransition where
  "zero_rdvTransition = \<lparr> rt_newState = rdvWaving, rt_rspType = 0, rt_needsExt = False, rt_needsHSRSP = False \<rparr>"

record rdvDial =
  r_socketID :: u32
  r_isn :: Number
  r_mss :: u32
  r_fc :: u32
  r_cookie :: u32
  r_recvLatMS :: u16
  r_sendLatMS :: u16
  r_cong :: string
  r_streamID :: string
  r_filterCfg :: string
  r_maxBW :: int
  r_inputBW :: int
  r_minInputBW :: int
  r_overheadBW :: int
  r_live :: bool
  r_message :: bool
  r_payloadSize :: int
  r_bufferCapacity :: int
  r_peerIdleTimeout :: Microseconds
  r_cryptoCtx :: "Context option"
  r_passphrase :: bytes
  r_keyLength :: int
  r_kmKey :: PacketEncryption
  r_kmAdopted :: bool
  r_rstate :: rdvState
  r_side :: rdvSide
  r_peerSocketID :: u32
  r_peerISN :: u32
  r_peerFC :: u32
  r_negRecv :: u16
  r_negSend :: u16
  r_negotiated :: bool
  r_lastTrans :: rdvTransition
  r_haveTrans :: bool

section \<open>The connection\<close>

text \<open>
  The fields of \<^verbatim>\<open>Conn\<close>, in the groups its comments name; every group extends the one before it. The
  membership map of deferred losses is the list of its keys. \<open>c_draws\<close> counts the keys drawn from the
  entropy source so far.
\<close>

record ConnLink =
  c_peerSocketID :: u32
  c_payloadSize :: int
  c_negotiatedMSS :: u32
  c_sndTSBase :: u32
  c_lastNow :: Timestamp
  c_sndISN :: Number
  c_rcvISN :: Number
  c_peerVersion :: u32
  c_tlPktDrop :: bool
  c_dropBaseUS :: Microseconds
  c_hsv4DeferConnect :: bool
  c_peerIdleTimeout :: Microseconds
  c_lastRecvTime :: Timestamp
  c_lastSentDataTime :: Timestamp
  c_negotiatedPeerLatency :: Microseconds
  c_negotiatedLatency :: Microseconds
  c_up :: bool

record ConnSend = ConnLink +
  c_sendBuf :: SendBuffer
  c_sendCC :: Controller
  c_configuredMaxBW :: int
  c_inputBW :: int
  c_minInputBW :: int
  c_sampledInputBW :: int
  c_inputSampleBytes :: int
  c_inputSampleStart :: Timestamp
  c_sendQueue :: "frame fifo"
  c_msgNumber :: u32
  c_nextSendTime :: Timestamp
  c_flowWindow :: int
  c_rcvFlowWin :: int
  c_sendDropThresh :: Microseconds
  c_msgTTLActive :: bool

record ConnRecv = ConnSend +
  c_recvBuf :: RecvBuffer
  c_tsbpdTimer :: "Timer option"
  c_tsbpdBaseSet :: bool
  c_messageMode :: bool
  c_periodicNAK :: bool
  c_groupIdle :: bool
  c_peerNakReport :: bool
  c_reorderTolerance :: int
  c_deferredLoss :: "u32 list option"
  c_fecSender :: "FECSender option"
  c_fecReceiver :: "FECReceiver option"
  c_fecARQLevel :: ARQLevel

record ConnKm = ConnRecv +
  c_cryptoCtx :: "Context option"
  c_activeKey :: PacketEncryption
  c_passphrase :: bytes
  c_kmRefreshRate :: u64
  c_kmPreAnnounce :: u64
  c_kmPacketCount :: u64
  c_kmAnnounced :: bool
  c_kmConfirmed :: bool
  c_kmDecommission :: bool
  c_kmSwitchCount :: u64
  c_kmRetryKey :: PacketEncryption
  c_kmRetryCount :: int
  c_sndKmState :: int
  c_rcvKmState :: int
  c_draws :: nat

record ConnAck = ConnKm +
  c_ackSeqNo :: u32
  c_rcvLastAckAck :: Number
  c_lastFullACKTime :: Timestamp
  c_rcvPktCount :: int
  c_lightACKCount :: int
  c_ackSlots :: "ackSlot list"
  c_lastACKACKTime :: Timestamp
  c_lastACKACKSeq :: u32
  c_rtt :: Microseconds
  c_rttVar :: Microseconds
  c_lastACKTime :: Timestamp
  c_rexmitCount :: int

record ConnStat = ConnAck +
  c_sentDropped :: u64
  c_sentDroppedBytes :: u64
  c_recvDropped :: u64
  c_recvUndecrypt :: u64
  c_sentKM :: u64
  c_recvKM :: u64
  c_sentPackets :: u64
  c_sentBytes :: u64
  c_retransPackets :: u64
  c_retransBytes :: u64
  c_recvWirePackets :: u64
  c_recvWireBytes :: u64
  c_recvPackets :: u64
  c_recvBytes :: u64
  c_recvRetrans :: u64
  c_recvRetransBytes :: u64
  c_recvLoss :: u64
  c_recvBelated :: u64
  c_recvBelatedBytes :: u64
  c_recvAvgBelatedUS :: f64
  c_recvReorderDist :: int
  c_lostPackets :: u64
  c_sentACKs :: u64
  c_sentNAKs :: u64
  c_sentACKACKs :: u64
  c_recvACKs :: u64
  c_recvNAKs :: u64
  c_recvACKACKs :: u64
  c_sentFEC :: u64
  c_recvFECRecov :: u64

record Conn = ConnStat +
  c_state :: connState
  c_dial :: "dialState option"
  c_rdv :: "rdvDial option"
  c_closed :: bool
  c_outputs :: "Output fifo"
  c_events :: "Event fifo"

definition push_output :: "Conn \<Rightarrow> Output \<Rightarrow> Conn" where
  "push_output c out = c\<lparr>c_outputs := fifo_push (c_outputs c) out\<rparr>"

definition push_event :: "Conn \<Rightarrow> Event \<Rightarrow> Conn" where
  "push_event c e = c\<lparr>c_events := fifo_push (c_events c) e\<rparr>"

definition PollOutput :: "Conn \<Rightarrow> Conn \<times> Output option" where
  "PollOutput c = (case fifo_pop (c_outputs c) of (q, v) \<Rightarrow> (c\<lparr>c_outputs := q\<rparr>, v))"

definition PollEvent :: "Conn \<Rightarrow> Conn \<times> Event option" where
  "PollEvent c = (case fifo_pop (c_events c) of (q, v) \<Rightarrow> (c\<lparr>c_events := q\<rparr>, v))"

text \<open>Entropy the core uses: the n-th key drawn for a rotation, and \<^verbatim>\<open>rand.Intn\<close> of the congestion controller.\<close>

record entropy =
  en_key :: "nat \<Rightarrow> bytes option"
  en_intn :: "int \<Rightarrow> int"

section \<open>The queue contract\<close>

text \<open>A queue holds the items from the head on; the head never passes the end of the array.\<close>

definition queued :: "'a fifo \<Rightarrow> 'a list" where
  "queued q = drop (ff_head q) (ff_items q)"

definition fifo_ok :: "'a fifo \<Rightarrow> bool" where
  "fifo_ok q \<longleftrightarrow> ff_head q \<le> length (ff_items q)"

locale queue =
  fixes ok :: "'q \<Rightarrow> bool"
    and contents :: "'q \<Rightarrow> 'a list"
    and push :: "'q \<Rightarrow> 'a \<Rightarrow> 'q"
    and pop :: "'q \<Rightarrow> 'q \<times> 'a option"
  assumes ok_push: "ok q \<Longrightarrow> ok (push q v)"
    and contents_push: "ok q \<Longrightarrow> contents (push q v) = contents q @ [v]"
    and ok_pop: "ok q \<Longrightarrow> ok (fst (pop q))"
    and pop_empty: "ok q \<Longrightarrow> contents q = [] \<Longrightarrow> snd (pop q) = None \<and> contents (fst (pop q)) = []"
    and pop_Cons: "ok q \<Longrightarrow> contents q = v # vs \<Longrightarrow> snd (pop q) = Some v \<and> contents (fst (pop q)) = vs"
begin

lemma contents_pushes: "ok q \<Longrightarrow> contents (fold (\<lambda>v q. push q v) vs q) = contents q @ vs"
  by (induction vs arbitrary: q) (simp_all add: contents_push ok_push)

end

lemma fifo_ok_empty [simp]: "fifo_ok fifo_empty" "queued fifo_empty = []"
  by (simp_all add: fifo_ok_def fifo_empty_def queued_def)

lemma fifo_len_queued: "fifo_len q = length (queued q)"
  by (simp add: fifo_len_def queued_def)

interpretation ff: queue fifo_ok queued fifo_push fifo_pop
proof
  fix q :: "'a fifo" and v vs
  show "fifo_ok q \<Longrightarrow> fifo_ok (fifo_push q v)" by (simp add: fifo_ok_def fifo_push_def)
  show "fifo_ok q \<Longrightarrow> queued (fifo_push q v) = queued q @ [v]" by (simp add: fifo_ok_def queued_def fifo_push_def)
  show "fifo_ok q \<Longrightarrow> fifo_ok (fst (fifo_pop q))"
    by (simp add: fifo_ok_def fifo_pop_def fifo_reset_def Let_def)
  show "fifo_ok q \<Longrightarrow> queued q = [] \<Longrightarrow> snd (fifo_pop q) = None \<and> queued (fst (fifo_pop q)) = []"
    by (simp add: fifo_ok_def fifo_pop_def fifo_reset_def queued_def)
  show "fifo_ok q \<Longrightarrow> queued q = v # vs \<Longrightarrow> snd (fifo_pop q) = Some v \<and> queued (fst (fifo_pop q)) = vs"
  proof -
    assume "fifo_ok q" "queued q = v # vs"
    then have "ff_head q < length (ff_items q)" "ff_items q ! ff_head q = v" "drop (Suc (ff_head q)) (ff_items q) = vs"
      unfolding queued_def by (metis drop_all linorder_not_le list.distinct(1), metis hd_drop_conv_nth drop_all linorder_not_le list.distinct(1) list.sel(1),
        metis drop_Suc list.sel(3) tl_drop)
    then show ?thesis by (auto simp: fifo_pop_def fifo_reset_def queued_def Let_def)
  qed
qed

end
