(* ===== verification/Key_Rotation.thy ===== *)
theory Key_Rotation
  imports Conn_State
begin

text \<open>
  Mid-stream key rotation (\<^verbatim>\<open>keyrotation.go\<close>): the state machine that is stepped once per encrypted packet,
  the KMREQ and KMRSP messages and their retransmission. A handler that returns early in the source
  returns the state it has reached.
\<close>

definition wireTS :: "Conn \<Rightarrow> Timestamp \<Rightarrow> u32" where
  "wireTS c now = SRTTimestamp now - c_sndTSBase c"

definition oppositeKey :: "PacketEncryption \<Rightarrow> PacketEncryption" where
  "oppositeKey k = (if k = EncryptionEven then EncryptionOdd else EncryptionEven)"

definition kmRetryInterval :: "Conn \<Rightarrow> Microseconds" where
  "kmRetryInterval c =
     (let rtt = (if c_rtt c < 100 * Millisecond then 100 * Millisecond else c_rtt c) in go_div (rtt * 3) 2)"

text \<open>A control packet of the user type with the given subtype and body.\<close>

definition ext_packet :: "Conn \<Rightarrow> Timestamp \<Rightarrow> SubType \<Rightarrow> bytes \<Rightarrow> Packet" where
  "ext_packet c now sub body =
     (let p = NewControl None CtrlTypeUser (c_peerSocketID c) (wireTS c now) in
      SetData (p\<lparr>Header := (Header p)\<lparr>SubType := sub\<rparr>\<rparr>) body)"

definition sendKMREQ :: "Conn \<Rightarrow> Timestamp \<Rightarrow> PacketEncryption \<Rightarrow> Conn" where
  "sendKMREQ c now key =
     (case c_cryptoCtx c of
        None \<Rightarrow> c
      | Some ctx \<Rightarrow>
          if c_passphrase c = [] then c
          else case MarshalKM ctx zero_KM (c_passphrase c) key of
                 (_, Some _) \<Rightarrow> c
               | (km, None) \<Rightarrow>
                   (case KM_MarshalCIF km of
                      Inl _ \<Rightarrow> c
                    | Inr body \<Rightarrow>
                        let c = push_output c (SendPacket (ext_packet c now ExtTypeKMReq body) True) in
                        c\<lparr>c_sentKM := c_sentKM c + 1\<rparr>))"

text \<open>The three stages of a step: announce (which may stop the step), switch, decommission.\<close>

definition km_announce :: "entropy \<Rightarrow> Conn \<Rightarrow> Timestamp \<Rightarrow> Conn \<times> bool" where
  "km_announce en c now =
     (if \<not> c_kmAnnounced c \<and> c_kmRefreshRate c - c_kmPreAnnounce c \<le> c_kmPacketCount c then
        case c_cryptoCtx c of
          None \<Rightarrow> (c, False)
        | Some ctx \<Rightarrow>
            let nextKey = oppositeKey (c_activeKey c) in
            (case GenerateSEK ctx nextKey (en_key en (c_draws c)) of
               (ctx, Some _) \<Rightarrow> (c\<lparr>c_cryptoCtx := Some ctx, c_draws := c_draws c + 1\<rparr>, False)
             | (ctx, None) \<Rightarrow>
                 let c = c\<lparr>c_cryptoCtx := Some ctx, c_draws := c_draws c + 1, c_kmAnnounced := True,
                           c_kmConfirmed := False, c_kmRetryKey := nextKey, c_kmRetryCount := srtMaxKMRetry,
                           c_sndKmState := kmStateSecuring\<rparr>;
                     c = sendKMREQ c now nextKey in
                 (push_output c (SetTimer TimerKMRefresh (Timestamp_Add now (kmRetryInterval c))), True))
      else (c, True))"

definition km_switch :: "Conn \<Rightarrow> Conn" where
  "km_switch c =
     (if c_kmRefreshRate c \<le> c_kmPacketCount c
      then c\<lparr>c_activeKey := oppositeKey (c_activeKey c), c_kmPacketCount := 0, c_kmAnnounced := False,
             c_kmDecommission := True, c_kmSwitchCount := 0\<rparr>
      else c)"

definition km_decommission :: "Conn \<Rightarrow> Conn" where
  "km_decommission c =
     (if c_kmDecommission c then
        let c = c\<lparr>c_kmSwitchCount := c_kmSwitchCount c + 1\<rparr> in
        if c_kmPreAnnounce c \<le> c_kmSwitchCount c
        then c\<lparr>c_cryptoCtx := map_option (\<lambda>ctx. ClearSEK ctx (oppositeKey (c_activeKey c))) (c_cryptoCtx c),
               c_kmDecommission := False\<rparr>
        else c
      else c)"

definition checkKeyRotation :: "entropy \<Rightarrow> Conn \<Rightarrow> Timestamp \<Rightarrow> Conn" where
  "checkKeyRotation en c now =
     (case km_announce en (c\<lparr>c_kmPacketCount := c_kmPacketCount c + 1\<rparr>) now of
        (c, go_on) \<Rightarrow> if go_on then km_decommission (km_switch c) else c)"

definition retryKMREQ :: "Conn \<Rightarrow> Timestamp \<Rightarrow> Conn" where
  "retryKMREQ c now =
     (if \<not> c_kmAnnounced c \<or> c_kmConfirmed c \<or> c_kmRetryCount c \<le> 0 then c
      else
        let c = sendKMREQ (c\<lparr>c_kmRetryCount := c_kmRetryCount c - 1\<rparr>) now (c_kmRetryKey c) in
        if 0 < c_kmRetryCount c
        then push_output c (SetTimer TimerKMRefresh (Timestamp_Add now (kmRetryInterval c))) else c)"

definition sendKMError :: "Conn \<Rightarrow> Timestamp \<Rightarrow> int \<Rightarrow> Conn" where
  "sendKMError c now state =
     (let c = push_output c (SendPacket (ext_packet c now ExtTypeKMRsp (put_be32 (word_of_int state))) True) in
      c\<lparr>c_sentKM := c_sentKM c + 1\<rparr>)"

definition echo_km :: "Conn \<Rightarrow> Context \<Rightarrow> Timestamp \<Rightarrow> PacketEncryption \<Rightarrow> Conn" where
  "echo_km c ctx now key =
     (case MarshalKM ctx zero_KM (c_passphrase c) key of
        (_, Some _) \<Rightarrow> c
      | (resp, None) \<Rightarrow>
          (case KM_MarshalCIF resp of
             Inl _ \<Rightarrow> c
           | Inr body \<Rightarrow>
               let c = push_output c (SendPacket (ext_packet c now ExtTypeKMRsp body) True) in
               c\<lparr>c_sentKM := c_sentKM c + 1\<rparr>))"

definition handleKMRequest :: "Conn \<Rightarrow> Timestamp \<Rightarrow> Packet \<Rightarrow> Conn" where
  "handleKMRequest c now p =
     (let c = c\<lparr>c_recvKM := c_recvKM c + 1\<rparr> in
      case c_cryptoCtx c of
        None \<Rightarrow> c\<lparr>c_rcvKmState := kmStateNoSecret\<rparr>
      | Some ctx \<Rightarrow>
          if c_passphrase c = [] then c\<lparr>c_rcvKmState := kmStateNoSecret\<rparr>
          else case KM_UnmarshalCIF zero_KM (Data p) of
                 (_, Some _) \<Rightarrow> c\<lparr>c_rcvKmState := kmStateBadSecret\<rparr>
               | (km, None) \<Rightarrow>
                   (case UnmarshalKM ctx km (c_passphrase c) of
                      (ctx, Some _) \<Rightarrow>
                        sendKMError (c\<lparr>c_cryptoCtx := Some ctx, c_rcvKmState := kmStateBadSecret,
                                       c_sndKmState := kmStateBadSecret\<rparr>) now kmStateBadSecret
                    | (ctx, None) \<Rightarrow>
                        echo_km (c\<lparr>c_cryptoCtx := Some ctx, c_rcvKmState := kmStateSecured\<rparr>) ctx now
                          (km_KeyBasedEncryption km)))"

definition fail :: "Conn \<Rightarrow> conn_err \<Rightarrow> Conn" where
  "fail c err =
     push_event (push_output (c\<lparr>c_state := stateFailed, c_closed := True\<rparr>) (ClearTimer TimerHandshake)) (Failed err)"

definition handleKMResponse :: "Conn \<Rightarrow> Packet \<Rightarrow> Conn" where
  "handleKMResponse c p =
     (let c = c\<lparr>c_recvKM := c_recvKM c + 1\<rparr> in
      if length (Data p) = 4 then
        let state = sint (get_be32 (Data p));
            c = (if kmStateNoSecret \<le> state \<and> state \<le> kmStateBadSecret
                 then c\<lparr>c_sndKmState := state, c_rcvKmState := state\<rparr> else c) in
        if c_hsv4DeferConnect c
        then fail (push_output c (ClearTimer TimerKMRefresh)) (RejectError rejBadSecret) else c
      else
        let c = push_output (c\<lparr>c_kmConfirmed := True, c_sndKmState := kmStateSecured,
                               c_rcvKmState := kmStateSecured\<rparr>) (ClearTimer TimerKMRefresh) in
        if c_hsv4DeferConnect c
        then push_event (c\<lparr>c_hsv4DeferConnect := False\<rparr>) (Connected (c_peerSocketID c)) else c)"

end
