(* ===== verification/Conn_Send.thy ===== *)
theory Conn_Send
  imports Key_Rotation
begin

text \<open>
  The sending half of the connection (\<^verbatim>\<open>conn.go\<close>, \<^verbatim>\<open>bandwidth.go\<close>): framing of application payloads, pacing
  and flow control, encryption, buffering for retransmission, FEC, sender-side drop, and the bandwidth
  settings. A method is a function from the connection to the connection; the loop of \<^verbatim>\<open>pump\<close> takes one
  frame from the queue per turn, so its fuel is the number of queued frames.
\<close>

section \<open>Bandwidth settings\<close>

definition applyBandwidth :: "Conn \<Rightarrow> Conn" where
  "applyBandwidth c =
     (if \<not> c_up c then c
      else case c_sendCC c of
             File _ \<Rightarrow> c\<lparr>c_sendCC := SetMaxBandwidth (c_sendCC c) (c_configuredMaxBW c)\<rparr>
           | Live _ \<Rightarrow>
               let input = (if c_inputBW c = 0 then max (c_sampledInputBW c) (c_minInputBW c) else c_inputBW c) in
               if c_configuredMaxBW c = 0 \<and> input = 0
               then c\<lparr>c_sendCC := SetMaxBandwidth (c_sendCC c) DefaultMaxBW\<rparr>
               else c\<lparr>c_sendCC := UpdateBandwidth (c_sendCC c) (c_configuredMaxBW c) input\<rparr>)"

definition SetMaxBW :: "Conn \<Rightarrow> int \<Rightarrow> Conn" where
  "SetMaxBW c bw = applyBandwidth (c\<lparr>c_configuredMaxBW := max 0 bw\<rparr>)"

definition SetInputBW :: "Conn \<Rightarrow> int \<Rightarrow> Conn" where
  "SetInputBW c bw = applyBandwidth (c\<lparr>c_inputBW := max 0 bw\<rparr>)"

definition SetMinInputBW :: "Conn \<Rightarrow> int \<Rightarrow> Conn" where
  "SetMinInputBW c bw = applyBandwidth (c\<lparr>c_minInputBW := max 0 bw\<rparr>)"

definition conn_SetOverhead :: "Conn \<Rightarrow> int \<Rightarrow> Conn" where
  "conn_SetOverhead c pct =
     (if c_up c then applyBandwidth (c\<lparr>c_sendCC := SetOverhead (c_sendCC c) pct\<rparr>) else c)"

definition sampleInputBandwidth :: "Conn \<Rightarrow> Timestamp \<Rightarrow> Conn" where
  "sampleInputBandwidth c now =
     (let elapsed = Timestamp_Sub now (c_inputSampleStart c) in
      if elapsed < Second then c
      else
        let c = (if 0 < c_inputSampleBytes c
                 then c\<lparr>c_sampledInputBW := f_to_int (fdiv (fmul (f_of_int (c_inputSampleBytes c)) (f_of_int Second))
                                                          (f_of_int elapsed))\<rparr>
                 else c);
            c = c\<lparr>c_inputSampleBytes := 0, c_inputSampleStart := now\<rparr> in
        if c_configuredMaxBW c = 0 \<and> c_inputBW c = 0 then applyBandwidth c else c)"

section \<open>Helpers\<close>

definition nextMsgNo :: "u32 \<Rightarrow> u32" where
  "nextMsgNo n = (let n = (n + 1) AND 0x03FFFFFF in if n = 0 then 1 else n)"

definition conn_window :: "Conn \<Rightarrow> int" where
  "conn_window c =
     (let w = c_flowWindow c;
          w = (if 0 < c_rcvFlowWin c \<and> c_rcvFlowWin c < w then c_rcvFlowWin c else w);
          cw = CongestionWindow (c_sendCC c) in
      if cw < w then cw else w)"

text \<open>The 16 bytes of the header that AES-GCM authenticates.\<close>

definition header_aad :: "Header \<Rightarrow> bytes" where
  "header_aad h = (case Header_Marshal h (replicate 16 0) of Inl _ \<Rightarrow> replicate 16 0 | Inr hb \<Rightarrow> hb)"

definition encrypt :: "Context \<Rightarrow> PacketEncryption \<Rightarrow> Packet \<Rightarrow> u32 \<Rightarrow> Packet" where
  "encrypt ctx activeKey p seqNo =
     (let p = p\<lparr>Header := (Header p)\<lparr>Encryption := activeKey\<rparr>\<rparr>;
          aad = (if cx_mode ctx = CipherGCM then header_aad (Header p) else []) in
      case EncryptPayload ctx (Data p) aad activeKey seqNo of
        (enc, None) \<Rightarrow> p\<lparr>Data := enc\<rparr>
      | (_, Some _) \<Rightarrow> p)"

section \<open>Sender-side drop\<close>

definition emitDropReq :: "Conn \<Rightarrow> Timestamp \<Rightarrow> u32 \<Rightarrow> u32 \<Rightarrow> Conn" where
  "emitDropReq c now firstSeq lastSeq =
     (case CIFDropReq_MarshalCIF \<lparr> FirstSeqNo = firstSeq, LastSeqNo = lastSeq \<rparr> of
        Inl _ \<Rightarrow> c
      | Inr body \<Rightarrow>
          let p = NewControl None CtrlTypeDropReq (c_peerSocketID c) (wireTS c now);
              p = p\<lparr>Header := (Header p)\<lparr>TypeSpecific := 0\<rparr>\<rparr> in
          push_output c (SendPacket (SetData p body) True))"

definition checkSendDrop :: "Conn \<Rightarrow> Timestamp \<Rightarrow> Conn" where
  "checkSendDrop c now =
     (if c_sendDropThresh c \<le> 0 \<and> \<not> c_msgTTLActive c \<or> \<not> c_up c then c
      else case DropTooLateSend (c_sendBuf c) now (c_sendDropThresh c) of
             (sb, dropped, first, last') \<Rightarrow>
               let c = c\<lparr>c_sendBuf := sb\<rparr> in
               if dropped = 0 then c
               else emitDropReq
                      (c\<lparr>c_sentDropped := c_sentDropped c + word_of_int dropped,
                         c_sentDroppedBytes := c_sentDroppedBytes c + word_of_int dropped * word_of_int (c_payloadSize c)\<rparr>)
                      now (Value first) (Value last'))"

section \<open>Sending one packet\<close>

definition fec_packet :: "Conn \<Rightarrow> pendingFECPacket \<Rightarrow> Packet" where
  "fec_packet c pf =
     (let fp = NewData None (pf_seqNo pf) (pf_timestamp pf) (c_peerSocketID c) (pf_data pf) in
      fp\<lparr>Header := (Header fp)\<lparr>MessageNumber := 0, PacketPosition := PositionSingle, Encryption := EncryptionNone\<rparr>\<rparr>)"

fun drain_fec :: "nat \<Rightarrow> Conn \<Rightarrow> Conn" where
  "drain_fec 0 c = c"
| "drain_fec (Suc n) c =
     (case c_fecSender c of
        None \<Rightarrow> c
      | Some s \<Rightarrow>
          (case PackControlPacket s of
             (s, None) \<Rightarrow> c\<lparr>c_fecSender := Some s\<rparr>
           | (s, Some pf) \<Rightarrow>
               let c = push_output (c\<lparr>c_fecSender := Some s\<rparr>) (SendPacket (fec_packet c pf) True) in
               drain_fec n (c\<lparr>c_sentFEC := c_sentFEC c + 1\<rparr>)))"

definition drainFECSender :: "Conn \<Rightarrow> Conn" where
  "drainFECSender c =
     drain_fec (case c_fecSender c of None \<Rightarrow> 0 | Some s \<Rightarrow> Suc (length (fs_pendingFEC s))) c"

definition data_packet_of :: "Conn \<Rightarrow> Number \<Rightarrow> u32 \<Rightarrow> frame \<Rightarrow> Packet" where
  "data_packet_of c seqNo ts f =
     (let p = (if f_pooled f \<and> f_pos f = PositionSingle
               then NewDataOwned None (Value seqNo) ts (c_peerSocketID c) (f_payload f)
               else NewData None (Value seqNo) ts (c_peerSocketID c) (f_payload f));
          p = p\<lparr>Header := (Header p)\<lparr>MessageNumber := f_msgNo f, PacketPosition := f_pos f, Order := f_order f\<rparr>\<rparr> in
      case c_cryptoCtx c of None \<Rightarrow> p | Some ctx \<Rightarrow> encrypt ctx (c_activeKey c) p (Value seqNo))"

definition feed_fec :: "Conn \<Rightarrow> Number \<Rightarrow> Packet \<Rightarrow> Conn" where
  "feed_fec c seqNo p =
     (case c_fecSender c of
        None \<Rightarrow> c
      | Some s \<Rightarrow>
          drainFECSender (c\<lparr>c_fecSender := Some (FeedSource s (Value seqNo) (Timestamp (Header p))
                                                  (Encryption (Header p)) (Data p))\<rparr>))"

definition sendData :: "entropy \<Rightarrow> Conn \<Rightarrow> Timestamp \<Rightarrow> Number \<Rightarrow> u32 \<Rightarrow> frame \<Rightarrow> Conn" where
  "sendData en c now seqNo ts f =
     (let p = data_packet_of c seqNo ts f in
      case Push (c_sendBuf c) p [now] of
        (_, False) \<Rightarrow> c
      | (sb, True) \<Rightarrow>
          let sb = (if 0 < f_ttlNs f then SetMsgTTL sb (f_ttlNs f) else sb);
              c = push_output (c\<lparr>c_sendBuf := sb\<rparr>) (SendPacket p False);
              c = c\<lparr>c_sentPackets := c_sentPackets c + 1, c_sentBytes := c_sentBytes c + of_nat (length (Data p)),
                    c_lastSentDataTime := now,
                    c_sendCC := OnPacketSent (c_sendCC c) (Value seqNo) (int (length (f_payload f)))\<rparr>;
              c = feed_fec c seqNo p in
          if c_cryptoCtx c \<noteq> None \<and> 0 < c_kmRefreshRate c then checkKeyRotation en c now else c)"

definition sendOne :: "entropy \<Rightarrow> Conn \<Rightarrow> Timestamp \<Rightarrow> frame \<Rightarrow> Conn \<times> Microseconds" where
  "sendOne en c now f =
     (let ts = (if f_srcTime f = 0 then wireTS c now else f_srcTime f);
          c = sendData en c now (sb_NextSeq (c_sendBuf c)) ts f in
      (c, if IsProbePacket (c_sendCC c) then 0 else PacketInterval (c_sendCC c)))"

section \<open>Pumping the queue\<close>

definition advance_pacing :: "Timestamp \<Rightarrow> Timestamp \<Rightarrow> Microseconds \<Rightarrow> Timestamp" where
  "advance_pacing nextSendTime now interval =
     (if IsZero nextSendTime then Timestamp_Add now interval
      else if maxPacingBurst < Timestamp_Sub now nextSendTime then Timestamp_Add now interval
      else Timestamp_Add nextSendTime interval)"

fun pump_loop :: "nat \<Rightarrow> entropy \<Rightarrow> Conn \<Rightarrow> Timestamp \<Rightarrow> Conn" where
  "pump_loop 0 en c now = c"
| "pump_loop (Suc n) en c now =
     (if fifo_len (c_sendQueue c) = 0 then c
      else if conn_window c \<le> sb_Size (c_sendBuf c) then c
      else if \<not> IsZero (c_nextSendTime c) \<and> Before now (c_nextSendTime c)
      then push_output c (SetTimer TimerSndPacing (c_nextSendTime c))
      else case fifo_pop (c_sendQueue c) of
             (_, None) \<Rightarrow> c
           | (q, Some f) \<Rightarrow>
               (case sendOne en (c\<lparr>c_sendQueue := q\<rparr>) now f of
                  (c, interval) \<Rightarrow>
                    pump_loop n en (c\<lparr>c_nextSendTime := advance_pacing (c_nextSendTime c) now interval\<rparr>) now))"

definition pump :: "entropy \<Rightarrow> Conn \<Rightarrow> Timestamp \<Rightarrow> Conn" where
  "pump en c now = (let c = checkSendDrop c now in pump_loop (fifo_len (c_sendQueue c)) en c now)"

section \<open>Writing\<close>

text \<open>The fragments of a payload with their positions.\<close>

function fragment :: "nat \<Rightarrow> bool \<Rightarrow> bytes \<Rightarrow> (bytes \<times> PacketPosition) list" where
  "fragment ps first payload =
     (if payload = [] \<or> ps = 0 then []
      else (take ps payload,
            PositionMiddle OR (if first then PositionFirst else 0)
              OR (if length payload \<le> ps then PositionLast else 0))
           # fragment ps False (drop ps payload))"
  by pat_completeness auto
termination
  by (relation "measure (\<lambda>(ps, first, payload). length payload)") auto

declare fragment.simps [simp del]

definition next_number :: "Conn \<Rightarrow> MsgOptions \<Rightarrow> u32" where
  "next_number c opts = (if mo_ForceMsgNo opts then mo_MsgNo opts AND 0x03FFFFFF else nextMsgNo (c_msgNumber c))"

definition frames_of :: "Conn \<Rightarrow> Timestamp \<Rightarrow> bytes \<Rightarrow> MsgOptions \<Rightarrow> bool \<Rightarrow> frame list" where
  "frames_of c now payload opts owned =
     (let msgNo = next_number c opts;
          ttlNs = (if 0 < mo_TTL opts then mo_TTL opts * 1000 else 0);
          ps = c_payloadSize c in
      if ps \<le> 0 \<or> int (length payload) \<le> ps \<or> c_tsbpdTimer c \<noteq> None
      then [\<lparr> f_payload = payload, f_msgNo = msgNo, f_pos = PositionSingle, f_order = mo_InOrder opts,
              f_srcTime = mo_SrcTime opts, f_ttlNs = ttlNs, f_pooled = owned \<rparr>]
      else let srcTime = (if mo_SrcTime opts = 0 then wireTS c now else mo_SrcTime opts) in
        map (\<lambda>(part, pos). \<lparr> f_payload = part, f_msgNo = msgNo, f_pos = pos, f_order = mo_InOrder opts,
                            f_srcTime = srcTime, f_ttlNs = ttlNs, f_pooled = False \<rparr>)
            (fragment (nat ps) True payload))"

definition writeMsg :: "entropy \<Rightarrow> Conn \<Rightarrow> Timestamp \<Rightarrow> bytes \<Rightarrow> MsgOptions \<Rightarrow> bool \<Rightarrow> Conn" where
  "writeMsg en c now payload opts owned =
     (if c_closed c \<or> c_state c \<noteq> stateConnected then c
      else
        let frames = frames_of c now payload opts owned;
            c = c\<lparr>c_inputSampleBytes := c_inputSampleBytes c + int (length payload),
                  c_msgNumber := next_number c opts,
                  c_msgTTLActive := c_msgTTLActive c \<or> 0 < mo_TTL opts\<rparr>;
            c = c\<lparr>c_sendQueue := fold (\<lambda>f q. fifo_push q f) frames (c_sendQueue c)\<rparr> in
        pump en c now)"

definition WriteMsg :: "entropy \<Rightarrow> Conn \<Rightarrow> Timestamp \<Rightarrow> bytes \<Rightarrow> MsgOptions \<Rightarrow> Conn" where
  "WriteMsg en c now payload opts = writeMsg en c now payload opts False"

definition WriteMsgOwned :: "entropy \<Rightarrow> Conn \<Rightarrow> Timestamp \<Rightarrow> bytes \<Rightarrow> MsgOptions \<Rightarrow> Conn" where
  "WriteMsgOwned en c now payload opts = writeMsg en c now payload opts True"

definition Write :: "entropy \<Rightarrow> Conn \<Rightarrow> Timestamp \<Rightarrow> bytes \<Rightarrow> Conn" where
  "Write en c now payload =
     WriteMsg en c now payload \<lparr> mo_SrcTime = 0, mo_InOrder = True, mo_TTL = 0, mo_MsgNo = 0, mo_ForceMsgNo = False \<rparr>"

definition WriteCoordinated :: "entropy \<Rightarrow> Conn \<Rightarrow> Timestamp \<Rightarrow> bytes \<Rightarrow> Number \<Rightarrow> u32 \<Rightarrow> Conn" where
  "WriteCoordinated en c now payload seqNo srcTime =
     (if c_closed c \<or> c_state c \<noteq> stateConnected then c
      else
        let c = (if sb_NextSeq (c_sendBuf c) \<noteq> seqNo
                 then c\<lparr>c_sendBuf := fst (OverrideNextSeq (c_sendBuf c) seqNo)\<rparr> else c);
            c = c\<lparr>c_msgNumber := nextMsgNo (c_msgNumber c)\<rparr> in
        sendData en c now seqNo srcTime
          \<lparr> f_payload = payload, f_msgNo = c_msgNumber c, f_pos = PositionSingle, f_order = True,
            f_srcTime = 0, f_ttlNs = 0, f_pooled = False \<rparr>)"

section \<open>Closing, settings and queries\<close>

definition SendKeepAlive :: "Conn \<Rightarrow> Timestamp \<Rightarrow> Conn" where
  "SendKeepAlive c now =
     (if c_closed c then c
      else push_output c (SendPacket (NewControl None CtrlTypeKeepalive (c_peerSocketID c) (wireTS c now)) True))"

definition Shutdown :: "Conn \<Rightarrow> Timestamp \<Rightarrow> Conn" where
  "Shutdown c now =
     (if c_closed c then c
      else
        let c = c\<lparr>c_closed := True\<rparr>;
            p = SetData (NewControl None CtrlTypeShutdown (c_peerSocketID c) (wireTS c now)) [0, 0, 0, 0] in
        push_output c (SendPacket p True))"

definition SetSndDropDelay :: "Conn \<Rightarrow> int \<Rightarrow> Conn" where
  "SetSndDropDelay c ms =
     (if \<not> c_tlPktDrop c then c
      else
        let thr = c_dropBaseUS c + ms * Millisecond;
            thr = (if thr < 1 * Second then 1 * Second else thr) in
        c\<lparr>c_sendDropThresh := thr + 20 * Millisecond\<rparr>)"

definition SetReorderTolerance :: "Conn \<Rightarrow> int \<Rightarrow> Conn" where
  "SetReorderTolerance c n =
     (let n = (if n < 0 then 0 else n);
          c = c\<lparr>c_reorderTolerance := n\<rparr> in
      if 0 < n \<and> c_deferredLoss c = None then c\<lparr>c_deferredLoss := Some []\<rparr> else c)"

definition SchedSeqNo :: "Conn \<Rightarrow> Number" where
  "SchedSeqNo c = (if \<not> c_up c then 0 else sb_NextSeq (c_sendBuf c))"

definition OverrideSndSeqNo :: "Conn \<Rightarrow> Number \<Rightarrow> Conn \<times> bool" where
  "OverrideSndSeqNo c nextSeq =
     (if \<not> c_up c then (c, False)
      else case OverrideNextSeq (c_sendBuf c) nextSeq of (sb, ok) \<Rightarrow> (c\<lparr>c_sendBuf := sb\<rparr>, ok))"

definition PendingSend :: "Conn \<Rightarrow> int" where
  "PendingSend c = (if \<not> c_up c then 0 else sb_Size (c_sendBuf c))"

definition LastMsgNo :: "Conn \<Rightarrow> u32" where "LastMsgNo c = c_msgNumber c"
definition SendISN :: "Conn \<Rightarrow> u32" where "SendISN c = Value (c_sndISN c)"
definition RecvISN :: "Conn \<Rightarrow> u32" where "RecvISN c = Value (c_rcvISN c)"
definition PeerVersion :: "Conn \<Rightarrow> u32" where "PeerVersion c = c_peerVersion c"

end
