(* ===== verification/Conn_Recv.thy ===== *)
theory Conn_Recv
  imports Conn_Send
begin

text \<open>
  The receiving half of the connection (\<^verbatim>\<open>conn.go\<close>): decryption, insertion, FEC recovery, delivery to the
  application, acknowledgements and loss reports. A delivery loop reads each slot of the ring at most
  once, so its fuel is the number of slots. Go ranges over the map of deferred losses in an unspecified
  order; the model takes the order in which they were deferred.
\<close>

section \<open>Decryption\<close>

definition decrypt :: "Conn \<Rightarrow> Packet \<Rightarrow> Conn \<times> Packet option" where
  "decrypt c p =
     (case c_cryptoCtx c of
        None \<Rightarrow> (c, Some p)
      | Some ctx \<Rightarrow>
          if c_rcvKmState c = kmStateSecuring then (c, None)
          else if Encryption (Header p) = EncryptionNone then (c\<lparr>c_recvUndecrypt := c_recvUndecrypt c + 1\<rparr>, None)
          else
            let aad = (if cx_mode ctx = CipherGCM then header_aad ((Header p)\<lparr>Retransmitted := False\<rparr>) else []) in
            (case DecryptPayload ctx (Data p) aad (Encryption (Header p)) (SequenceNumber (Header p)) of
               (_, Some _) \<Rightarrow> (c\<lparr>c_recvUndecrypt := c_recvUndecrypt c + 1\<rparr>, None)
             | (dec, None) \<Rightarrow> (c, Some (p\<lparr>Data := dec\<rparr>))))"

section \<open>Delivery\<close>

definition emitData :: "Conn \<Rightarrow> Packet \<Rightarrow> Conn" where
  "emitData c p =
     push_event c (DataReceived \<lparr> ev_Data = Data p, ev_Seq = SequenceNumber (Header p),
       ev_MsgNo = MessageNumber (Header p), ev_Boundary = uint (PacketPosition (Header p)) \<rparr>)"

definition emitMessage :: "Conn \<Rightarrow> Packet list \<Rightarrow> Conn" where
  "emitMessage c pkts =
     (let first = Header (pkts ! 0) in
      push_event c (DataReceived \<lparr> ev_Data = concat (map Data pkts), ev_Seq = SequenceNumber first,
        ev_MsgNo = MessageNumber first, ev_Boundary = uint (PacketPosition first) \<rparr>))"

fun deliver_loop :: "nat \<Rightarrow> Conn \<Rightarrow> Conn" where
  "deliver_loop 0 c = c"
| "deliver_loop (Suc n) c =
     (case ReadNext (c_recvBuf c) of
        (rb, _, False) \<Rightarrow> c\<lparr>c_recvBuf := rb\<rparr>
      | (rb, p, True) \<Rightarrow> deliver_loop n (emitData (c\<lparr>c_recvBuf := rb\<rparr>) p))"

definition deliver :: "Conn \<Rightarrow> Conn" where
  "deliver c = deliver_loop (Suc (length (rb_entries (c_recvBuf c)))) c"

fun message_loop :: "nat \<Rightarrow> Conn \<Rightarrow> Conn" where
  "message_loop 0 c = c"
| "message_loop (Suc n) c =
     (case ReadMessage (c_recvBuf c) of
        (rb, _, False) \<Rightarrow> c\<lparr>c_recvBuf := rb\<rparr>
      | (rb, pkts, True) \<Rightarrow> message_loop n (emitMessage (c\<lparr>c_recvBuf := rb\<rparr>) pkts))"

definition deliverMessages :: "Conn \<Rightarrow> Conn" where
  "deliverMessages c = message_loop (Suc (length (rb_entries (c_recvBuf c)))) c"

text \<open>The callbacks of the receive buffer tell the timer the timestamps of the packets that leave it.\<close>

definition note_wraps :: "Conn \<Rightarrow> u32 list \<Rightarrow> Conn" where
  "note_wraps c tss = c\<lparr>c_tsbpdTimer := map_option (fold (\<lambda>ts t. UpdateWrap t ts) tss) (c_tsbpdTimer c)\<rparr>"

definition dt_of :: "Conn \<Rightarrow> u32 \<Rightarrow> Timestamp" where
  "dt_of c = (case c_tsbpdTimer c of None \<Rightarrow> (\<lambda>_. 0) | Some t \<Rightarrow> DeliveryTime t)"

fun tsbpd_loop :: "nat \<Rightarrow> Conn \<Rightarrow> Timestamp \<Rightarrow> Conn" where
  "tsbpd_loop 0 c now = c"
| "tsbpd_loop (Suc n) c now =
     (case ReadTSBPD (c_recvBuf c) now (dt_of c) of
        (rb, _, False, _) \<Rightarrow> c\<lparr>c_recvBuf := rb\<rparr>
      | (rb, p, True, tss) \<Rightarrow> tsbpd_loop n (emitData (note_wraps (c\<lparr>c_recvBuf := rb\<rparr>) tss) p) now)"

definition deliverTSBPD :: "Conn \<Rightarrow> Timestamp \<Rightarrow> Conn" where
  "deliverTSBPD c now =
     (case DropTooLate (c_recvBuf c) now (dt_of c) of
        (rb, dropped) \<Rightarrow>
          let c = c\<lparr>c_recvBuf := rb\<rparr>;
              c = (if 0 < dropped then c\<lparr>c_recvDropped := c_recvDropped c + word_of_int dropped\<rparr> else c);
              c = tsbpd_loop (Suc (length (rb_entries (c_recvBuf c)))) c now in
          (case PeekNextAvailableTimestamp (c_recvBuf c) of
             (ts, True) \<Rightarrow> push_output c (SetTimer TimerTSBPD (dt_of c ts))
           | (_, False) \<Rightarrow> c))"

definition deliverNow :: "Conn \<Rightarrow> Timestamp \<Rightarrow> Conn" where
  "deliverNow c now =
     (if c_tsbpdTimer c \<noteq> None then deliverTSBPD c now
      else if c_messageMode c then deliverMessages c
      else deliver c)"

section \<open>Recovered packets\<close>

definition recovered_packet :: "Conn \<Rightarrow> RecoveredPacket \<Rightarrow> Packet" where
  "recovered_packet c rp =
     (let p = NewData None (rp_SeqNo rp) (rp_Timestamp rp) (c_peerSocketID c) (rp_Payload rp) in
      p\<lparr>Header := (Header p)\<lparr>MessageNumber := 1, PacketPosition := PositionSingle, Encryption := rp_EncFlag rp,
                             Retransmitted := True\<rparr>\<rparr>)"

definition insert_recovered :: "Timestamp \<Rightarrow> RecoveredPacket \<Rightarrow> Conn \<Rightarrow> Conn" where
  "insert_recovered now rp c =
     (let p = recovered_packet c rp; wireBytes = length (Data p) in
      case decrypt c p of
        (c, None) \<Rightarrow> c
      | (c, Some p) \<Rightarrow>
          (case Insert (c_recvBuf c) p now of
             (rb, res) \<Rightarrow>
               let c = c\<lparr>c_recvBuf := rb\<rparr> in
               if Inserted res
               then c\<lparr>c_recvPackets := c_recvPackets c + 1, c_recvBytes := c_recvBytes c + of_nat wireBytes,
                      c_recvFECRecov := c_recvFECRecov c + 1\<rparr>
               else c))"

definition insertRecovered :: "Conn \<Rightarrow> Timestamp \<Rightarrow> RecoveredPacket list \<Rightarrow> Conn" where
  "insertRecovered c now rec = fold (insert_recovered now) rec c"

section \<open>Loss reports\<close>

definition emitNAK :: "Conn \<Rightarrow> Timestamp \<Rightarrow> u32 list \<Rightarrow> Conn" where
  "emitNAK c now losses =
     (if losses = [] then c
      else case Packet_MarshalCIF CIFNAK_MarshalCIF
                  (NewControl None CtrlTypeNAK (c_peerSocketID c) (wireTS c now)) \<lparr> LossList = losses \<rparr> of
             Inl _ \<Rightarrow> c
           | Inr p \<Rightarrow>
               let c = push_output c (SendPacket p True) in c\<lparr>c_sentNAKs := c_sentNAKs c + 1\<rparr>)"

text \<open>The numbers from \<open>s\<close> to \<open>e\<close>, at most \<open>n\<close> of them.\<close>

fun seq_run :: "nat \<Rightarrow> Number \<Rightarrow> Number \<Rightarrow> u32 list" where
  "seq_run 0 s e = []"
| "seq_run (Suc n) s e = Value s # (if s = e then [] else seq_run n (Inc s) e)"

definition sendImmediateNAK :: "Conn \<Rightarrow> Timestamp \<Rightarrow> u32 \<Rightarrow> u32 \<Rightarrow> Conn" where
  "sendImmediateNAK c now gapStart gapEnd = emitNAK c now (seq_run 10000 gapStart gapEnd)"

definition sendPeriodicNAK :: "Conn \<Rightarrow> Timestamp \<Rightarrow> Conn" where
  "sendPeriodicNAK c now = emitNAK c now (GenerateLossList (c_recvBuf c))"

text \<open>A deferred range has at most \<^verbatim>\<open>reorderTolerance\<close> numbers.\<close>

definition deferGap :: "Conn \<Rightarrow> Number \<Rightarrow> Number \<Rightarrow> Conn" where
  "deferGap c start end' =
     c\<lparr>c_deferredLoss := map_option (\<lambda>d. fold (\<lambda>s d. if s \<in> set d then d else d @ [s])
          (seq_run (nat (c_reorderTolerance c)) start end') d) (c_deferredLoss c)\<rparr>"

definition reportGap :: "Conn \<Rightarrow> Timestamp \<Rightarrow> u32 \<Rightarrow> u32 \<Rightarrow> u32 \<Rightarrow> Conn" where
  "reportGap c now gapStart gapEnd frontier =
     (if c_reorderTolerance c = 0 \<or> c_deferredLoss c = None then sendImmediateNAK c now gapStart gapEnd
      else
        let gapSize = Distance gapStart gapEnd + 1 in
        if gapSize \<le> c_reorderTolerance c then deferGap c gapStart gapEnd
        else
          let deferStart = (Dec ^^ nat (c_reorderTolerance c - 1)) gapEnd in
          deferGap (sendImmediateNAK c now gapStart (Value (Dec deferStart))) deferStart gapEnd)"

definition flushDeferredLoss :: "Conn \<Rightarrow> Timestamp \<Rightarrow> u32 \<Rightarrow> Conn" where
  "flushDeferredLoss c now frontier =
     (case c_deferredLoss c of
        None \<Rightarrow> c
      | Some d \<Rightarrow>
          let old = (\<lambda>s. c_reorderTolerance c < Distance s frontier);
              c = fold (\<lambda>s c. sendImmediateNAK c now s s) (filter old d) c in
          c\<lparr>c_deferredLoss := Some (filter (\<lambda>s. \<not> old s) d)\<rparr>)"

definition handleNAK :: "entropy \<Rightarrow> Conn \<Rightarrow> Timestamp \<Rightarrow> Packet \<Rightarrow> Conn" where
  "handleNAK en c now p =
     (case Packet_UnmarshalCIF CIFNAK_UnmarshalCIF p \<lparr> LossList = [] \<rparr> of
        (_, Some _) \<Rightarrow> c
      | (nak, None) \<Rightarrow>
          let c = c\<lparr>c_recvNAKs := c_recvNAKs c + 1, c_lostPackets := c_lostPackets c + of_nat (length (LossList nak)),
                    c_sendCC := OnNAK (en_intn en) (c_sendCC c) (LossList nak)\<rparr>;
              (sb, rexmit) = (if 0 < c_rtt c then NAKTimed (c_sendBuf c) (LossList nak) now (c_rtt c) (c_rttVar c)
                              else (c_sendBuf c, NAK (c_sendBuf c) (LossList nak)));
              c = c\<lparr>c_sendBuf := sb\<rparr> in
          fold (\<lambda>rp c. push_output (c\<lparr>c_retransPackets := c_retransPackets c + 1,
                                      c_retransBytes := c_retransBytes c + of_nat (length (Data rp))\<rparr>)
                         (SendPacket rp True)) rexmit c)"

definition nakInterval :: "Conn \<Rightarrow> Microseconds" where
  "nakInterval c =
     (let base = UpdateNAKInterval (c_sendCC c) (c_rtt c + 4 * c_rttVar c) 0 0;
          minNak = MinNAKInterval (c_sendCC c);
          minNak = (if minNak = 0 then defaultMinNAKInterval else minNak) in
      if base < minNak then minNak else base)"

section \<open>Acknowledgements\<close>

definition sendLiteACK :: "Conn \<Rightarrow> Timestamp \<Rightarrow> Conn" where
  "sendLiteACK c now =
     (let ackSeq = ACKSequence (c_recvBuf c);
          p = SetData (NewControl None CtrlTypeACK (c_peerSocketID c) (wireTS c now)) (put_be32 (Value ackSeq));
          c = push_output c (SendPacket p True) in
      c\<lparr>c_sentACKs := c_sentACKs c + 1\<rparr>)"

definition full_ack :: "Conn \<Rightarrow> Number \<Rightarrow> bool \<Rightarrow> CIFACK" where
  "full_ack c ackSeq needFull =
     (let ack = zero_CIFACK\<lparr>LastACKPacketSequenceNumber := Value ackSeq, RTT := word_of_int (c_rtt c),
                  RTTVariance := word_of_int (c_rttVar c),
                  AvailableBufferSize := word_of_int (AvailableSize (c_recvBuf c) ackSeq)\<rparr> in
      if needFull
      then ack\<lparr>PacketsReceivingRate := fst (DeliveryRate (c_sendCC c)),
               EstimatedLinkCapacity := EstimatedBandwidth (c_sendCC c),
               ReceivingRate := snd (DeliveryRate (c_sendCC c))\<rparr>
      else ack)"

definition ack_slot :: "u32 \<Rightarrow> nat" where
  "ack_slot n = unat (n AND (of_nat ackTimeSlots - 1))"

definition sendFullACK :: "Conn \<Rightarrow> Timestamp \<Rightarrow> Conn" where
  "sendFullACK c now =
     (let ackSeq = ACKSequence (c_recvBuf c);
          needFull = (synInterval \<le> Timestamp_Sub now (c_lastFullACKTime c)) in
      if ackSeq = c_rcvLastAckAck c \<and> \<not> needFull then c
      else
        let n = c_ackSeqNo c + 1;
            n = (if n = 0 then n + 1 else n);
            c = c\<lparr>c_ackSeqNo := n\<rparr>;
            p = NewControl None CtrlTypeACK (c_peerSocketID c) (wireTS c now);
            p = p\<lparr>Header := (Header p)\<lparr>TypeSpecific := n\<rparr>\<rparr> in
        (case Packet_MarshalCIF CIFACK_MarshalCIF p (full_ack c ackSeq needFull) of
           Inl _ \<Rightarrow> c
         | Inr p \<Rightarrow>
             let c = c\<lparr>c_ackSlots := (c_ackSlots c)[ack_slot n :=
                        \<lparr> as_ackNo = n, as_sendTime = now, as_dataSeq = Value ackSeq, as_valid = True \<rparr>]\<rparr>;
                 c = push_output c (SendPacket p True) in
             c\<lparr>c_sentACKs := c_sentACKs c + 1, c_lastFullACKTime := now, c_rcvPktCount := 0, c_lightACKCount := 1\<rparr>))"

definition reply_ackack :: "Conn \<Rightarrow> Timestamp \<Rightarrow> u32 \<Rightarrow> Conn" where
  "reply_ackack c now ackSubNo =
     (if synInterval \<le> Timestamp_Sub now (c_lastACKACKTime c) \<or> ackSubNo = c_lastACKACKSeq c then
        let aa = NewControl None CtrlTypeACKACK (c_peerSocketID c) (wireTS c now);
            aa = SetData (aa\<lparr>Header := (Header aa)\<lparr>TypeSpecific := ackSubNo\<rparr>\<rparr>) [0, 0, 0, 0];
            c = push_output c (SendPacket aa True) in
        c\<lparr>c_sentACKACKs := c_sentACKACKs c + 1, c_lastACKACKTime := now, c_lastACKACKSeq := ackSubNo\<rparr>
      else c)"

definition handleACK :: "entropy \<Rightarrow> Conn \<Rightarrow> Timestamp \<Rightarrow> Packet \<Rightarrow> Conn" where
  "handleACK en c now p =
     (case Packet_UnmarshalCIF CIFACK_UnmarshalCIF p zero_CIFACK of
        (_, Some _) \<Rightarrow> c
      | (ack, None) \<Rightarrow>
          (case ACK (c_sendBuf c) (LastACKPacketSequenceNumber ack) of
             (sb, ackd) \<Rightarrow>
               let isLite = (length (Data p) = 4);
                   c = c\<lparr>c_recvACKs := c_recvACKs c + 1, c_sendBuf := sb\<rparr>;
                   c = (if 0 < ackd then c\<lparr>c_lastACKTime := now, c_rexmitCount := 1\<rparr> else c) in
               if isLite
               then pump en (if 0 < ackd \<and> 0 < c_rcvFlowWin c then c\<lparr>c_rcvFlowWin := c_rcvFlowWin c - ackd\<rparr> else c) now
               else
                 let c = reply_ackack c now (TypeSpecific (Header p));
                     c = c\<lparr>c_rcvFlowWin := uint (AvailableBufferSize ack)\<rparr>;
                     c = (if 0 < RTT ack then c\<lparr>c_rtt := uint (RTT ack), c_rttVar := uint (RTTVariance ack)\<rparr> else c);
                     c = c\<lparr>c_sendCC := OnACK (c_sendCC c) now (LastACKPacketSequenceNumber ack) (c_rtt c)
                             (EstimatedLinkCapacity ack) (PacketsReceivingRate ack)\<rparr> in
                 pump en c now))"

definition update_rtt :: "Conn \<Rightarrow> Microseconds \<Rightarrow> Conn" where
  "update_rtt c rtt =
     (if 0 < rtt \<and> rtt < rttSanityCap then
        if c_rtt c = 0 then c\<lparr>c_rtt := rtt, c_rttVar := go_div rtt 2\<rparr>
        else
          let c = c\<lparr>c_rtt := go_div (c_rtt c * 7 + rtt) 8\<rparr>;
              diff = Microseconds_Abs (rtt - c_rtt c) in
          c\<lparr>c_rttVar := go_div (c_rttVar c * 3 + diff) 4\<rparr>
      else c)"

definition handleACKACK :: "Conn \<Rightarrow> Timestamp \<Rightarrow> Packet \<Rightarrow> Conn" where
  "handleACKACK c now p =
     (let c = c\<lparr>c_recvACKACKs := c_recvACKACKs c + 1\<rparr>;
          ackNo = TypeSpecific (Header p);
          i = ack_slot ackNo;
          e = c_ackSlots c ! i in
      if \<not> as_valid e \<or> as_ackNo e \<noteq> ackNo then c
      else
        let c = c\<lparr>c_ackSlots := (c_ackSlots c)[i := e\<lparr>as_valid := False\<rparr>]\<rparr>;
            rtt = Timestamp_Sub now (as_sendTime e);
            c = update_rtt c rtt;
            c = (if GreaterThan (as_dataSeq e) (c_rcvLastAckAck c) then c\<lparr>c_rcvLastAckAck := as_dataSeq e\<rparr> else c);
            rttSample = (if 0 < rtt \<and> rtt < rttSanityCap then rtt else -1);
            ts = Timestamp (Header p) in
        c\<lparr>c_tsbpdTimer := map_option (\<lambda>t. tsbpd_OnACK (UpdateWrap t ts) ts now rttSample) (c_tsbpdTimer c)\<rparr>)"

section \<open>Data packets\<close>

definition count_arrival :: "Conn \<Rightarrow> Packet \<Rightarrow> Conn" where
  "count_arrival c p =
     (let n = of_nat (length (Data p));
          c = c\<lparr>c_recvWirePackets := c_recvWirePackets c + 1, c_recvWireBytes := c_recvWireBytes c + n\<rparr> in
      if Retransmitted (Header p)
      then c\<lparr>c_recvRetrans := c_recvRetrans c + 1, c_recvRetransBytes := c_recvRetransBytes c + n\<rparr> else c)"

definition count_belated :: "Conn \<Rightarrow> Timestamp \<Rightarrow> Packet \<Rightarrow> Conn" where
  "count_belated c now p =
     (let c = c\<lparr>c_recvBelated := c_recvBelated c + 1,
                c_recvBelatedBytes := c_recvBelatedBytes c + of_nat (length (Data p))\<rparr> in
      case c_tsbpdTimer c of
        None \<Rightarrow> c
      | Some t \<Rightarrow>
          let late = Timestamp_Sub now (DeliveryTime t (Timestamp (Header p))) in
          if 0 < late then
            c\<lparr>c_recvAvgBelatedUS :=
                (if c_recvAvgBelatedUS c = 0 then f_of_int late
                 else fadd (fmul (c_recvAvgBelatedUS c) (7 / 8)) (fmul (f_of_int late) (1 / 8)))\<rparr>
          else c)"

definition cancel_deferred :: "Conn \<Rightarrow> u32 \<Rightarrow> Conn" where
  "cancel_deferred c s =
     (case c_deferredLoss c of
        None \<Rightarrow> c
      | Some d \<Rightarrow>
          let dist = Distance s (MaxSeq (c_recvBuf c));
              c = (if s \<in> set d \<and> c_recvReorderDist c < dist then c\<lparr>c_recvReorderDist := dist\<rparr> else c) in
          c\<lparr>c_deferredLoss := Some (filter (\<lambda>x. x \<noteq> s) d)\<rparr>)"

definition time_arrival :: "Conn \<Rightarrow> Timestamp \<Rightarrow> Packet \<Rightarrow> Conn" where
  "time_arrival c now p =
     (let n = int (length (Data p));
          cc = OnPktArrival (c_sendCC c) n now;
          cc = (if \<not> Retransmitted (Header p) then OnPacketReceived cc (SequenceNumber (Header p)) n now else cc);
          c = c\<lparr>c_sendCC := cc\<rparr>;
          ts = Timestamp (Header p) in
      case c_tsbpdTimer c of
        None \<Rightarrow> c
      | Some t \<Rightarrow>
          let t = (if \<not> c_tsbpdBaseSet c then SetTimeBase t (Timestamp_Add now (- uint ts)) else t) in
          c\<lparr>c_tsbpdTimer := Some (UpdateWrap t ts), c_tsbpdBaseSet := True\<rparr>)"

definition feed_fec_receiver :: "Conn \<Rightarrow> Timestamp \<Rightarrow> Packet \<Rightarrow> bytes \<Rightarrow> Conn \<times> u32 list" where
  "feed_fec_receiver c now p payload =
     (case c_fecReceiver c of
        None \<Rightarrow> (c, [])
      | Some r \<Rightarrow>
          (case Receive r (SequenceNumber (Header p)) (Timestamp (Header p)) (Encryption (Header p))
                  (MessageNumber (Header p)) payload of
             (r, res) \<Rightarrow> (insertRecovered (c\<lparr>c_fecReceiver := Some r\<rparr>) now (recovered res), lossReport res)))"

definition handle_repair :: "Conn \<Rightarrow> Timestamp \<Rightarrow> Packet \<Rightarrow> Conn" where
  "handle_repair c now p =
     (case feed_fec_receiver c now p (Data p) of
        (c, losses) \<Rightarrow> deliverNow (if losses \<noteq> [] then emitNAK c now losses else c) now)"

definition handle_gap :: "Conn \<Rightarrow> Timestamp \<Rightarrow> Packet \<Rightarrow> InsertResult \<Rightarrow> Conn" where
  "handle_gap c now p res =
     (if HasGap res then
        let c = c\<lparr>c_recvLoss := c_recvLoss c + (word_of_int (Distance (GapStart res) (GapEnd res)) + 1)\<rparr> in
        if c_fecReceiver c = None \<or> c_fecARQLevel c = ARQAlways
        then reportGap c now (GapStart res) (GapEnd res) (SequenceNumber (Header p)) else c
      else c)"

definition escalate_lite :: "Conn \<Rightarrow> Timestamp \<Rightarrow> Conn" where
  "escalate_lite c now =
     (if 0 < c_lightACKCount c \<and> liteACKPeriod * c_lightACKCount c \<le> c_rcvPktCount c then
        let c = sendLiteACK c now in c\<lparr>c_lightACKCount := c_lightACKCount c + 1\<rparr>
      else c)"

definition accept_data :: "Conn \<Rightarrow> Timestamp \<Rightarrow> Packet \<Rightarrow> bytes \<Rightarrow> InsertResult \<Rightarrow> Conn" where
  "accept_data c now p wire res =
     (let s = SequenceNumber (Header p);
          c = cancel_deferred (c\<lparr>c_groupIdle := False\<rparr>) s;
          c = c\<lparr>c_rcvPktCount := c_rcvPktCount c + 1, c_recvPackets := c_recvPackets c + 1,
                c_recvBytes := c_recvBytes c + of_nat (length wire)\<rparr>;
          c = time_arrival c now p;
          c = fst (feed_fec_receiver c now p (if Encryption (Header p) \<noteq> EncryptionNone \<and> wire \<noteq> [] then wire else Data p));
          c = handle_gap c now p res;
          c = (case c_deferredLoss c of Some (_ # _) \<Rightarrow> flushDeferredLoss c now s | _ \<Rightarrow> c) in
      deliverNow (escalate_lite c now) now)"

definition handleData :: "Conn \<Rightarrow> Timestamp \<Rightarrow> Packet \<Rightarrow> Conn" where
  "handleData c now p =
     (if c_fecReceiver c \<noteq> None \<and> MessageNumber (Header p) = 0 then handle_repair c now p
      else
        let wire = Data p in
        (case decrypt (count_arrival c p) p of
           (c, None) \<Rightarrow> c
         | (c, Some p) \<Rightarrow>
             let belatedBefore = LessThan (SequenceNumber (Header p)) (StartSeq (c_recvBuf c)) in
             (case Insert (c_recvBuf c) p now of
                (rb, res) \<Rightarrow>
                  let c = c\<lparr>c_recvBuf := rb\<rparr> in
                  if \<not> Inserted res then (if belatedBefore then count_belated c now p else c)
                  else accept_data c now p wire res)))"

definition handleDropReq :: "Conn \<Rightarrow> Timestamp \<Rightarrow> Packet \<Rightarrow> Conn" where
  "handleDropReq c now p =
     (case CIFDropReq_UnmarshalCIF \<lparr> FirstSeqNo = 0, LastSeqNo = 0 \<rparr> (Data p) of
        (_, Some _) \<Rightarrow> c
      | (dr, None) \<Rightarrow>
          (case Drop (c_recvBuf c) (Inc (LastSeqNo dr)) of
             (rb, dropped, tss) \<Rightarrow>
               let c = note_wraps (c\<lparr>c_recvBuf := rb\<rparr>) tss;
                   c = (if 0 < dropped then c\<lparr>c_recvDropped := c_recvDropped c + word_of_int dropped\<rparr> else c) in
               deliverNow c now))"

section \<open>Group primitives and queries\<close>

definition resetRecvTo :: "Conn \<Rightarrow> Number \<Rightarrow> Conn" where
  "resetRecvTo c nextSeq = c\<lparr>c_recvBuf := SetInitialRcvSeq (c_recvBuf c) nextSeq, c_rcvLastAckAck := nextSeq\<rparr>"

definition ResetRecvState :: "Conn \<Rightarrow> Number \<Rightarrow> Conn" where
  "ResetRecvState c nextSeq = (if c_up c then resetRecvTo c nextSeq else c)"

definition AckSeqNo :: "Conn \<Rightarrow> Number" where
  "AckSeqNo c = (if \<not> c_up c then 0 else ACKSequence (c_recvBuf c))"

definition RcvBufEmpty :: "Conn \<Rightarrow> bool" where
  "RcvBufEmpty c = (\<not> c_up c \<or> IsEmpty (c_recvBuf c))"

definition RcvBufStartSeq :: "Conn \<Rightarrow> Number" where
  "RcvBufStartSeq c = (if \<not> c_up c then 0 else StartSeq (c_recvBuf c))"

definition GroupIdle :: "Conn \<Rightarrow> bool" where "GroupIdle c = c_groupIdle c"

definition TSBPDTimeBase :: "Conn \<Rightarrow> GroupTimeBase option" where
  "TSBPDTimeBase c = map_option GetInternalTimeBase (c_tsbpdTimer c)"

definition conn_ApplyGroupDrift :: "Conn \<Rightarrow> GroupTimeBase \<Rightarrow> Conn" where
  "conn_ApplyGroupDrift c tb = c\<lparr>c_tsbpdTimer := map_option (\<lambda>t. ApplyGroupDrift t tb) (c_tsbpdTimer c)\<rparr>"

definition conn_ApplyGroupTime :: "Conn \<Rightarrow> GroupTimeBase \<Rightarrow> Conn" where
  "conn_ApplyGroupTime c tb = c\<lparr>c_tsbpdTimer := map_option (\<lambda>t. ApplyGroupTime t tb (Delay t)) (c_tsbpdTimer c)\<rparr>"

definition conn_Live :: "Conn \<Rightarrow> bool" where "conn_Live c = (c_tsbpdTimer c \<noteq> None)"

section \<open>Retransmission timeout and liveness\<close>

definition rto :: "Conn \<Rightarrow> Microseconds" where
  "rto c = (let n = (if c_rexmitCount c < 1 then 1 else c_rexmitCount c) in
     n * (c_rtt c + 4 * c_rttVar c + 2 * synInterval) + 10 * Millisecond)"

definition retransmitAll :: "Conn \<Rightarrow> Conn" where
  "retransmitAll c =
     fold (\<lambda>rp c. push_output (c\<lparr>c_retransPackets := c_retransPackets c + 1,
                                 c_retransBytes := c_retransBytes c + of_nat (length (Data rp))\<rparr>)
                    (SendPacket rp True)) (GetAllUnacked (c_sendBuf c)) c"

definition handleEXP :: "Conn \<Rightarrow> Timestamp \<Rightarrow> Conn" where
  "handleEXP c now =
     (let c = (if c_up c \<and> 0 < sb_Size (c_sendBuf c) \<and> rto c < Timestamp_Sub now (c_lastACKTime c)
               then let c = retransmitAll (c\<lparr>c_sendCC := OnTimeout (c_sendCC c), c_rexmitCount := c_rexmitCount c + 1\<rparr>)
                    in c\<lparr>c_lastACKTime := now\<rparr>
               else c) in
      push_output c (SetTimer TimerEXP (Timestamp_Add now (rto c))))"

definition checkKeepalive :: "Conn \<Rightarrow> Timestamp \<Rightarrow> Conn" where
  "checkKeepalive c now =
     (if c_peerIdleTimeout c \<le> 0 then c
      else
        let c = (if keepaliveInterval \<le> Timestamp_Sub now (c_lastSentDataTime c)
                 then push_output c (SendPacket (SetData
                        (NewControl None CtrlTypeKeepalive (c_peerSocketID c) (wireTS c now)) [0, 0, 0, 0]) True)
                 else c) in
        push_output c (SetTimer TimerKeepalive (Timestamp_Add now keepaliveInterval)))"

definition checkPeerIdle :: "Conn \<Rightarrow> Timestamp \<Rightarrow> Conn" where
  "checkPeerIdle c now =
     (if c_peerIdleTimeout c \<le> 0 then c
      else if c_peerIdleTimeout c \<le> Timestamp_Sub now (c_lastRecvTime c)
      then push_event (c\<lparr>c_closed := True\<rparr>) (Failed ErrPeerIdle)
      else push_output c (SetTimer TimerPeerIdle (Timestamp_Add (c_lastRecvTime c) (c_peerIdleTimeout c))))"

end
