(* ===== verification/Handshake_Build.thy ===== *)
theory Handshake_Build
  imports Handshake_Cif
begin

text \<open>
  The packets of the handshake (\<^verbatim>\<open>internal/handshake\<close>): one builder per message, the negotiation of latency and
  segment size, and the post-handshake messages of HSv4. Random numbers are the bytes read from the
  entropy source, \<open>None\<close> when it fails. A builder ignores an error of the marshaller, which leaves the body empty.
\<close>

section \<open>Constants and helpers\<close>

definition hs_SRTVersion :: u32 where "hs_SRTVersion = 0x010504"
definition SRTMagic :: u16 where "SRTMagic = 0x4A17"
definition UDTV4Marker :: u16 where "UDTV4Marker = 2"

definition defaultFlags :: u32 where
  "defaultFlags = FlagTSBPDSend OR FlagTSBPDRecv OR FlagCrypt OR FlagTLPktDrop OR FlagPeriodicNAK OR FlagRexmit"

definition ipv4_any :: bytes where
  "ipv4_any = replicate 10 0 @ [0xFF, 0xFF] @ [0, 0, 0, 0]"

definition extractIP :: "net_Addr option \<Rightarrow> bytes" where
  "extractIP addr =
     (case addr of
        None \<Rightarrow> ipv4_any
      | Some (UDPAddr ip _ _) \<Rightarrow> ip
      | Some (TCPAddr ip _ _) \<Rightarrow> ip
      | Some (OtherAddr _ _) \<Rightarrow> ipv4_any)"

definition with_cif :: "Packet \<Rightarrow> CIFHandshake \<Rightarrow> Packet" where
  "with_cif p hs = (case snd (HS_MarshalCIF hs) of Inl _ \<Rightarrow> p | Inr body \<Rightarrow> SetData p body)"

definition enc_field :: "int \<Rightarrow> u16" where
  "enc_field keyLength = (if 0 < keyLength then word_of_int (keyLength div 8) else 0)"

section \<open>Random numbers\<close>

definition GenerateSocketID :: "bytes option \<Rightarrow> u32 option" where
  "GenerateSocketID rnd = map_option (\<lambda>buf. if get_be32 buf = 0 then 1 else get_be32 buf) rnd"

definition GenerateISN :: "bytes option \<Rightarrow> u32 option" where
  "GenerateISN rnd = map_option (\<lambda>buf. get_be32 buf AND 0x7FFFFFFF) rnd"

definition GenerateRandomCookie :: "bytes option \<Rightarrow> u32 option" where
  "GenerateRandomCookie rnd = map_option (\<lambda>buf. if get_be32 buf = 0 then 1 else get_be32 buf) rnd"

section \<open>Induction and conclusion\<close>

definition BuildInduction :: "u32 \<Rightarrow> u32 \<Rightarrow> u32 \<Rightarrow> u32 \<Rightarrow> net_Addr option \<Rightarrow> Packet" where
  "BuildInduction callerSocketID isn mss fc addr =
     with_cif (NewControl addr CtrlTypeHandshake 0 0)
       (zero_HS\<lparr>Version := 4, EncryptionField := 0, ExtensionField := UDTV4Marker, InitialPacketSequenceNumber := isn,
          MaxTransmissionUnitSize := mss, MaxFlowWindowSize := fc, HandshakeType := HandshakeTypeInduction,
          SRTSocketID := callerSocketID, SynCookie := 0, PeerIP := extractIP addr\<rparr>)"

definition BuildInductionResponse ::
    "CIFHandshake \<Rightarrow> u32 \<Rightarrow> net_Addr option \<Rightarrow> net_Addr option \<Rightarrow> int \<Rightarrow> Packet" where
  "BuildInductionResponse callerHS cookie listenerAddr callerAddr keyLength =
     with_cif (NewControl callerAddr CtrlTypeHandshake (SRTSocketID callerHS) 0)
       (zero_HS\<lparr>Version := 5, EncryptionField := enc_field keyLength, ExtensionField := SRTMagic,
          InitialPacketSequenceNumber := InitialPacketSequenceNumber callerHS,
          MaxTransmissionUnitSize := MaxTransmissionUnitSize callerHS,
          MaxFlowWindowSize := MaxFlowWindowSize callerHS, HandshakeType := HandshakeTypeInduction,
          SRTSocketID := 0, SynCookie := cookie, PeerIP := extractIP listenerAddr\<rparr>)"

text \<open>The extensions of a conclusion; the caller alone adds the stream identifier.\<close>

definition add_sid :: "string \<Rightarrow> CIFHandshake \<Rightarrow> CIFHandshake" where
  "add_sid streamID hs = (if streamID \<noteq> [] then hs\<lparr>HasSID := True, StreamID := streamID\<rparr> else hs)"

definition add_extensions ::
    "string \<Rightarrow> string \<Rightarrow> u32 \<Rightarrow> u8 \<Rightarrow> u16 \<Rightarrow> CIFKeyMaterial option \<Rightarrow> CIFHandshake \<Rightarrow> CIFHandshake" where
  "add_extensions congestionType filterConfig groupID groupType groupWeight km hs =
     (let hs = hs\<lparr>HasCongestion := True,
                  CongestionType := (if congestionType = [] then ''live'' else congestionType)\<rparr>;
          hs = (if filterConfig \<noteq> [] then hs\<lparr>HasFilter := True, FilterConfig := filterConfig\<rparr> else hs);
          hs = (if groupID \<noteq> 0
                then hs\<lparr>HasGroup := True, GroupID := groupID, GroupType := groupType, GroupWeight := groupWeight\<rparr>
                else hs) in
      case km of None \<Rightarrow> hs | Some k \<Rightarrow> hs\<lparr>HasKM := True, SRTKM := Some k\<rparr>)"

definition hs_ext :: "u32 \<Rightarrow> u16 \<Rightarrow> u16 \<Rightarrow> CIFHandshakeExtension" where
  "hs_ext srtFlags recvLatency sendLatency =
     \<lparr> SRTVersion = hs_SRTVersion, SRTFlags = (if srtFlags = 0 then defaultFlags else srtFlags),
       RecvTSBPDDelay = recvLatency, SendTSBPDDelay = sendLatency \<rparr>"

definition conclusion_hs ::
    "u32 \<Rightarrow> u32 \<Rightarrow> u32 \<Rightarrow> u32 \<Rightarrow> u32 \<Rightarrow> string \<Rightarrow> u16 \<Rightarrow> u16 \<Rightarrow> u32 \<Rightarrow> string \<Rightarrow> string
     \<Rightarrow> u32 \<Rightarrow> u8 \<Rightarrow> u16 \<Rightarrow> net_Addr option \<Rightarrow> CIFKeyMaterial option \<Rightarrow> CIFHandshake" where
  "conclusion_hs callerSocketID isn mss fc cookie streamID recvLatency sendLatency srtFlags congestionType
     filterConfig groupID groupType groupWeight addr km =
     add_extensions congestionType filterConfig groupID groupType groupWeight km (add_sid streamID
       (zero_HS\<lparr>Version := 5, InitialPacketSequenceNumber := isn, MaxTransmissionUnitSize := mss,
          MaxFlowWindowSize := fc, HandshakeType := HandshakeTypeConclusion, SRTSocketID := callerSocketID,
          SynCookie := cookie, PeerIP := extractIP addr, IsRequest := True, HasHS := True,
          SRTHS := Some (hs_ext srtFlags recvLatency sendLatency)\<rparr>))"

definition BuildConclusion ::
    "u32 \<Rightarrow> u32 \<Rightarrow> u32 \<Rightarrow> u32 \<Rightarrow> u32 \<Rightarrow> string \<Rightarrow> u16 \<Rightarrow> u16 \<Rightarrow> u32 \<Rightarrow> string \<Rightarrow> string
     \<Rightarrow> u32 \<Rightarrow> u8 \<Rightarrow> u16 \<Rightarrow> net_Addr option \<Rightarrow> CIFKeyMaterial option \<Rightarrow> Packet" where
  "BuildConclusion callerSocketID isn mss fc cookie streamID recvLatency sendLatency srtFlags congestionType
     filterConfig groupID groupType groupWeight addr km =
     with_cif (NewControl addr CtrlTypeHandshake 0 0)
       (conclusion_hs callerSocketID isn mss fc cookie streamID recvLatency sendLatency srtFlags congestionType
          filterConfig groupID groupType groupWeight addr km)"

definition conclusion_response_hs ::
    "u32 \<Rightarrow> u32 \<Rightarrow> u32 \<Rightarrow> u32 \<Rightarrow> u16 \<Rightarrow> u16 \<Rightarrow> u32 \<Rightarrow> string \<Rightarrow> string
     \<Rightarrow> u32 \<Rightarrow> u8 \<Rightarrow> u16 \<Rightarrow> net_Addr option \<Rightarrow> CIFKeyMaterial option \<Rightarrow> CIFHandshake" where
  "conclusion_response_hs listenerSocketID isn mss fc recvLatency sendLatency srtFlags congestionType
     filterConfig groupID groupType groupWeight callerAddr km =
     add_extensions congestionType filterConfig groupID groupType groupWeight km
       (zero_HS\<lparr>Version := 5, InitialPacketSequenceNumber := isn, MaxTransmissionUnitSize := mss,
          MaxFlowWindowSize := fc, HandshakeType := HandshakeTypeConclusion, SRTSocketID := listenerSocketID,
          SynCookie := 0, PeerIP := extractIP callerAddr, IsRequest := False, HasHS := True,
          SRTHS := Some (hs_ext srtFlags recvLatency sendLatency)\<rparr>)"

definition BuildConclusionResponse ::
    "u32 \<Rightarrow> u32 \<Rightarrow> u32 \<Rightarrow> u32 \<Rightarrow> u32 \<Rightarrow> u16 \<Rightarrow> u16 \<Rightarrow> u32 \<Rightarrow> string \<Rightarrow> string
     \<Rightarrow> u32 \<Rightarrow> u8 \<Rightarrow> u16 \<Rightarrow> net_Addr option \<Rightarrow> CIFKeyMaterial option \<Rightarrow> Packet" where
  "BuildConclusionResponse listenerSocketID isn mss fc callerSocketID recvLatency sendLatency srtFlags congestionType
     filterConfig groupID groupType groupWeight callerAddr km =
     with_cif (NewControl callerAddr CtrlTypeHandshake callerSocketID 0)
       (conclusion_response_hs listenerSocketID isn mss fc recvLatency sendLatency srtFlags congestionType
          filterConfig groupID groupType groupWeight callerAddr km)"

definition BuildConclusionResponseV4 ::
    "u32 \<Rightarrow> u32 \<Rightarrow> u32 \<Rightarrow> u32 \<Rightarrow> u32 \<Rightarrow> net_Addr option \<Rightarrow> Packet" where
  "BuildConclusionResponseV4 listenerSocketID isn mss fc callerSocketID callerAddr =
     with_cif (NewControl callerAddr CtrlTypeHandshake callerSocketID 0)
       (zero_HS\<lparr>Version := 4, InitialPacketSequenceNumber := isn, MaxTransmissionUnitSize := mss,
          MaxFlowWindowSize := fc, HandshakeType := HandshakeTypeConclusion, SRTSocketID := listenerSocketID,
          SynCookie := 0, PeerIP := extractIP callerAddr\<rparr>)"

definition BuildConclusionV4 :: "u32 \<Rightarrow> u32 \<Rightarrow> u32 \<Rightarrow> u32 \<Rightarrow> u32 \<Rightarrow> net_Addr option \<Rightarrow> Packet" where
  "BuildConclusionV4 callerSocketID isn mss fc cookie addr =
     with_cif (NewControl addr CtrlTypeHandshake 0 0)
       (zero_HS\<lparr>Version := 4, EncryptionField := 0, ExtensionField := UDTV4Marker, InitialPacketSequenceNumber := isn,
          MaxTransmissionUnitSize := mss, MaxFlowWindowSize := fc, HandshakeType := HandshakeTypeConclusion,
          SRTSocketID := callerSocketID, SynCookie := cookie, PeerIP := extractIP addr\<rparr>)"

section \<open>Negotiation\<close>

definition NegotiateLatency :: "u16 \<Rightarrow> u16 \<Rightarrow> u16 \<Rightarrow> u16 \<Rightarrow> u16 \<times> u16" where
  "NegotiateLatency localRecv localSend peerRecv peerSend = (max localRecv peerSend, max localSend peerRecv)"

definition NegotiateMSS :: "u32 \<Rightarrow> u32 \<Rightarrow> u32" where
  "NegotiateMSS callerMSS listenerMSS = (if callerMSS < listenerMSS then callerMSS else listenerMSS)"

section \<open>Rendezvous\<close>

definition BuildWavehand ::
    "u32 \<Rightarrow> u32 \<Rightarrow> u32 \<Rightarrow> u32 \<Rightarrow> u32 \<Rightarrow> int \<Rightarrow> net_Addr option \<Rightarrow> Packet" where
  "BuildWavehand socketID isn mss fc cookie keyLength addr =
     with_cif (NewControl addr CtrlTypeHandshake 0 0)
       (zero_HS\<lparr>Version := 5, EncryptionField := enc_field keyLength, ExtensionField := 0,
          InitialPacketSequenceNumber := isn, MaxTransmissionUnitSize := mss, MaxFlowWindowSize := fc,
          HandshakeType := HandshakeTypeWavehand, SRTSocketID := socketID, SynCookie := cookie,
          PeerIP := extractIP addr\<rparr>)"

definition BuildAgreement :: "u32 \<Rightarrow> u32 \<Rightarrow> u32 \<Rightarrow> u32 \<Rightarrow> u32 \<Rightarrow> net_Addr option \<Rightarrow> Packet" where
  "BuildAgreement socketID isn mss fc peerSocketID addr =
     with_cif (NewControl addr CtrlTypeHandshake peerSocketID 0)
       (zero_HS\<lparr>Version := 5, EncryptionField := 0, ExtensionField := 0, InitialPacketSequenceNumber := isn,
          MaxTransmissionUnitSize := mss, MaxFlowWindowSize := fc, HandshakeType := HandshakeTypeAgreement,
          SRTSocketID := socketID, SynCookie := 0, PeerIP := extractIP addr\<rparr>)"

definition BuildRendezvousConclusion ::
    "u32 \<Rightarrow> u32 \<Rightarrow> u32 \<Rightarrow> u32 \<Rightarrow> u32 \<Rightarrow> u32 \<Rightarrow> bool \<Rightarrow> u16 \<Rightarrow> u16 \<Rightarrow> u32 \<Rightarrow> string \<Rightarrow> string
     \<Rightarrow> u32 \<Rightarrow> u8 \<Rightarrow> u16 \<Rightarrow> string \<Rightarrow> net_Addr option \<Rightarrow> CIFKeyMaterial option \<Rightarrow> bool \<Rightarrow> int \<Rightarrow> Packet" where
  "BuildRendezvousConclusion socketID isn mss fc peerSocketID cookie isRequest recvLatency sendLatency srtFlags
     congestionType filterConfig groupID groupType groupWeight streamID addr km hasExt keyLength =
     (let hs = zero_HS\<lparr>Version := 5, EncryptionField := enc_field keyLength, InitialPacketSequenceNumber := isn,
                  MaxTransmissionUnitSize := mss, MaxFlowWindowSize := fc, HandshakeType := HandshakeTypeConclusion,
                  SRTSocketID := socketID, SynCookie := cookie, PeerIP := extractIP addr, IsRequest := isRequest\<rparr>;
          hs = (if hasExt
                then add_extensions congestionType filterConfig groupID groupType groupWeight km (add_sid streamID
                       (hs\<lparr>HasHS := True, SRTHS := Some (hs_ext srtFlags recvLatency sendLatency)\<rparr>))
                else hs) in
      with_cif (NewControl addr CtrlTypeHandshake peerSocketID 0) hs)"

section \<open>Messages after an HSv4 handshake\<close>

definition ext_control :: "u32 \<Rightarrow> SubType \<Rightarrow> net_Addr option \<Rightarrow> Packet" where
  "ext_control destSocketID sub addr =
     (let p = NewControl addr CtrlTypeUser destSocketID 0 in p\<lparr>Header := (Header p)\<lparr>SubType := sub\<rparr>\<rparr>)"

definition ext_hs_body :: "u32 \<Rightarrow> u32 \<Rightarrow> u16 \<Rightarrow> bytes" where
  "ext_hs_body srtVersion srtFlags latency =
     put_be32 srtVersion @ put_be32 (if srtFlags = 0 then defaultFlags else srtFlags) @ put_be32 (ucast latency)"

definition BuildExtHSREQ :: "u32 \<Rightarrow> u32 \<Rightarrow> u32 \<Rightarrow> u16 \<Rightarrow> net_Addr option \<Rightarrow> Packet" where
  "BuildExtHSREQ destSocketID srtVersion srtFlags latency addr =
     SetData (ext_control destSocketID ExtTypeHSReq addr) (ext_hs_body srtVersion srtFlags latency)"

definition BuildExtHSRSP :: "u32 \<Rightarrow> u32 \<Rightarrow> u32 \<Rightarrow> u16 \<Rightarrow> net_Addr option \<Rightarrow> Packet" where
  "BuildExtHSRSP destSocketID srtVersion srtFlags latency addr =
     SetData (ext_control destSocketID ExtTypeHSRsp addr) (ext_hs_body srtVersion srtFlags latency)"

definition BuildExtKMREQ :: "u32 \<Rightarrow> CIFKeyMaterial \<Rightarrow> net_Addr option \<Rightarrow> perr + Packet" where
  "BuildExtKMREQ destSocketID km addr =
     (case KM_MarshalCIF km of
        Inl err \<Rightarrow> Inl err | Inr body \<Rightarrow> Inr (SetData (ext_control destSocketID ExtTypeKMReq addr) body))"

definition BuildExtKMRSP :: "u32 \<Rightarrow> CIFKeyMaterial \<Rightarrow> net_Addr option \<Rightarrow> perr + Packet" where
  "BuildExtKMRSP destSocketID km addr =
     (case KM_MarshalCIF km of
        Inl err \<Rightarrow> Inl err | Inr body \<Rightarrow> Inr (SetData (ext_control destSocketID ExtTypeKMRsp addr) body))"

definition ParseExtHSREQ :: "bytes \<Rightarrow> perr + (u32 \<times> u32 \<times> u16)" where
  "ParseExtHSREQ data =
     (if length data < 12 then Inl (HSExtensionTooShort (length data))
      else Inr (get_be32 data, get_be32 (drop 4 data), ucast (get_be32 (drop 8 data) AND 0xFFFF)))"

end
