(* ===== verification/Conn_Handshake.thy ===== *)
theory Conn_Handshake
  imports Conn_Recv Handshake_Build
begin

text \<open>
  Bringing a connection up (\<^verbatim>\<open>conn.go\<close>, \<^verbatim>\<open>handshake.go\<close>, \<^verbatim>\<open>hsv4.go\<close>, \<^verbatim>\<open>payloadsize.go\<close>): the initial state of the
  data path, and the caller side of the HSv5 and HSv4 handshakes. A handler that needs the handshake
  parameters does nothing when there are none, where the source would dereference a nil pointer.
\<close>

section \<open>The zero connection\<close>

definition nil_sendBuf :: SendBuffer where
  "nil_sendBuf = \<lparr> sb_entries = [], sb_mask = 0, sb_startSeq = 0, sb_nextSeq = 0, sb_size = 0 \<rparr>"

definition nil_recvBuf :: RecvBuffer where
  "nil_recvBuf = \<lparr> rb_entries = [], rb_mask = 0, rb_startSeq = 0, rb_maxSeq = 0, rb_size = 0,
     rb_numOutOfOrderPkts = 0, rb_firstReadableOOO = 0, rb_messageAPI = False, rb_onRead = False, rb_onDrop = False \<rparr>"

definition zero_Conn :: Conn where
  "zero_Conn = \<lparr>
     c_peerSocketID = 0, c_payloadSize = 0, c_negotiatedMSS = 0, c_sndTSBase = 0, c_lastNow = 0, c_sndISN = 0,
     c_rcvISN = 0, c_peerVersion = 0, c_tlPktDrop = False, c_dropBaseUS = 0, c_hsv4DeferConnect = False,
     c_peerIdleTimeout = 0, c_lastRecvTime = 0, c_lastSentDataTime = 0, c_negotiatedPeerLatency = 0,
     c_negotiatedLatency = 0, c_up = False,
     c_sendBuf = nil_sendBuf, c_sendCC = Live (NewLiveCC 0 0), c_configuredMaxBW = 0, c_inputBW = 0, c_minInputBW = 0,
     c_sampledInputBW = 0, c_inputSampleBytes = 0, c_inputSampleStart = 0, c_sendQueue = fifo_empty, c_msgNumber = 0,
     c_nextSendTime = 0, c_flowWindow = 0, c_rcvFlowWin = 0, c_sendDropThresh = 0, c_msgTTLActive = False,
     c_recvBuf = nil_recvBuf, c_tsbpdTimer = None, c_tsbpdBaseSet = False, c_messageMode = False,
     c_periodicNAK = False, c_groupIdle = False, c_peerNakReport = False, c_reorderTolerance = 0,
     c_deferredLoss = None, c_fecSender = None, c_fecReceiver = None, c_fecARQLevel = ARQAlways,
     c_cryptoCtx = None, c_activeKey = 0, c_passphrase = [], c_kmRefreshRate = 0, c_kmPreAnnounce = 0,
     c_kmPacketCount = 0, c_kmAnnounced = False, c_kmConfirmed = False, c_kmDecommission = False,
     c_kmSwitchCount = 0, c_kmRetryKey = 0, c_kmRetryCount = 0, c_sndKmState = 0, c_rcvKmState = 0, c_draws = 0,
     c_ackSeqNo = 0, c_rcvLastAckAck = 0, c_lastFullACKTime = 0, c_rcvPktCount = 0, c_lightACKCount = 0,
     c_ackSlots = replicate ackTimeSlots zero_ackSlot, c_lastACKACKTime = 0, c_lastACKACKSeq = 0, c_rtt = 0,
     c_rttVar = 0, c_lastACKTime = 0, c_rexmitCount = 0,
     c_sentDropped = 0, c_sentDroppedBytes = 0, c_recvDropped = 0, c_recvUndecrypt = 0, c_sentKM = 0, c_recvKM = 0,
     c_sentPackets = 0, c_sentBytes = 0, c_retransPackets = 0, c_retransBytes = 0, c_recvWirePackets = 0,
     c_recvWireBytes = 0, c_recvPackets = 0, c_recvBytes = 0, c_recvRetrans = 0, c_recvRetransBytes = 0,
     c_recvLoss = 0, c_recvBelated = 0, c_recvBelatedBytes = 0, c_recvAvgBelatedUS = 0, c_recvReorderDist = 0,
     c_lostPackets = 0, c_sentACKs = 0, c_sentNAKs = 0, c_sentACKACKs = 0, c_recvACKs = 0, c_recvNAKs = 0,
     c_recvACKACKs = 0, c_sentFEC = 0, c_recvFECRecov = 0,
     c_state = stateInduction, c_dial = None, c_rdv = None, c_closed = False, c_outputs = fifo_empty,
     c_events = fifo_empty \<rparr>"

section \<open>Establishing the data path\<close>

definition negotiatedPayloadSize :: "int \<Rightarrow> u32 \<Rightarrow> string \<Rightarrow> int" where
  "negotiatedPayloadSize requested mss congestion =
     (let limit = uint mss - int WireHeaderSize;
          requested = (if requested \<le> 0 then (if congestion = ''file'' then limit else liveDefaultPayloadSize)
                       else requested) in
      min requested limit)"

text \<open>The defaults and capacities computed first.\<close>

definition ep_payload :: "establishParams \<Rightarrow> int" where
  "ep_payload ep =
     (if ep_PayloadSize ep \<le> 0
      then (if ep_Congestion ep = ''file'' then int MaxPayloadSize else liveDefaultPayloadSize)
      else ep_PayloadSize ep)"

definition ep_window :: "establishParams \<Rightarrow> int" where
  "ep_window ep = (if ep_FlowWindow ep \<le> 0 then 25600 else ep_FlowWindow ep)"

definition ep_capacity :: "establishParams \<Rightarrow> int \<Rightarrow> int" where
  "ep_capacity ep cap =
     (let cap = (if cap \<le> 0 then (if ep_BufferCapacity ep \<le> 0 then 8192 else ep_BufferCapacity ep) else cap) in
      if cap < ep_window ep then ep_window ep else cap)"

definition est_link :: "Conn \<Rightarrow> Timestamp \<Rightarrow> establishParams \<Rightarrow> Conn" where
  "est_link c now ep =
     c\<lparr>c_peerSocketID := ep_PeerSocketID ep, c_payloadSize := ep_payload ep,
       c_negotiatedMSS := (if ep_MSS ep = 0 then 1500 else ep_MSS ep), c_sndTSBase := SRTTimestamp now,
       c_lastNow := now, c_sndISN := ep_SendISN ep, c_rcvISN := ep_RecvISN ep, c_peerVersion := ep_PeerVersion ep\<rparr>"

definition est_buffers :: "Conn \<Rightarrow> Timestamp \<Rightarrow> establishParams \<Rightarrow> Conn" where
  "est_buffers c now ep =
     (let overhead = (if ep_OverheadBW ep = 0 then DefaultOverhead else ep_OverheadBW ep);
          cc = (if ep_Congestion ep = ''file''
                then File (NewFileCC (ep_MaxBW ep) (ep_payload ep) (ep_window ep) (Value (ep_SendISN ep)))
                else Live (NewLiveCC (ep_MaxBW ep) (ep_payload ep)));
          c = c\<lparr>c_up := True, c_sendBuf := NewSendBuffer (ep_capacity ep (ep_SendBufCapacity ep)) (ep_SendISN ep),
                c_sendCC := SetOverhead cc overhead, c_configuredMaxBW := ep_MaxBW ep, c_inputBW := ep_InputBW ep,
                c_minInputBW := ep_MinInputBW ep, c_inputSampleStart := now\<rparr>;
          c = applyBandwidth c in
      c\<lparr>c_recvBuf := NewRecvBuffer (ep_capacity ep (ep_RecvBufCapacity ep)) (ep_RecvISN ep),
        c_flowWindow := ep_window ep, c_rcvLastAckAck := ep_RecvISN ep, c_rtt := initialRTT,
        c_rttVar := go_div initialRTT 2, c_lightACKCount := 1\<rparr>)"

definition est_live :: "Conn \<Rightarrow> establishParams \<Rightarrow> Conn" where
  "est_live c ep =
     (let delay = (if ep_TsbpdDelay ep \<le> 0 then defaultTsbpdDelay else ep_TsbpdDelay ep);
          peerDelay = (if ep_PeerTsbpdDelay ep \<le> 0 then delay else ep_PeerTsbpdDelay ep);
          c = c\<lparr>c_tsbpdTimer := Some (tsbpd_New delay 0), c_negotiatedLatency := delay,
                c_negotiatedPeerLatency := peerDelay,
                c_recvBuf := SetOnDrop (SetOnRead (c_recvBuf c) True) True\<rparr> in
      if ep_TLPktDrop ep then
        let thr = peerDelay + ep_SndDropDelay ep * Millisecond;
            thr = (if thr < 1 * Second then 1 * Second else thr) in
        c\<lparr>c_tlPktDrop := True, c_dropBaseUS := peerDelay, c_sendDropThresh := thr + 20 * Millisecond\<rparr>
      else c)"

definition est_mode :: "Conn \<Rightarrow> establishParams \<Rightarrow> Conn" where
  "est_mode c ep =
     (if ep_Live ep then est_live c ep
      else if ep_Message ep then c\<lparr>c_messageMode := True, c_recvBuf := SetMessageAPI (c_recvBuf c) True\<rparr>
      else c)"

definition est_crypto :: "Conn \<Rightarrow> establishParams \<Rightarrow> Conn" where
  "est_crypto c ep =
     (case ep_CryptoCtx ep of
        None \<Rightarrow> c
      | Some ctx \<Rightarrow>
          let ctx = (if cx_mode ctx = CipherGCM \<and> 0 < c_peerVersion c \<and> c_peerVersion c \<le> 0x010503
                     then SetGCM153 ctx True else ctx);
              pre = (if 0 < ep_KMRefreshRate ep
                        \<and> (ep_KMPreAnnounce ep = 0 \<or> ep_KMRefreshRate ep \<le> ep_KMPreAnnounce ep)
                     then ep_KMRefreshRate ep div 2 else ep_KMPreAnnounce ep) in
          c\<lparr>c_cryptoCtx := Some ctx, c_passphrase := ep_Passphrase ep,
            c_activeKey := (if ep_ActiveKey ep = EncryptionNone then EncryptionEven else ep_ActiveKey ep),
            c_sndKmState := kmStateSecured,
            c_rcvKmState := (if ep_HSv4AwaitKey ep then kmStateSecuring else kmStateSecured),
            c_kmRefreshRate := ep_KMRefreshRate ep, c_kmPreAnnounce := pre\<rparr>)"

definition est_filter :: "Conn \<Rightarrow> establishParams \<Rightarrow> Conn" where
  "est_filter c ep =
     (if ep_FilterConfig ep = [] then c
      else case ParseConfig init_registry (ep_FilterConfig ep) of
             Inl _ \<Rightarrow> c
           | Inr fcfg \<Rightarrow>
               c\<lparr>c_fecSender := Some (NewFECSender fcfg (ep_payload ep) (Value (ep_SendISN ep))),
                 c_fecReceiver := Some (NewFECReceiver fcfg (ep_payload ep) (Value (ep_RecvISN ep))),
                 c_fecARQLevel := ARQ fcfg\<rparr>)"

definition est_timers :: "Conn \<Rightarrow> Timestamp \<Rightarrow> establishParams \<Rightarrow> Conn" where
  "est_timers c now ep =
     (let c = c\<lparr>c_rexmitCount := 1, c_lastACKTime := now,
                c_periodicNAK := (ep_Congestion ep \<noteq> ''file'' \<and> \<not> ep_DisableNAKReport ep),
                c_peerNakReport := ep_PeerNakReport ep\<rparr>;
          c = (if 0 < ep_LossMaxTTL ep
               then c\<lparr>c_reorderTolerance := ep_LossMaxTTL ep, c_deferredLoss := Some []\<rparr> else c);
          c = c\<lparr>c_state := stateConnected\<rparr>;
          c = push_output c (SetTimer TimerACK (Timestamp_Add now synInterval));
          c = (if c_periodicNAK c then push_output c (SetTimer TimerNAK (Timestamp_Add now (nakInterval c))) else c);
          c = push_output c (SetTimer TimerEXP (Timestamp_Add now (rto c))) in
      if 0 < ep_PeerIdleTimeout ep then
        let c = c\<lparr>c_peerIdleTimeout := ep_PeerIdleTimeout ep, c_lastRecvTime := now, c_lastSentDataTime := now\<rparr>;
            c = push_output c (SetTimer TimerKeepalive (Timestamp_Add now keepaliveInterval)) in
        push_output c (SetTimer TimerPeerIdle (Timestamp_Add now (c_peerIdleTimeout c)))
      else c)"

definition establish :: "Conn \<Rightarrow> Timestamp \<Rightarrow> establishParams \<Rightarrow> Conn" where
  "establish c now ep =
     est_timers (est_filter (est_crypto (est_mode (est_buffers (est_link c now ep) now ep) ep) ep) ep) now ep"

text \<open>\<^verbatim>\<open>NewEstablished\<close> copies the fields of its configuration into the parameters; the peer is taken to report losses.\<close>

definition NewEstablished :: "establishParams \<Rightarrow> Timestamp \<Rightarrow> Conn" where
  "NewEstablished cfg now =
     establish zero_Conn now (cfg\<lparr>ep_PeerNakReport := True, ep_PeerVersion := 0, ep_SendBufCapacity := 0,
       ep_RecvBufCapacity := 0, ep_HSv4AwaitKey := False\<rparr>)"

section \<open>Features and negotiation\<close>

definition srtFeatureFlags :: "bool \<Rightarrow> bool \<Rightarrow> bool \<Rightarrow> bool \<Rightarrow> bool \<Rightarrow> u32" where
  "srtFeatureFlags live encrypted tlPktDrop periodicNAK byteStream =
     FlagRexmit OR (if live then FlagTSBPDSend OR FlagTSBPDRecv else 0) OR (if encrypted then FlagCrypt else 0)
     OR (if tlPktDrop then FlagTLPktDrop else 0) OR (if periodicNAK then FlagPeriodicNAK else 0)
     OR (if byteStream then FlagStream else 0)"

definition peerNakReportFromHS :: "CIFHandshake \<Rightarrow> bool" where
  "peerNakReportFromHS hs =
     (if \<not> HasHS hs then True
      else case SRTHS hs of None \<Rightarrow> True | Some e \<Rightarrow> SRTFlags e AND FlagPeriodicNAK \<noteq> 0)"

definition matchingCongestion :: "string \<Rightarrow> CIFHandshake \<Rightarrow> bool" where
  "matchingCongestion local hs =
     ((if local = [] then ''live'' else local) = (if HasCongestion hs then CongestionType hs else ''live''))"

definition peerVersionFromHS :: "CIFHandshake \<Rightarrow> u32" where
  "peerVersionFromHS hs = (if \<not> HasHS hs then 0 else case SRTHS hs of None \<Rightarrow> 0 | Some e \<Rightarrow> SRTVersion e)"

definition dial_srtFlags :: "dialState \<Rightarrow> u32" where
  "dial_srtFlags d =
     srtFeatureFlags (d_live d) (d_cryptoCtx d \<noteq> None) (d_tlPktDrop d)
       (d_cong d \<noteq> ''file'' \<and> \<not> d_disableNAKReport d) (\<not> d_live d \<and> \<not> d_message d)"

section \<open>The caller\<close>

definition arm_handshake :: "Conn \<Rightarrow> Timestamp \<Rightarrow> Packet \<Rightarrow> Conn" where
  "arm_handshake c now p =
     push_output (push_output c (SendPacket p True)) (SetTimer TimerHandshake (Timestamp_Add now handshakeRetryInterval))"

definition sendInduction :: "Conn \<Rightarrow> dialState \<Rightarrow> Timestamp \<Rightarrow> Conn" where
  "sendInduction c d now =
     arm_handshake c now (BuildInduction (d_socketID d) (Value (d_isn d)) (d_mss d) (d_fc d) None)"

definition dial_km :: "dialState \<Rightarrow> CIFKeyMaterial option" where
  "dial_km d =
     (case d_cryptoCtx d of
        None \<Rightarrow> None
      | Some ctx \<Rightarrow>
          (case MarshalKM ctx zero_KM (d_passphrase d) EncryptionEven of
             (_, Some _) \<Rightarrow> None | (km, None) \<Rightarrow> Some km))"

definition sendConclusion :: "Conn \<Rightarrow> dialState \<Rightarrow> Timestamp \<Rightarrow> Conn" where
  "sendConclusion c d now =
     arm_handshake c now
       (BuildConclusion (d_socketID d) (Value (d_isn d)) (d_mss d) (d_fc d) (d_cookie d) (d_streamID d)
          (d_recvLatMS d) (d_sendLatMS d) (dial_srtFlags d) (d_cong d) (d_filterCfg d)
          (d_groupID d) (d_groupType d) (d_groupWeight d) None (dial_km d))"

definition sendConclusionV4 :: "Conn \<Rightarrow> dialState \<Rightarrow> Timestamp \<Rightarrow> Conn" where
  "sendConclusionV4 c d now =
     arm_handshake c now
       (BuildConclusionV4 (d_socketID d) (Value (d_isn d)) (d_mss d) (d_fc d) (d_cookie d) None)"

text \<open>\<^verbatim>\<open>DialConfig\<close> has the fields of the dial state that the caller sets; \<^verbatim>\<open>Dial\<close> fills in the defaults.\<close>

definition Dial :: "dialState \<Rightarrow> Timestamp \<Rightarrow> Conn" where
  "Dial dc now =
     (let d = dc\<lparr>d_mss := (if d_mss dc = 0 then 1500 else d_mss dc), d_fc := (if d_fc dc = 0 then 8192 else d_fc dc),
                d_recvLatMS := (if d_recvLatMS dc = 0 then 120 else d_recvLatMS dc),
                d_sendLatMS := (if d_sendLatMS dc = 0 then 120 else d_sendLatMS dc),
                d_cong := (if d_cong dc = [] then ''live'' else d_cong dc), d_cookie := 0, d_hsv4 := False\<rparr> in
      sendInduction (zero_Conn\<lparr>c_state := stateInduction, c_dial := Some d\<rparr>) d now)"

definition handleInductionResponse :: "Conn \<Rightarrow> Timestamp \<Rightarrow> CIFHandshake \<Rightarrow> Conn" where
  "handleInductionResponse c now hs =
     (case c_dial c of
        None \<Rightarrow> c
      | Some d \<Rightarrow>
          if HandshakeType hs \<noteq> HandshakeTypeInduction then c
          else if d_forceHSv4 d \<or> (Version hs = 4 \<and> ExtensionField hs = UDTV4Marker) then
            let d = d\<lparr>d_hsv4 := True, d_cookie := SynCookie hs\<rparr> in
            sendConclusionV4 (c\<lparr>c_dial := Some d, c_state := stateConclusion\<rparr>) d now
          else if Version hs \<noteq> 5 \<or> ExtensionField hs \<noteq> SRTMagic
          then fail c (NotHSv5 (Version hs) (ExtensionField hs))
          else
            let d = d\<lparr>d_cookie := SynCookie hs\<rparr> in
            sendConclusion (c\<lparr>c_dial := Some d, c_state := stateConclusion\<rparr>) d now)"

definition v5_params :: "dialState \<Rightarrow> CIFHandshake \<Rightarrow> establishParams" where
  "v5_params d hs =
     (let (recvLat, sendLat) =
            (case (if HasHS hs then SRTHS hs else None) of
               None \<Rightarrow> (d_recvLatMS d, d_sendLatMS d)
             | Some e \<Rightarrow> NegotiateLatency (d_recvLatMS d) (d_sendLatMS d) (RecvTSBPDDelay e) (SendTSBPDDelay e));
          fc = (if uint (MaxFlowWindowSize hs) < uint (d_fc d) then uint (MaxFlowWindowSize hs) else uint (d_fc d));
          filterCfg = (if HasFilter hs \<and> FilterConfig hs \<noteq> [] then FilterConfig hs else d_filterCfg d) in
      zero_establishParams\<lparr>
        ep_PeerSocketID := SRTSocketID hs, ep_PayloadSize := negotiatedPayloadSize (d_payloadSize d) (d_mss d) (d_cong d),
        ep_MSS := d_mss d, ep_SendISN := d_isn d, ep_RecvISN := InitialPacketSequenceNumber hs, ep_FlowWindow := fc,
        ep_BufferCapacity := d_bufferCapacity d, ep_SendBufCapacity := d_sendBufCapacity d,
        ep_RecvBufCapacity := d_recvBufCapacity d, ep_MaxBW := d_maxBW d, ep_InputBW := d_inputBW d,
        ep_MinInputBW := d_minInputBW d, ep_OverheadBW := d_overheadBW d, ep_Live := d_live d,
        ep_TsbpdDelay := uint recvLat * 1000, ep_PeerTsbpdDelay := uint sendLat * 1000, ep_Congestion := d_cong d,
        ep_Message := d_message d, ep_TLPktDrop := d_tlPktDrop d, ep_SndDropDelay := d_sndDropDelay d,
        ep_LossMaxTTL := d_lossMaxTTL d, ep_DisableNAKReport := d_disableNAKReport d,
        ep_PeerNakReport := peerNakReportFromHS hs, ep_PeerVersion := peerVersionFromHS hs,
        ep_PeerIdleTimeout := d_peerIdleTimeout d, ep_CryptoCtx := d_cryptoCtx d, ep_ActiveKey := EncryptionEven,
        ep_Passphrase := d_passphrase d, ep_KMRefreshRate := d_kmRefreshRate d, ep_KMPreAnnounce := d_kmPreAnnounce d,
        ep_FilterConfig := filterCfg\<rparr>)"

definition v4_params :: "dialState \<Rightarrow> CIFHandshake \<Rightarrow> establishParams" where
  "v4_params d hs =
     (let fc = (if uint (MaxFlowWindowSize hs) < uint (d_fc d) then uint (MaxFlowWindowSize hs) else uint (d_fc d)) in
      zero_establishParams\<lparr>
        ep_PeerSocketID := SRTSocketID hs, ep_PayloadSize := negotiatedPayloadSize (d_payloadSize d) (d_mss d) (d_cong d),
        ep_MSS := d_mss d, ep_SendISN := d_isn d, ep_RecvISN := InitialPacketSequenceNumber hs, ep_FlowWindow := fc,
        ep_BufferCapacity := d_bufferCapacity d, ep_MaxBW := d_maxBW d, ep_InputBW := d_inputBW d,
        ep_MinInputBW := d_minInputBW d, ep_OverheadBW := d_overheadBW d, ep_Live := False, ep_Message := True,
        ep_DisableNAKReport := d_disableNAKReport d, ep_PeerNakReport := True,
        ep_PeerIdleTimeout := d_peerIdleTimeout d, ep_CryptoCtx := d_cryptoCtx d, ep_ActiveKey := EncryptionEven,
        ep_Passphrase := d_passphrase d\<rparr>)"

definition initHSv4KM :: "Conn \<Rightarrow> Timestamp \<Rightarrow> Conn" where
  "initHSv4KM c now =
     (let c = c\<lparr>c_kmAnnounced := True, c_kmConfirmed := False, c_kmRetryKey := c_activeKey c,
                c_kmRetryCount := srtMaxKMRetry, c_sndKmState := kmStateSecuring\<rparr>;
          c = sendKMREQ c now (c_activeKey c) in
      push_output c (SetTimer TimerKMRefresh (Timestamp_Add now (kmRetryInterval c))))"

text \<open>The checks both versions share; the echo of the sequence number is waived for a member of a group.\<close>

definition refuse_conclusion :: "bool \<Rightarrow> dialState \<Rightarrow> CIFHandshake \<Rightarrow> conn_err option" where
  "refuse_conclusion check_echo d hs =
     (if InitialPacketSequenceNumber hs > Value Max then Some (ISNOutOfRange (InitialPacketSequenceNumber hs))
      else if check_echo \<and> InitialPacketSequenceNumber hs \<noteq> Value (d_isn d)
      then Some (ISNNotEchoed (InitialPacketSequenceNumber hs) (Value (d_isn d)))
      else if MaxFlowWindowSize hs < 2 then Some (FlowWindowTooSmall (MaxFlowWindowSize hs))
      else if MaxTransmissionUnitSize hs < 76 then Some (RejectError rejRogue)
      else None)"

definition handleConclusionResponseV4 :: "Conn \<Rightarrow> dialState \<Rightarrow> Timestamp \<Rightarrow> CIFHandshake \<Rightarrow> Conn" where
  "handleConclusionResponseV4 c d now hs =
     (if HandshakeType hs \<noteq> HandshakeTypeConclusion then c
      else case refuse_conclusion True d hs of
             Some err \<Rightarrow> fail c err
           | None \<Rightarrow>
               let d = d\<lparr>d_mss := min (d_mss d) (MaxTransmissionUnitSize hs)\<rparr>;
                   c = push_output c (ClearTimer TimerHandshake);
                   c = establish c now (v4_params d hs);
                   c = push_output c (SendPacket (BuildExtHSREQ (SRTSocketID hs) hs_SRTVersion 0 (d_recvLatMS d) None) True);
                   c = c\<lparr>c_dial := None\<rparr> in
               if d_cryptoCtx d \<noteq> None then initHSv4KM (c\<lparr>c_hsv4DeferConnect := True\<rparr>) now
               else push_event c (Connected (SRTSocketID hs)))"

definition handleConclusionResponse :: "Conn \<Rightarrow> Timestamp \<Rightarrow> CIFHandshake \<Rightarrow> Conn" where
  "handleConclusionResponse c now hs =
     (case c_dial c of
        None \<Rightarrow> c
      | Some d \<Rightarrow>
          if d_hsv4 d then handleConclusionResponseV4 c d now hs
          else if HandshakeType hs \<noteq> HandshakeTypeConclusion then c
          else case refuse_conclusion (d_groupID d = 0) d hs of
                 Some err \<Rightarrow> fail c err
               | None \<Rightarrow>
                   let d = d\<lparr>d_mss := min (d_mss d) (MaxTransmissionUnitSize hs)\<rparr>;
                       c = c\<lparr>c_dial := Some d\<rparr> in
                   if \<not> matchingCongestion (d_cong d) hs then fail c (RejectError rejCongestion)
                   else if d_cryptoCtx d \<noteq> None \<and> \<not> HasKM hs \<and> \<not> d_allowUnencFallback d then fail c NoKeyMaterial
                   else
                     let d = (if d_cryptoCtx d \<noteq> None \<and> \<not> HasKM hs then d\<lparr>d_cryptoCtx := None\<rparr> else d);
                         c = push_output c (ClearTimer TimerHandshake);
                         c = establish c now (v5_params d hs) in
                     push_event (c\<lparr>c_dial := None\<rparr>) (Connected (SRTSocketID hs)))"

definition handshakeRefused :: "Conn \<Rightarrow> Conn" where
  "handshakeRefused c = fail c HandshakeRefused"

section \<open>The post-handshake messages of HSv4\<close>

definition note_latency :: "Conn \<Rightarrow> u16 \<Rightarrow> Conn" where
  "note_latency c latency = (if 0 < latency then c\<lparr>c_negotiatedLatency := uint latency * Millisecond\<rparr> else c)"

definition handleHSv4HSREQ :: "Conn \<Rightarrow> Packet \<Rightarrow> Conn" where
  "handleHSv4HSREQ c p =
     (case ParseExtHSREQ (Data p) of
        Inl _ \<Rightarrow> c
      | Inr (_, _, latency) \<Rightarrow>
          let c = note_latency c latency in
          push_output c (SendPacket (BuildExtHSRSP (c_peerSocketID c) hs_SRTVersion 0 latency None) True))"

definition handleHSv4HSRSP :: "Conn \<Rightarrow> Packet \<Rightarrow> Conn" where
  "handleHSv4HSRSP c p =
     (case ParseExtHSREQ (Data p) of Inl _ \<Rightarrow> c | Inr (_, _, latency) \<Rightarrow> note_latency c latency)"

end
