(* ===== verification/Conn_Core.thy ===== *)
theory Conn_Core
  imports Conn_Handshake
begin

text \<open>
  The rendezvous handshake (\<^verbatim>\<open>rendezvous.go\<close>), the dispatch of handshake packets (\<^verbatim>\<open>handshake.go\<close>) and the two
  inputs of the connection core, \<^verbatim>\<open>HandlePacket\<close> and \<^verbatim>\<open>HandleTimer\<close> (\<^verbatim>\<open>conn.go\<close>).
\<close>

section \<open>Rendezvous decisions\<close>

text \<open>The contest of the two cookies, on 64-bit differences of 32-bit signed numbers.\<close>

definition rdvCookieContest :: "u32 \<Rightarrow> u32 \<Rightarrow> rdvSide" where
  "rdvCookieContest agentCookie peerCookie =
     (let agent = sint agentCookie; peer = sint peerCookie;
          contest = agent - peer in
      if contest AND 0xFFFFFFFF = 0 then rdvDraw
      else if contest AND 0x80000000 \<noteq> 0 then
        let revert = peer - agent in
        if revert AND 0x80000000 \<noteq> 0 \<and> agent > peer then rdvInitiator else rdvResponder
      else rdvInitiator)"

definition rdv_trans :: "rdvState \<Rightarrow> HandshakeType \<Rightarrow> bool \<Rightarrow> bool \<Rightarrow> rdvTransition" where
  "rdv_trans st rsp ext hsrsp = \<lparr> rt_newState = st, rt_rspType = rsp, rt_needsExt = ext, rt_needsHSRSP = hsrsp \<rparr>"

definition rdv_attention :: "HandshakeType \<Rightarrow> rdvSide \<Rightarrow> bool \<Rightarrow> rdvTransition" where
  "rdv_attention recvType side hasExtFlags =
     (if recvType = HandshakeTypeWavehand
      then rdv_trans rdvAttention HandshakeTypeConclusion (side = rdvInitiator) False
      else if recvType = HandshakeTypeConclusion then
        (case side of
           rdvInitiator \<Rightarrow>
             if \<not> hasExtFlags then rdv_trans rdvAttention HandshakeTypeConclusion True False
             else rdv_trans rdvConnected HandshakeTypeAgreement False False
         | rdvResponder \<Rightarrow>
             if \<not> hasExtFlags then rdv_trans rdvAttention HandshakeTypeConclusion False False
             else rdv_trans rdvInitiated HandshakeTypeConclusion True True
         | rdvDraw \<Rightarrow> rdv_trans rdvWaving rejRdvCookie False False)
      else if recvType = HandshakeTypeAgreement then
        if side = rdvInitiator then rdv_trans rdvConnected HandshakeTypeDone False False
        else rdv_trans rdvAttention HandshakeTypeConclusion True True
      else rdv_trans rdvWaving rejRogue False False)"

definition rdvSwitchState :: "rdvState \<Rightarrow> HandshakeType \<Rightarrow> rdvSide \<Rightarrow> bool \<Rightarrow> rdvTransition" where
  "rdvSwitchState st recvType side hasExtFlags =
     (case st of
        rdvWaving \<Rightarrow>
          if recvType = HandshakeTypeWavehand
          then rdv_trans rdvAttention HandshakeTypeConclusion (side = rdvInitiator) False
          else if recvType = HandshakeTypeConclusion
          then rdv_trans rdvFine HandshakeTypeConclusion True (side = rdvResponder)
          else rdv_trans rdvWaving rejRogue False False
      | rdvAttention \<Rightarrow> rdv_attention recvType side hasExtFlags
      | rdvFine \<Rightarrow>
          if recvType = HandshakeTypeConclusion then
            if side = rdvInitiator \<and> hasExtFlags then rdv_trans rdvConnected HandshakeTypeAgreement False False
            else rdv_trans rdvFine HandshakeTypeConclusion True (side = rdvResponder)
          else if recvType = HandshakeTypeAgreement then rdv_trans rdvConnected HandshakeTypeDone False False
          else rdv_trans rdvWaving rejRogue False False
      | rdvInitiated \<Rightarrow>
          if recvType = HandshakeTypeAgreement then rdv_trans rdvConnected HandshakeTypeDone False False
          else if recvType = HandshakeTypeConclusion then rdv_trans rdvInitiated HandshakeTypeConclusion True True
          else rdv_trans rdvWaving rejRogue False False
      | rdvConnected \<Rightarrow> rdv_trans rdvConnected HandshakeTypeDone False False)"

section \<open>The rendezvous handshake\<close>

definition sendWavehand :: "Conn \<Rightarrow> rdvDial \<Rightarrow> Conn" where
  "sendWavehand c d =
     push_output c (SendPacket
       (BuildWavehand (r_socketID d) (Value (r_isn d)) (r_mss d) (r_fc d) (r_cookie d) 0 None) True)"

definition DialRendezvous :: "rdvDial \<Rightarrow> Timestamp \<Rightarrow> Conn" where
  "DialRendezvous rc now =
     (let d = rc\<lparr>r_mss := (if r_mss rc = 0 then 1500 else r_mss rc), r_fc := (if r_fc rc = 0 then 8192 else r_fc rc),
                r_recvLatMS := (if r_recvLatMS rc = 0 then 120 else r_recvLatMS rc),
                r_sendLatMS := (if r_sendLatMS rc = 0 then 120 else r_sendLatMS rc),
                r_cong := (if r_cong rc = [] then ''live'' else r_cong rc),
                r_kmKey := 0, r_kmAdopted := False, r_rstate := rdvWaving, r_side := rdvDraw, r_peerSocketID := 0,
                r_peerISN := 0, r_peerFC := 0, r_negRecv := 0, r_negSend := 0, r_negotiated := False,
                r_lastTrans := zero_rdvTransition, r_haveTrans := False\<rparr>;
          c = sendWavehand (zero_Conn\<lparr>c_state := stateInduction, c_rdv := Some d\<rparr>) d in
      push_output c (SetTimer TimerHandshake (Timestamp_Add now handshakeRetryInterval)))"

text \<open>The key material of an extended conclusion; the initiator fixes its key slot.\<close>

definition rdv_km :: "rdvDial \<Rightarrow> rdvTransition \<Rightarrow> rdvDial \<times> CIFKeyMaterial option \<times> int" where
  "rdv_km d tr =
     (if rt_needsExt tr then
        case r_cryptoCtx d of
          None \<Rightarrow> (d, None, 0)
        | Some ctx \<Rightarrow>
            let slot = (if r_kmKey d = 0 then EncryptionEven else r_kmKey d);
                d = (if r_kmKey d = 0 \<and> r_side d = rdvInitiator then d\<lparr>r_kmKey := slot\<rparr> else d) in
            (case MarshalKM ctx zero_KM (r_passphrase d) slot of
               (_, Some _) \<Rightarrow> (d, None, 0)
             | (km, None) \<Rightarrow> (d, Some km, if r_keyLength d = 0 then 16 else r_keyLength d))
      else (d, None, 0))"

definition rendezvousEmit :: "Conn \<Rightarrow> rdvDial \<Rightarrow> rdvTransition \<Rightarrow> Conn" where
  "rendezvousEmit c d tr =
     (if rt_rspType tr = HandshakeTypeConclusion then
        case rdv_km d tr of
          (d, km, keyLen) \<Rightarrow>
            push_output (c\<lparr>c_rdv := Some d\<rparr>) (SendPacket
              (BuildRendezvousConclusion (r_socketID d) (Value (r_isn d)) (r_mss d) (r_fc d) (r_peerSocketID d)
                 (r_cookie d) (\<not> rt_needsHSRSP tr) (r_recvLatMS d) (r_sendLatMS d) 0 (r_cong d) (r_filterCfg d)
                 0 0 0 (r_streamID d) None km (rt_needsExt tr) keyLen) True)
      else if rt_rspType tr = HandshakeTypeAgreement then
        push_output c (SendPacket
          (BuildAgreement (r_socketID d) (Value (r_isn d)) (r_mss d) (r_fc d) (r_peerSocketID d) None) True)
      else c)"

definition rendezvousRetransmit :: "Conn \<Rightarrow> rdvDial \<Rightarrow> Timestamp \<Rightarrow> Conn" where
  "rendezvousRetransmit c d now =
     push_output (if r_haveTrans d then rendezvousEmit c d (r_lastTrans d) else sendWavehand c d)
       (SetTimer TimerHandshake (Timestamp_Add now handshakeRetryInterval))"

definition rdv_params :: "rdvDial \<Rightarrow> establishParams" where
  "rdv_params d =
     (let recvLat = (if r_negRecv d = 0 then r_recvLatMS d else r_negRecv d);
          sendLat = (if r_negSend d = 0 then r_sendLatMS d else r_negSend d);
          fc = (if 0 < r_peerFC d \<and> uint (r_peerFC d) < uint (r_fc d) then uint (r_peerFC d) else uint (r_fc d)) in
      zero_establishParams\<lparr>
        ep_PeerSocketID := r_peerSocketID d, ep_PayloadSize := negotiatedPayloadSize (r_payloadSize d) (r_mss d) (r_cong d),
        ep_MSS := r_mss d, ep_SendISN := r_isn d, ep_RecvISN := r_peerISN d, ep_FlowWindow := fc,
        ep_BufferCapacity := r_bufferCapacity d, ep_MaxBW := r_maxBW d, ep_InputBW := r_inputBW d,
        ep_MinInputBW := r_minInputBW d, ep_OverheadBW := r_overheadBW d, ep_Live := r_live d,
        ep_TsbpdDelay := uint recvLat * 1000, ep_PeerTsbpdDelay := uint sendLat * 1000, ep_Message := r_message d,
        ep_Congestion := r_cong d, ep_PeerIdleTimeout := r_peerIdleTimeout d, ep_CryptoCtx := r_cryptoCtx d,
        ep_ActiveKey := (if r_kmKey d = 0 then EncryptionEven else r_kmKey d), ep_Passphrase := r_passphrase d\<rparr>)"

definition rendezvousEstablish :: "Conn \<Rightarrow> rdvDial \<Rightarrow> Timestamp \<Rightarrow> Conn" where
  "rendezvousEstablish c d now =
     (let c = push_output c (ClearTimer TimerHandshake);
          c = establish c now (rdv_params d) in
      push_event (c\<lparr>c_rdv := None\<rparr>) (Connected (r_peerSocketID d)))"

text \<open>
  The parts of \<^verbatim>\<open>handleRendezvous\<close> before the transition; each may fail the connection with a code, in the
  state it has reached.
\<close>

definition rdv_learn_peer :: "rdvDial \<Rightarrow> CIFHandshake \<Rightarrow> rdvDial \<times> u32 option" where
  "rdv_learn_peer d hs =
     (if r_peerSocketID d = 0 \<and> SRTSocketID hs \<noteq> 0 then
        if MaxTransmissionUnitSize hs < 76 then (d, Some rejRogue)
        else (d\<lparr>r_mss := min (r_mss d) (MaxTransmissionUnitSize hs), r_peerSocketID := SRTSocketID hs,
                r_peerISN := InitialPacketSequenceNumber hs, r_peerFC := MaxFlowWindowSize hs\<rparr>, None)
      else (d, None))"

definition rdv_resolve :: "rdvDial \<Rightarrow> CIFHandshake \<Rightarrow> rdvDial \<times> u32 option" where
  "rdv_resolve d hs =
     (if r_side d = rdvDraw \<and> SynCookie hs \<noteq> 0 then
        let d = d\<lparr>r_side := rdvCookieContest (r_cookie d) (SynCookie hs)\<rparr> in
        (d, if r_side d = rdvDraw then Some rejRdvCookie else None)
      else (d, None))"

definition rdv_has_ext :: "CIFHandshake \<Rightarrow> bool" where
  "rdv_has_ext hs \<longleftrightarrow> HandshakeType hs = HandshakeTypeConclusion \<and> ExtensionField hs \<noteq> 0"

definition rdv_negotiate :: "rdvDial \<Rightarrow> CIFHandshake \<Rightarrow> rdvDial \<times> u32 option" where
  "rdv_negotiate d hs =
     (if rdv_has_ext hs \<and> \<not> matchingCongestion (r_cong d) hs then (d, Some rejCongestion)
      else case (if rdv_has_ext hs \<and> HasHS hs \<and> \<not> r_negotiated d then SRTHS hs else None) of
             None \<Rightarrow> (d, None)
           | Some e \<Rightarrow>
               (case NegotiateLatency (r_recvLatMS d) (r_sendLatMS d) (RecvTSBPDDelay e) (SendTSBPDDelay e) of
                  (nr, ns) \<Rightarrow> (d\<lparr>r_negRecv := nr, r_negSend := ns, r_negotiated := True\<rparr>, None)))"

definition rdv_adopt :: "rdvDial \<Rightarrow> CIFHandshake \<Rightarrow> rdvDial \<times> u32 option" where
  "rdv_adopt d hs =
     (case (if rdv_has_ext hs \<and> HasKM hs \<and> r_side d = rdvResponder \<and> \<not> r_kmAdopted d then SRTKM hs else None) of
        None \<Rightarrow> (d, None)
      | Some km \<Rightarrow>
          (case r_cryptoCtx d of
             None \<Rightarrow> (d, None)
           | Some ctx \<Rightarrow>
               (case UnmarshalKM ctx km (r_passphrase d) of
                  (ctx, Some _) \<Rightarrow> (d\<lparr>r_cryptoCtx := Some ctx\<rparr>, Some rejBadSecret)
                | (ctx, None) \<Rightarrow>
                    (d\<lparr>r_cryptoCtx := Some ctx, r_kmKey := km_KeyBasedEncryption km, r_kmAdopted := True\<rparr>, None))))"

definition rdv_prepare :: "rdvDial \<Rightarrow> CIFHandshake \<Rightarrow> rdvDial \<times> u32 option" where
  "rdv_prepare d hs =
     (case rdv_learn_peer d hs of
        (d, Some code) \<Rightarrow> (d, Some code)
      | (d, None) \<Rightarrow>
          (case rdv_resolve d hs of
             (d, Some code) \<Rightarrow> (d, Some code)
           | (d, None) \<Rightarrow>
               (case rdv_negotiate d hs of (d, Some code) \<Rightarrow> (d, Some code) | (d, None) \<Rightarrow> rdv_adopt d hs)))"

definition handleRendezvous :: "Conn \<Rightarrow> rdvDial \<Rightarrow> Timestamp \<Rightarrow> CIFHandshake \<Rightarrow> Conn" where
  "handleRendezvous c d now hs =
     (if HandshakeType hs = HandshakeTypeWavehand \<and> (r_rstate d = rdvFine \<or> r_rstate d = rdvInitiated)
      then rendezvousRetransmit c d now
      else case rdv_prepare d hs of
             (d, Some code) \<Rightarrow> fail (c\<lparr>c_rdv := Some d\<rparr>) (RejectError code)
           | (d, None) \<Rightarrow>
               let tr = rdvSwitchState (r_rstate d) (HandshakeType hs) (r_side d) (rdv_has_ext hs) in
               if IsRejection (rt_rspType tr) then fail (c\<lparr>c_rdv := Some d\<rparr>) (RejectError (rt_rspType tr))
               else
                 let d = d\<lparr>r_rstate := rt_newState tr, r_lastTrans := tr, r_haveTrans := True\<rparr>;
                     c = rendezvousEmit (c\<lparr>c_rdv := Some d\<rparr>) d tr in
                 (case c_rdv c of
                    None \<Rightarrow> c
                  | Some d \<Rightarrow>
                      if r_rstate d = rdvConnected then rendezvousEstablish c d now
                      else push_output c (SetTimer TimerHandshake (Timestamp_Add now handshakeRetryInterval))))"

section \<open>Handshake packets and the handshake timer\<close>

definition handleHandshake :: "Conn \<Rightarrow> Timestamp \<Rightarrow> Packet \<Rightarrow> Conn" where
  "handleHandshake c now p =
     (case Packet_UnmarshalCIF HS_UnmarshalCIF p zero_HS of
        (_, Some _) \<Rightarrow> c
      | (hs, None) \<Rightarrow>
          if IsRejection (HandshakeType hs) then fail c (RejectError (HandshakeType hs))
          else case c_rdv c of
                 Some d \<Rightarrow> handleRendezvous c d now hs
               | None \<Rightarrow>
                   (case c_state c of
                      stateInduction \<Rightarrow> handleInductionResponse c now hs
                    | stateConclusion \<Rightarrow> handleConclusionResponse c now hs
                    | stateConnected \<Rightarrow> c
                    | stateFailed \<Rightarrow> c))"

definition handleHandshakeTimer :: "Conn \<Rightarrow> Timestamp \<Rightarrow> Conn" where
  "handleHandshakeTimer c now =
     (case c_rdv c of
        Some d \<Rightarrow> rendezvousRetransmit c d now
      | None \<Rightarrow>
          (case c_dial c of
             None \<Rightarrow> c
           | Some d \<Rightarrow>
               (case c_state c of
                  stateInduction \<Rightarrow> sendInduction c d now
                | stateConclusion \<Rightarrow> if d_hsv4 d then sendConclusionV4 c d now else sendConclusion c d now
                | stateConnected \<Rightarrow> c
                | stateFailed \<Rightarrow> c)))"

section \<open>Inputs\<close>

definition handle_keepalive :: "Conn \<Rightarrow> Timestamp \<Rightarrow> Packet \<Rightarrow> Conn" where
  "handle_keepalive c now p =
     (let ts = Timestamp (Header p) in
      c\<lparr>c_groupIdle := True,
        c_tsbpdTimer := map_option (\<lambda>t. tsbpd_OnACK (UpdateWrap t ts) ts now (-1)) (c_tsbpdTimer c)\<rparr>)"

definition handle_ext :: "Conn \<Rightarrow> Timestamp \<Rightarrow> Packet \<Rightarrow> Conn" where
  "handle_ext c now p =
     (let sub = SubType (Header p) in
      if sub = ExtTypeKMReq then handleKMRequest c now p
      else if sub = ExtTypeKMRsp then handleKMResponse c p
      else if sub = ExtTypeHSReq then handleHSv4HSREQ c p
      else if sub = ExtTypeHSRsp then handleHSv4HSRSP c p
      else c)"

definition handle_control :: "entropy \<Rightarrow> Conn \<Rightarrow> Timestamp \<Rightarrow> Packet \<Rightarrow> Conn" where
  "handle_control en c now p =
     (let ct = ControlType (Header p) in
      if ct = CtrlTypeACK then handleACK en c now p
      else if ct = CtrlTypeNAK then handleNAK en c now p
      else if ct = CtrlTypeACKACK then handleACKACK c now p
      else if ct = CtrlTypeDropReq then handleDropReq c now p
      else if ct = CtrlTypeUser then handle_ext c now p
      else if ct = CtrlTypeKeepalive then handle_keepalive c now p
      else if ct = CtrlTypeShutdown then push_event (c\<lparr>c_closed := True\<rparr>) Closed
      else c)"

definition HandlePacket :: "entropy \<Rightarrow> Conn \<Rightarrow> Timestamp \<Rightarrow> Packet \<Rightarrow> Conn" where
  "HandlePacket en c now p =
     (let c = c\<lparr>c_lastNow := now\<rparr> in
      if c_closed c then c
      else if IsControl (Header p) \<and> ControlType (Header p) = CtrlTypeHandshake then handleHandshake c now p
      else if c_state c \<noteq> stateConnected then
        if c_dial c \<noteq> None \<and> IsControl (Header p) \<and> ControlType (Header p) = CtrlTypeShutdown
        then handshakeRefused c else c
      else
        let c = (if 0 < c_peerIdleTimeout c then c\<lparr>c_lastRecvTime := now\<rparr> else c) in
        if IsControl (Header p) then handle_control en c now p else handleData c now p)"

definition HandleTimer :: "entropy \<Rightarrow> Conn \<Rightarrow> Timestamp \<Rightarrow> TimerID \<Rightarrow> Conn" where
  "HandleTimer en c now tid =
     (let c = (sampleInputBandwidth c now)\<lparr>c_lastNow := now\<rparr> in
      if c_closed c then c
      else case tid of
        TimerACK \<Rightarrow>
          let c = push_output (sendFullACK c now) (SetTimer TimerACK (Timestamp_Add now synInterval)) in
          if 0 < c_sendDropThresh c \<or> c_msgTTLActive c then pump en c now else c
      | TimerNAK \<Rightarrow>
          if \<not> c_periodicNAK c then c
          else
            let c = (if c_fecReceiver c = None \<or> c_fecARQLevel c = ARQAlways then sendPeriodicNAK c now else c) in
            push_output c (SetTimer TimerNAK (Timestamp_Add now (nakInterval c)))
      | TimerSndPacing \<Rightarrow> pump en c now
      | TimerTSBPD \<Rightarrow> if c_tsbpdTimer c \<noteq> None then deliverTSBPD c now else c
      | TimerHandshake \<Rightarrow> handleHandshakeTimer c now
      | TimerKMRefresh \<Rightarrow> retryKMREQ c now
      | TimerKeepalive \<Rightarrow> checkKeepalive c now
      | TimerPeerIdle \<Rightarrow> checkPeerIdle c now
      | TimerEXP \<Rightarrow> handleEXP c now
      | TimerLinger \<Rightarrow> c)"

section \<open>Statistics\<close>

text \<open>The counters of the host (the \<^verbatim>\<open>App\<close> fields) are not set here and are left out.\<close>

record Stats =
  st_RecvDroppedBytes :: u64
  st_MaxBW :: int
  st_SentPackets :: u64
  st_SentBytes :: u64
  st_SentUniquePackets :: u64
  st_SentUniqueBytes :: u64
  st_RetransPackets :: u64
  st_RetransBytes :: u64
  st_RecvPackets :: u64
  st_RecvBytes :: u64
  st_RecvUniquePackets :: u64
  st_RecvUniqueBytes :: u64
  st_RecvRetrans :: u64
  st_RecvRetransBytes :: u64
  st_RecvLoss :: u64
  st_LostPackets :: u64
  st_RecvDropped :: u64
  st_RecvUndecrypt :: u64
  st_SentDropped :: u64
  st_SentDroppedBytes :: u64
  st_SentACKs :: u64
  st_SentNAKs :: u64
  st_SentACKACKs :: u64
  st_RecvACKs :: u64
  st_RecvNAKs :: u64
  st_RecvACKACKs :: u64
  st_SentFEC :: u64
  st_RecvFECRecov :: u64
  st_SentKM :: u64
  st_RecvKM :: u64
  st_SndKmState :: int
  st_RcvKmState :: int
  st_RTTMicros :: int
  st_RTTVarMicros :: int
  st_FlightSize :: int
  st_FlowWindow :: int
  st_CongestionWindow :: int
  st_SendBufPackets :: int
  st_SendBufAvailable :: int
  st_RecvBufPackets :: int
  st_RecvBufAvailable :: int
  st_PacketRecvRate :: u32
  st_EstimatedBandwidth :: u32
  st_PktSndPeriodMicros :: int
  st_PayloadSize :: int
  st_NegotiatedMSS :: u32
  st_PeerLatency :: Microseconds
  st_NegotiatedLatency :: Microseconds
  st_DriftMicros :: Microseconds
  st_PeerNakReport :: bool
  st_RecvBelated :: u64
  st_RecvBelatedBytes :: u64
  st_AvgBelatedMicros :: Microseconds
  st_ReorderDistance :: int
  st_PeerVersion :: u32
  st_SendISN :: u32
  st_RecvISN :: u32
  st_MsSndBuf :: Microseconds
  st_MsRcvBuf :: Microseconds

definition conn_Stats :: "Conn \<Rightarrow> Stats" where
  "conn_Stats c =
     \<lparr> st_RecvDroppedBytes = c_recvDropped c * word_of_int (c_payloadSize c),
       st_MaxBW = (if c_up c then MaxBandwidth (c_sendCC c) else 0),
       st_SentPackets = c_sentPackets c + c_retransPackets c,
       st_SentBytes = c_sentBytes c + c_retransBytes c,
       st_SentUniquePackets = c_sentPackets c,
       st_SentUniqueBytes = c_sentBytes c,
       st_RetransPackets = c_retransPackets c,
       st_RetransBytes = c_retransBytes c,
       st_RecvPackets = c_recvWirePackets c,
       st_RecvBytes = c_recvWireBytes c,
       st_RecvUniquePackets = c_recvPackets c,
       st_RecvUniqueBytes = c_recvBytes c,
       st_RecvRetrans = c_recvRetrans c,
       st_RecvRetransBytes = c_recvRetransBytes c,
       st_RecvLoss = c_recvLoss c,
       st_LostPackets = c_lostPackets c,
       st_RecvDropped = c_recvDropped c,
       st_RecvUndecrypt = c_recvUndecrypt c,
       st_SentDropped = c_sentDropped c,
       st_SentDroppedBytes = c_sentDroppedBytes c,
       st_SentACKs = c_sentACKs c,
       st_SentNAKs = c_sentNAKs c,
       st_SentACKACKs = c_sentACKACKs c,
       st_RecvACKs = c_recvACKs c,
       st_RecvNAKs = c_recvNAKs c,
       st_RecvACKACKs = c_recvACKACKs c,
       st_SentFEC = c_sentFEC c,
       st_RecvFECRecov = c_recvFECRecov c,
       st_SentKM = c_sentKM c,
       st_RecvKM = c_recvKM c,
       st_SndKmState = c_sndKmState c,
       st_RcvKmState = c_rcvKmState c,
       st_RTTMicros = c_rtt c,
       st_RTTVarMicros = c_rttVar c,
       st_FlightSize = (if c_up c then sb_Size (c_sendBuf c) else 0),
       st_FlowWindow = c_flowWindow c,
       st_CongestionWindow = (if c_up c then conn_window c else 0),
       st_SendBufPackets = (if c_up c then sb_Size (c_sendBuf c) else 0),
       st_SendBufAvailable = (if c_up c then sb_Available (c_sendBuf c) else 0),
       st_RecvBufPackets = (if c_up c then RecvSize (c_recvBuf c) else 0),
       st_RecvBufAvailable = (if c_up c then AvailableSize (c_recvBuf c) (ACKSequence (c_recvBuf c)) else 0),
       st_PacketRecvRate = (if c_up c then fst (DeliveryRate (c_sendCC c)) else 0),
       st_EstimatedBandwidth = (if c_up c then EstimatedBandwidth (c_sendCC c) else 0),
       st_PktSndPeriodMicros = (if c_up c then PacketInterval (c_sendCC c) else 0),
       st_PayloadSize = c_payloadSize c,
       st_NegotiatedMSS = c_negotiatedMSS c,
       st_PeerLatency = c_negotiatedPeerLatency c,
       st_NegotiatedLatency = c_negotiatedLatency c,
       st_DriftMicros = (case c_tsbpdTimer c of None \<Rightarrow> 0 | Some t \<Rightarrow> DriftOffset t),
       st_PeerNakReport = c_peerNakReport c,
       st_RecvBelated = c_recvBelated c,
       st_RecvBelatedBytes = c_recvBelatedBytes c,
       st_AvgBelatedMicros = f_to_int (c_recvAvgBelatedUS c),
       st_ReorderDistance = c_recvReorderDist c,
       st_PeerVersion = c_peerVersion c,
       st_SendISN = Value (c_sndISN c),
       st_RecvISN = Value (c_rcvISN c),
       st_MsSndBuf = (let oldest = OldestSentAt (c_sendBuf c) in if c_up c \<and> oldest \<noteq> 0 \<and> oldest < c_lastNow c then Timestamp_Sub (c_lastNow c) oldest else 0),
       st_MsRcvBuf = (if c_up c then BufferedTimeSpan (c_recvBuf c) else 0) \<rparr>"

end
