(* ===== verification/Listener.thy ===== *)
theory Listener
  imports Conn_Core
begin

text \<open>
  The listener (\<^verbatim>\<open>listener.go\<close>): the stateless induction with its keyed cookie, the conclusion that accepts a
  connection, and the legacy HSv4 conclusion. The host's accept gate and its factory of crypto contexts
  are functions held by the listener; the random number of an accepted socket is an argument. A crypto
  context is shared with the connection that was accepted with it: when a response is built again, the
  argument \<open>cur\<close> gives its present contents.
\<close>

section \<open>State\<close>

type_synonym PeerID = string

record ListenerConfig =
  lc_MSS :: u32
  lc_RecvLatencyMS :: u16
  lc_SendLatencyMS :: u16
  lc_Congestion :: string
  lc_Live :: bool
  lc_Message :: bool
  lc_TLPktDrop :: bool
  lc_SndDropDelay :: int
  lc_LossMaxTTL :: int
  lc_DisableNAKReport :: bool
  lc_PeerIdleTimeout :: Microseconds
  lc_MaxBW :: int
  lc_InputBW :: int
  lc_MinInputBW :: int
  lc_OverheadBW :: int
  lc_PayloadSize :: int
  lc_BufferCapacity :: int
  lc_SendBufCapacity :: int
  lc_RecvBufCapacity :: int
  lc_Passphrase :: bytes
  lc_KeyLength :: int
  lc_CryptoMode :: int
  lc_AllowUnencryptedFallback :: bool
  lc_KMRefreshRate :: u64
  lc_KMPreAnnounce :: u64
  lc_FilterConfig :: string

record AcceptRequest =
  ar_Peer :: PeerID
  ar_StreamID :: string
  ar_HSVersion :: u32
  ar_GroupID :: u32
  ar_GroupType :: u8

datatype ListenerOutput = SendTo PeerID Packet

record Accepted_ev =
  av_Conn :: Conn
  av_Peer :: PeerID
  av_SocketID :: u32
  av_StreamID :: string
  av_GroupID :: u32
  av_GroupType :: u8
  av_GroupWeight :: u16
  av_SharedISN :: Number

datatype ListenerEvent = Accepted Accepted_ev

record acceptedConn =
  ac_socketID :: u32
  ac_isn :: Number
  ac_mss :: u32
  ac_fc :: u32
  ac_recvLat :: u16
  ac_sendLat :: u16
  ac_filterCfg :: string
  ac_cryptoCtx :: "Context option"
  ac_kmKey :: PacketEncryption
  ac_groupID :: u32
  ac_groupType :: u8
  ac_groupWeight :: u16

record Listener =
  l_cfg :: ListenerConfig
  l_cookieSecret :: u64
  l_newCtx :: "(int \<Rightarrow> CipherMode \<Rightarrow> crypto_err + Context) option"
  l_accepted :: "PeerID \<rightharpoonup> acceptedConn"
  l_groups :: "u32 \<rightharpoonup> Number"
  l_gate :: "(AcceptRequest \<Rightarrow> bool \<times> u32) option"
  l_outputs :: "ListenerOutput fifo"
  l_events :: "ListenerEvent fifo"

definition SetAcceptGate :: "Listener \<Rightarrow> (AcceptRequest \<Rightarrow> bool \<times> u32) \<Rightarrow> Listener" where
  "SetAcceptGate l fn = l\<lparr>l_gate := Some fn\<rparr>"

definition NewListener ::
    "ListenerConfig \<Rightarrow> u64 \<Rightarrow> (int \<Rightarrow> CipherMode \<Rightarrow> crypto_err + Context) option \<Rightarrow> Listener" where
  "NewListener cfg cookieSecret newCtx =
     (let cfg = cfg\<lparr>lc_MSS := (if lc_MSS cfg = 0 then 1500 else lc_MSS cfg),
                    lc_RecvLatencyMS := (if lc_RecvLatencyMS cfg = 0 then 120 else lc_RecvLatencyMS cfg),
                    lc_SendLatencyMS := (if lc_SendLatencyMS cfg = 0 then 120 else lc_SendLatencyMS cfg),
                    lc_Congestion := (if lc_Congestion cfg = [] then ''live'' else lc_Congestion cfg)\<rparr> in
      \<lparr> l_cfg = cfg, l_cookieSecret = cookieSecret, l_newCtx = newCtx, l_accepted = Map.empty,
        l_groups = Map.empty, l_gate = None, l_outputs = fifo_empty, l_events = fifo_empty \<rparr>)"

definition listener_PollOutput :: "Listener \<Rightarrow> Listener \<times> ListenerOutput option" where
  "listener_PollOutput l = (case fifo_pop (l_outputs l) of (q, v) \<Rightarrow> (l\<lparr>l_outputs := q\<rparr>, v))"

definition listener_PollEvent :: "Listener \<Rightarrow> Listener \<times> ListenerEvent option" where
  "listener_PollEvent l = (case fifo_pop (l_events l) of (q, v) \<Rightarrow> (l\<lparr>l_events := q\<rparr>, v))"

definition send_to :: "Listener \<Rightarrow> PeerID \<Rightarrow> Packet \<Rightarrow> Listener" where
  "send_to l peer p = l\<lparr>l_outputs := fifo_push (l_outputs l) (SendTo peer p)\<rparr>"

section \<open>Cookie\<close>

text \<open>The 32-bit FNV-1a hash of the standard library.\<close>

definition fnv32a :: "bytes \<Rightarrow> u32" where
  "fnv32a bs = foldl (\<lambda>h b. (h XOR ucast b) * 16777619) 2166136261 bs"

definition cookie :: "Listener \<Rightarrow> PeerID \<Rightarrow> u32" where
  "cookie l peer =
     (let c = fnv32a (put_be64 (l_cookieSecret l) @ map byte_of_char peer) in if c = 0 then 1 else c)"

section \<open>Responses\<close>

definition listener_srtFlags :: "ListenerConfig \<Rightarrow> bool \<Rightarrow> u32" where
  "listener_srtFlags cfg encrypted =
     srtFeatureFlags (lc_Live cfg) encrypted (lc_TLPktDrop cfg)
       (lc_Congestion cfg \<noteq> ''file'' \<and> \<not> lc_DisableNAKReport cfg) (\<not> lc_Live cfg \<and> \<not> lc_Message cfg)"

definition buildConclusionResponse :: "Listener \<Rightarrow> acceptedConn \<Rightarrow> u32 \<Rightarrow> Packet" where
  "buildConclusionResponse l a callerSocketID =
     (let km = (case ac_cryptoCtx a of
                  None \<Rightarrow> None
                | Some ctx \<Rightarrow>
                    (case MarshalKM ctx zero_KM (lc_Passphrase (l_cfg l)) (ac_kmKey a) of
                       (_, Some _) \<Rightarrow> None | (km, None) \<Rightarrow> Some km)) in
      BuildConclusionResponse (ac_socketID a) (Value (ac_isn a)) (ac_mss a) (ac_fc a) callerSocketID
        (ac_recvLat a) (ac_sendLat a) (listener_srtFlags (l_cfg l) (ac_cryptoCtx a \<noteq> None))
        (lc_Congestion (l_cfg l)) (ac_filterCfg a) 0 0 0 None km)"

definition reject :: "Listener \<Rightarrow> PeerID \<Rightarrow> u32 \<Rightarrow> u32 \<Rightarrow> Listener" where
  "reject l peer callerSocketID code =
     (let p = NewControl None CtrlTypeHandshake callerSocketID 0 in
      case snd (HS_MarshalCIF (zero_HS\<lparr>Version := 5, HandshakeType := code, SRTSocketID := 0\<rparr>)) of
        Inl _ \<Rightarrow> l
      | Inr body \<Rightarrow> send_to l peer (SetData p body))"

definition handleInduction :: "Listener \<Rightarrow> PeerID \<Rightarrow> CIFHandshake \<Rightarrow> Listener" where
  "handleInduction l peer hs = send_to l peer (BuildInductionResponse hs (cookie l peer) None None 0)"

section \<open>Accepting\<close>

text \<open>The verdict of the gate: \<open>None\<close> to accept, else the code to reject with.\<close>

definition gate_verdict :: "Listener \<Rightarrow> AcceptRequest \<Rightarrow> u32 option" where
  "gate_verdict l req =
     (case l_gate l of
        None \<Rightarrow> None
      | Some g \<Rightarrow> (case g req of (ok, code) \<Rightarrow> if ok then None else Some (if code = 0 then rejPeer else code)))"

text \<open>Encryption: a rejection code, or the context and the key slot to use.\<close>

definition negotiate_crypto :: "Listener \<Rightarrow> CIFHandshake \<Rightarrow> u32 + (Context option \<times> PacketEncryption)" where
  "negotiate_crypto l hs =
     (let cfg = l_cfg l; offered = (if HasKM hs then SRTKM hs else None) in
      if lc_Passphrase cfg \<noteq> [] then
        (case offered of
           None \<Rightarrow> if lc_AllowUnencryptedFallback cfg then Inr (None, 0) else Inl rejUnsecure
         | Some km \<Rightarrow>
             (case l_newCtx l of
                None \<Rightarrow> Inl rejUnsecure
              | Some newCtx \<Rightarrow>
                  let keyLen = (if km_KLen km = 0 then 16 else uint (km_KLen km));
                      mode = (if km_Cipher km = CipherGCM then CipherGCM else CipherCTR) in
                  (case newCtx keyLen mode of
                     Inl _ \<Rightarrow> Inl rejBadSecret
                   | Inr ctx \<Rightarrow>
                       (case UnmarshalKM ctx km (lc_Passphrase cfg) of
                          (_, Some _) \<Rightarrow> Inl rejBadSecret
                        | (ctx, None) \<Rightarrow> Inr (Some ctx, km_KeyBasedEncryption km)))))
      else if offered \<noteq> None
      then (if lc_AllowUnencryptedFallback cfg then Inr (None, 0) else Inl rejUnsecure)
      else Inr (None, 0))"

definition join_group :: "Listener \<Rightarrow> CIFHandshake \<Rightarrow> acceptedConn \<Rightarrow> Listener \<times> acceptedConn" where
  "join_group l hs a =
     (if HasGroup hs \<and> GroupID hs \<noteq> 0 then
        let (l, a) = (case l_groups l (GroupID hs) of
                        Some shared \<Rightarrow> (l, a\<lparr>ac_isn := shared\<rparr>)
                      | None \<Rightarrow> (l\<lparr>l_groups := (l_groups l)(GroupID hs \<mapsto> ac_isn a)\<rparr>, a)) in
        (l, a\<lparr>ac_groupID := GroupID hs, ac_groupType := GroupType hs, ac_groupWeight := GroupWeight hs\<rparr>)
      else (l, a))"

definition accept_params :: "ListenerConfig \<Rightarrow> acceptedConn \<Rightarrow> CIFHandshake \<Rightarrow> establishParams" where
  "accept_params cfg a hs =
     zero_establishParams\<lparr>
       ep_PeerSocketID := SRTSocketID hs,
       ep_PayloadSize := negotiatedPayloadSize (lc_PayloadSize cfg) (ac_mss a) (lc_Congestion cfg), ep_MSS := ac_mss a,
       ep_SendISN := ac_isn a, ep_RecvISN := InitialPacketSequenceNumber hs, ep_FlowWindow := uint (ac_fc a),
       ep_BufferCapacity := lc_BufferCapacity cfg, ep_SendBufCapacity := lc_SendBufCapacity cfg,
       ep_RecvBufCapacity := lc_RecvBufCapacity cfg, ep_MaxBW := lc_MaxBW cfg, ep_InputBW := lc_InputBW cfg,
       ep_MinInputBW := lc_MinInputBW cfg, ep_OverheadBW := lc_OverheadBW cfg, ep_Live := lc_Live cfg,
       ep_TsbpdDelay := uint (ac_recvLat a) * 1000, ep_PeerTsbpdDelay := uint (ac_sendLat a) * 1000,
       ep_Congestion := lc_Congestion cfg, ep_Message := lc_Message cfg, ep_TLPktDrop := lc_TLPktDrop cfg,
       ep_SndDropDelay := lc_SndDropDelay cfg, ep_LossMaxTTL := lc_LossMaxTTL cfg,
       ep_DisableNAKReport := lc_DisableNAKReport cfg, ep_PeerNakReport := peerNakReportFromHS hs,
       ep_PeerVersion := peerVersionFromHS hs, ep_PeerIdleTimeout := lc_PeerIdleTimeout cfg,
       ep_CryptoCtx := ac_cryptoCtx a, ep_ActiveKey := EncryptionEven, ep_Passphrase := lc_Passphrase cfg,
       ep_KMRefreshRate := lc_KMRefreshRate cfg, ep_KMPreAnnounce := lc_KMPreAnnounce cfg,
       ep_FilterConfig := ac_filterCfg a\<rparr>"

definition accept :: "Listener \<Rightarrow> u32 \<Rightarrow> Timestamp \<Rightarrow> PeerID \<Rightarrow> CIFHandshake \<Rightarrow> CIFHandshakeExtension
    \<Rightarrow> Context option \<Rightarrow> PacketEncryption \<Rightarrow> Listener" where
  "accept l rnd now peer hs ext ctx kmKey =
     (let cfg = l_cfg l;
          (recvLat, sendLat) = NegotiateLatency (lc_RecvLatencyMS cfg) (lc_SendLatencyMS cfg)
                                 (RecvTSBPDDelay ext) (SendTSBPDDelay ext);
          a = \<lparr> ac_socketID = rnd OR 1, ac_isn = InitialPacketSequenceNumber hs,
                ac_mss = min (lc_MSS cfg) (MaxTransmissionUnitSize hs), ac_fc = MaxFlowWindowSize hs,
                ac_recvLat = recvLat, ac_sendLat = sendLat,
                ac_filterCfg = (if HasFilter hs \<and> FilterConfig hs \<noteq> [] then FilterConfig hs else lc_FilterConfig cfg),
                ac_cryptoCtx = ctx, ac_kmKey = kmKey, ac_groupID = 0, ac_groupType = 0, ac_groupWeight = 0 \<rparr>;
          (l, a) = join_group l hs a;
          l = l\<lparr>l_accepted := (l_accepted l)(peer \<mapsto> a)\<rparr>;
          l = send_to l peer (buildConclusionResponse l a (SRTSocketID hs));
          conn = establish zero_Conn now (accept_params cfg a hs) in
      l\<lparr>l_events := fifo_push (l_events l) (Accepted
           \<lparr> av_Conn = conn, av_Peer = peer, av_SocketID = ac_socketID a, av_StreamID = StreamID hs,
             av_GroupID = ac_groupID a, av_GroupType = ac_groupType a, av_GroupWeight = ac_groupWeight a,
             av_SharedISN = ac_isn a \<rparr>)\<rparr>)"

text \<open>The legacy conclusion: the crypto context to await keys in, or a rejection code.\<close>

definition v4_context :: "Listener \<Rightarrow> u32 + Context option" where
  "v4_context l =
     (let cfg = l_cfg l in
      if lc_Passphrase cfg = [] then Inr None
      else case l_newCtx l of
             None \<Rightarrow> Inl rejUnsecure
           | Some newCtx \<Rightarrow>
               (case newCtx (if lc_KeyLength cfg = 0 then 16 else lc_KeyLength cfg)
                       (if lc_CryptoMode cfg = 2 then CipherGCM else CipherCTR) of
                  Inl _ \<Rightarrow> Inl rejUnsecure | Inr ctx \<Rightarrow> Inr (Some ctx)))"

definition v4_response :: "acceptedConn \<Rightarrow> u32 \<Rightarrow> Packet" where
  "v4_response a callerSocketID =
     BuildConclusionResponseV4 (ac_socketID a) (Value (ac_isn a)) (ac_mss a) (ac_fc a) callerSocketID None"

definition accept_v4 :: "Listener \<Rightarrow> u32 \<Rightarrow> Timestamp \<Rightarrow> PeerID \<Rightarrow> CIFHandshake \<Rightarrow> Context option \<Rightarrow> Listener" where
  "accept_v4 l rnd now peer hs ctx =
     (let cfg = l_cfg l;
          a = \<lparr> ac_socketID = rnd OR 1, ac_isn = InitialPacketSequenceNumber hs,
                ac_mss = min (lc_MSS cfg) (MaxTransmissionUnitSize hs), ac_fc = MaxFlowWindowSize hs,
                ac_recvLat = lc_RecvLatencyMS cfg, ac_sendLat = lc_SendLatencyMS cfg, ac_filterCfg = [],
                ac_cryptoCtx = None, ac_kmKey = 0, ac_groupID = 0, ac_groupType = 0, ac_groupWeight = 0 \<rparr>;
          l = l\<lparr>l_accepted := (l_accepted l)(peer \<mapsto> a)\<rparr>;
          l = send_to l peer (v4_response a (SRTSocketID hs));
          conn = establish zero_Conn now (zero_establishParams\<lparr>
            ep_PeerSocketID := SRTSocketID hs,
            ep_PayloadSize := negotiatedPayloadSize (lc_PayloadSize cfg) (ac_mss a) (lc_Congestion cfg),
            ep_MSS := ac_mss a, ep_SendISN := ac_isn a, ep_RecvISN := InitialPacketSequenceNumber hs,
            ep_FlowWindow := uint (ac_fc a), ep_BufferCapacity := lc_BufferCapacity cfg,
            ep_SendBufCapacity := lc_SendBufCapacity cfg, ep_RecvBufCapacity := lc_RecvBufCapacity cfg,
            ep_MaxBW := lc_MaxBW cfg, ep_InputBW := lc_InputBW cfg, ep_MinInputBW := lc_MinInputBW cfg,
            ep_OverheadBW := lc_OverheadBW cfg, ep_Live := False, ep_Message := True,
            ep_Congestion := lc_Congestion cfg, ep_PeerNakReport := True,
            ep_PeerIdleTimeout := lc_PeerIdleTimeout cfg, ep_CryptoCtx := ctx, ep_ActiveKey := EncryptionEven,
            ep_Passphrase := lc_Passphrase cfg, ep_HSv4AwaitKey := (ctx \<noteq> None)\<rparr>) in
      l\<lparr>l_events := fifo_push (l_events l) (Accepted
           \<lparr> av_Conn = conn, av_Peer = peer, av_SocketID = ac_socketID a, av_StreamID = [], av_GroupID = 0,
             av_GroupType = 0, av_GroupWeight = 0, av_SharedISN = 0 \<rparr>)\<rparr>)"

definition handleConclusionV4 :: "Listener \<Rightarrow> u32 \<Rightarrow> Timestamp \<Rightarrow> PeerID \<Rightarrow> CIFHandshake \<Rightarrow> Listener" where
  "handleConclusionV4 l rnd now peer hs =
     (case l_accepted l peer of
        Some a \<Rightarrow> send_to l peer (v4_response a (SRTSocketID hs))
      | None \<Rightarrow>
          if InitialPacketSequenceNumber hs > Value Max \<or> MaxFlowWindowSize hs < 2
          then reject l peer (SRTSocketID hs) rejRogue
          else case v4_context l of
                 Inl code \<Rightarrow> reject l peer (SRTSocketID hs) code
               | Inr ctx \<Rightarrow>
                   (case gate_verdict l \<lparr> ar_Peer = peer, ar_StreamID = [], ar_HSVersion = Version hs, ar_GroupID = 0,
                            ar_GroupType = 0 \<rparr> of
                      Some code \<Rightarrow> reject l peer (SRTSocketID hs) code
                    | None \<Rightarrow> accept_v4 l rnd now peer hs ctx))"

definition handleConclusion ::
    "(PeerID \<Rightarrow> Context \<Rightarrow> Context) \<Rightarrow> Listener \<Rightarrow> u32 \<Rightarrow> Timestamp \<Rightarrow> PeerID \<Rightarrow> CIFHandshake \<Rightarrow> Listener" where
  "handleConclusion cur l rnd now peer hs =
     (if SynCookie hs \<noteq> cookie l peer then l
      else if MaxTransmissionUnitSize hs < 76 then reject l peer (SRTSocketID hs) rejRogue
      else if Version hs = 4 then handleConclusionV4 l rnd now peer hs
      else case l_accepted l peer of
        Some a \<Rightarrow>
          send_to l peer (buildConclusionResponse l (a\<lparr>ac_cryptoCtx := map_option (cur peer) (ac_cryptoCtx a)\<rparr>)
                            (SRTSocketID hs))
      | None \<Rightarrow>
          (case (if HasHS hs then SRTHS hs else None) of
             None \<Rightarrow> reject l peer (SRTSocketID hs) rejRogue
           | Some ext \<Rightarrow>
               if SRTVersion ext < 0x010300 then reject l peer (SRTSocketID hs) rejRogue
               else if \<not> matchingCongestion (lc_Congestion (l_cfg l)) hs
               then reject l peer (SRTSocketID hs) rejCongestion
               else case gate_verdict l \<lparr> ar_Peer = peer, ar_StreamID = StreamID hs, ar_HSVersion = Version hs,
                           ar_GroupID = GroupID hs, ar_GroupType = GroupType hs \<rparr> of
                      Some code \<Rightarrow> reject l peer (SRTSocketID hs) code
                    | None \<Rightarrow>
                        (case negotiate_crypto l hs of
                           Inl code \<Rightarrow> reject l peer (SRTSocketID hs) code
                         | Inr (ctx, kmKey) \<Rightarrow> accept l rnd now peer hs ext ctx kmKey)))"

definition listener_HandlePacket ::
    "(PeerID \<Rightarrow> Context \<Rightarrow> Context) \<Rightarrow> Listener \<Rightarrow> u32 \<Rightarrow> Timestamp \<Rightarrow> Packet \<Rightarrow> PeerID \<Rightarrow> Listener" where
  "listener_HandlePacket cur l rnd now p peer =
     (if \<not> IsControl (Header p) \<or> ControlType (Header p) \<noteq> CtrlTypeHandshake then l
      else case Packet_UnmarshalCIF HS_UnmarshalCIF p zero_HS of
             (_, Some _) \<Rightarrow> l
           | (hs, None) \<Rightarrow>
               if HandshakeType hs = HandshakeTypeInduction then handleInduction l peer hs
               else if HandshakeType hs = HandshakeTypeConclusion then handleConclusion cur l rnd now peer hs
               else l)"

end
