(* ===== verification/Core_Group.thy ===== *)
theory Core_Group
  imports Conn_Core "HOL-Library.AList"
begin

text \<open>
  The bonding group of the connection core (\<^verbatim>\<open>internal/core/group.go\<close>): members with a shared sequence space,
  broadcast and backup sending with failover replay, the alignment of the members' playout clocks, and
  the merge of their deliveries. A member is named by its position in the list; the map of buffered
  deliveries is an association list with distinct keys. The merge is shown to deliver each sequence
  number at most once and in increasing order, and its loop to end.
\<close>

section \<open>State\<close>

datatype GroupMode = GroupBroadcast | GroupBackup

datatype backupState = bsStandby | bsActiveFresh | bsActiveStable | bsActiveUnstable | bsBroken

definition bs_active :: "backupState \<Rightarrow> bool" where
  "bs_active s \<longleftrightarrow> s = bsActiveFresh \<or> s = bsActiveStable \<or> s = bsActiveUnstable"

record groupMember =
  gm_conn :: Conn
  gm_weight :: u16
  gm_state :: backupState
  gm_activeSince :: Timestamp
  gm_lastProgress :: Timestamp
  gm_lastAckSeq :: Number
  gm_ackSeqSet :: bool
  gm_tbSynced :: bool

record bufferedMsg =
  bm_seqNo :: Number
  bm_srcTime :: u32
  bm_payload :: bytes

definition defaultStabTimeout :: Microseconds where "defaultStabTimeout = 1 * Second"
definition defaultSenderBufCap :: nat where "defaultSenderBufCap = 2048"
definition groupReorderWindow :: u32 where "groupReorderWindow = 256"

record Group =
  g_mode :: GroupMode
  g_members :: "groupMember list"
  g_stabTimeout :: Microseconds
  g_nextSeq :: Number
  g_seqInit :: bool
  g_sndTSBase :: u32
  g_tsInit :: bool
  g_senderBuf :: "bufferedMsg list"
  g_senderBufCap :: nat
  g_pending :: "(u32 \<times> bytes) list"
  g_deliverNext :: Number
  g_dnInit :: bool
  g_maxSeen :: Number
  g_maxSeenSet :: bool
  g_groupTB :: GroupTimeBase
  g_tbSet :: bool
  g_delivered :: "bytes fifo"
  g_dedups :: u64

definition NewGroup :: "GroupMode \<Rightarrow> Group" where
  "NewGroup mode =
     \<lparr> g_mode = mode, g_members = [], g_stabTimeout = defaultStabTimeout, g_nextSeq = 0, g_seqInit = False,
       g_sndTSBase = 0, g_tsInit = False, g_senderBuf = [], g_senderBufCap = defaultSenderBufCap, g_pending = [],
       g_deliverNext = 0, g_dnInit = False, g_maxSeen = 0, g_maxSeenSet = False,
       g_groupTB = \<lparr> TimeBase = 0, WrapPeriod = False, Drift = 0 \<rparr>, g_tbSet = False,
       g_delivered = fifo_empty, g_dedups = 0 \<rparr>"

definition SetStabilityTimeout :: "Group \<Rightarrow> Microseconds \<Rightarrow> Group" where
  "SetStabilityTimeout g d = (if d > 0 then g\<lparr>g_stabTimeout := d\<rparr> else g)"

definition AddMember :: "Group \<Rightarrow> Conn \<Rightarrow> u16 \<Rightarrow> Group" where
  "AddMember g c weight =
     (let (g, c) =
        (if \<not> g_seqInit g then (g\<lparr>g_nextSeq := sb_NextSeq (c_sendBuf c), g_seqInit := True\<rparr>, c)
         else if sb_NextSeq (c_sendBuf c) \<noteq> g_nextSeq g
         then (g, c\<lparr>c_sendBuf := fst (OverrideNextSeq (c_sendBuf c) (g_nextSeq g))\<rparr>)
         else (g, c)) in
      g\<lparr>g_members := g_members g @
         [\<lparr> gm_conn = c, gm_weight = weight, gm_state = bsStandby, gm_activeSince = 0, gm_lastProgress = 0,
            gm_lastAckSeq = 0, gm_ackSeqSet = False, gm_tbSynced = False \<rparr>]\<rparr>)"

definition Members :: "Group \<Rightarrow> Conn list" where
  "Members g = map gm_conn (g_members g)"

definition on_member :: "Group \<Rightarrow> nat \<Rightarrow> (groupMember \<Rightarrow> groupMember) \<Rightarrow> Group" where
  "on_member g i f = g\<lparr>g_members := (g_members g)[i := f (g_members g ! i)]\<rparr>"

section \<open>Sending\<close>

definition qualify :: "Microseconds \<Rightarrow> Timestamp \<Rightarrow> groupMember \<Rightarrow> groupMember" where
  "qualify stabTimeout now mc =
     (if c_closed (gm_conn mc) then mc\<lparr>gm_state := bsBroken\<rparr>
      else if gm_state mc = bsStandby \<or> gm_state mc = bsBroken then mc
      else
        let acked = sb_StartSeq (c_sendBuf (gm_conn mc));
            mc = (if \<not> gm_ackSeqSet mc \<or> GreaterThan acked (gm_lastAckSeq mc)
                  then mc\<lparr>gm_lastAckSeq := acked, gm_ackSeqSet := True, gm_lastProgress := now\<rparr> else mc);
            dyn = c_rtt (gm_conn mc) * 2 + c_rttVar (gm_conn mc) * 4;
            timeout = (if dyn > stabTimeout then dyn else stabTimeout);
            since = Timestamp_Sub now (gm_lastProgress mc) in
        if since > 4 * timeout then mc\<lparr>gm_state := bsBroken\<rparr>
        else if since > timeout then mc\<lparr>gm_state := bsActiveUnstable\<rparr>
        else if gm_state mc = bsActiveUnstable then mc\<lparr>gm_state := bsActiveStable\<rparr>
        else if gm_state mc = bsActiveFresh \<and> Timestamp_Sub now (gm_activeSince mc) > timeout
        then mc\<lparr>gm_state := bsActiveStable\<rparr>
        else mc)"

definition better_standby :: "groupMember list \<Rightarrow> nat option \<Rightarrow> nat \<Rightarrow> nat option" where
  "better_standby ms best i =
     (let mc = ms ! i in
      if gm_state mc \<noteq> bsStandby \<or> c_closed (gm_conn mc) then best
      else case best of
             None \<Rightarrow> Some i
           | Some b \<Rightarrow> if gm_weight mc > gm_weight (ms ! b) then Some i else best)"

definition bestStandby :: "Group \<Rightarrow> nat option" where
  "bestStandby g = foldl (better_standby (g_members g)) None [0..<length (g_members g)]"

definition coordinated :: "entropy \<Rightarrow> Timestamp \<Rightarrow> bytes \<Rightarrow> Number \<Rightarrow> u32 \<Rightarrow> groupMember \<Rightarrow> groupMember" where
  "coordinated en now payload seqNo srcTime mc =
     mc\<lparr>gm_conn := WriteCoordinated en (gm_conn mc) now payload seqNo srcTime\<rparr>"

definition activate :: "(nat \<Rightarrow> entropy) \<Rightarrow> Group \<Rightarrow> Timestamp \<Rightarrow> nat \<Rightarrow> Group" where
  "activate en g now i =
     (let g = on_member g i (\<lambda>mc. mc\<lparr>gm_state := bsActiveFresh, gm_activeSince := now, gm_lastProgress := now,
                                     gm_ackSeqSet := False\<rparr>) in
      on_member g i
        (fold (\<lambda>m. coordinated (en i) now (bm_payload m) (bm_seqNo m) (bm_srcTime m)) (g_senderBuf g)))"

definition healthy :: "groupMember \<Rightarrow> bool" where
  "healthy mc \<longleftrightarrow> gm_state mc = bsActiveFresh \<or> gm_state mc = bsActiveStable"

definition activeMembers :: "(nat \<Rightarrow> entropy) \<Rightarrow> Group \<Rightarrow> Timestamp \<Rightarrow> Group \<times> nat list" where
  "activeMembers en g now =
     (let g = g\<lparr>g_members := map (qualify (g_stabTimeout g) now) (g_members g)\<rparr>;
          active = filter (\<lambda>i. bs_active (gm_state (g_members g ! i))) [0..<length (g_members g)] in
      if list_ex healthy (g_members g) then (g, active)
      else case bestStandby g of
             None \<Rightarrow> (g, active)
           | Some i \<Rightarrow> (activate en g now i, active @ [i]))"

definition best_ack :: "Number option \<Rightarrow> groupMember \<Rightarrow> Number option" where
  "best_ack best mc =
     (if \<not> bs_active (gm_state mc) \<or> \<not> gm_ackSeqSet mc then best
      else case best of
             None \<Rightarrow> Some (gm_lastAckSeq mc)
           | Some a \<Rightarrow> if GreaterThan (gm_lastAckSeq mc) a then Some (gm_lastAckSeq mc) else best)"

definition bufferMsg :: "Group \<Rightarrow> Number \<Rightarrow> u32 \<Rightarrow> bytes \<Rightarrow> Group" where
  "bufferMsg g seqNo srcTime payload =
     (let buf = g_senderBuf g @ [\<lparr> bm_seqNo = seqNo, bm_srcTime = srcTime, bm_payload = payload \<rparr>];
          buf = (case foldl best_ack None (g_members g) of
                   None \<Rightarrow> buf
                 | Some maxAcked \<Rightarrow> dropWhile (\<lambda>m. LessThan (bm_seqNo m) maxAcked) buf);
          buf = (if length buf > g_senderBufCap g then drop (length buf - g_senderBufCap g) buf else buf) in
      g\<lparr>g_senderBuf := buf\<rparr>)"

definition write_all :: "(nat \<Rightarrow> entropy) \<Rightarrow> Timestamp \<Rightarrow> bytes \<Rightarrow> Number \<Rightarrow> u32 \<Rightarrow> nat list \<Rightarrow> Group \<Rightarrow> Group" where
  "write_all en now payload seqNo srcTime is g =
     foldl (\<lambda>g i. on_member g i (coordinated (en i) now payload seqNo srcTime)) g is"

definition group_Write :: "(nat \<Rightarrow> entropy) \<Rightarrow> Group \<Rightarrow> Timestamp \<Rightarrow> bytes \<Rightarrow> Group" where
  "group_Write en g now payload =
     (if g_members g = [] then g
      else
        let g = (if g_tsInit g then g else g\<lparr>g_sndTSBase := SRTTimestamp now, g_tsInit := True\<rparr>);
            srcTime = SRTTimestamp now - g_sndTSBase g;
            seqNo = g_nextSeq g;
            g = g\<lparr>g_nextSeq := Inc (g_nextSeq g)\<rparr> in
        case g_mode g of
          GroupBackup \<Rightarrow>
            (case activeMembers en g now of
               (g, active) \<Rightarrow> bufferMsg (write_all en now payload seqNo srcTime active g) seqNo srcTime payload)
        | GroupBroadcast \<Rightarrow> write_all en now payload seqNo srcTime [0..<length (g_members g)] g)"

definition Monitor :: "(nat \<Rightarrow> entropy) \<Rightarrow> Group \<Rightarrow> Timestamp \<Rightarrow> Group" where
  "Monitor en g now = (if g_mode g \<noteq> GroupBackup then g else fst (activeMembers en g now))"

section \<open>Merging the deliveries\<close>

function drainPending :: "Group \<Rightarrow> Group" where
  "drainPending g =
     (case map_of (g_pending g) (Value (g_deliverNext g)) of
        Some d \<Rightarrow>
          drainPending (g\<lparr>g_pending := AList.delete (Value (g_deliverNext g)) (g_pending g),
                          g_delivered := fifo_push (g_delivered g) d, g_deliverNext := Inc (g_deliverNext g)\<rparr>)
      | None \<Rightarrow>
          if g_maxSeenSet g \<and> GreaterThan (g_maxSeen g) (Add (g_deliverNext g) groupReorderWindow)
          then drainPending (g\<lparr>g_deliverNext := Inc (g_deliverNext g)\<rparr>)
          else g)"
  by pat_completeness auto

text \<open>
  The loop ends: a delivery shortens the buffer, and a skipped gap brings the position nearer to the
  highest number seen. A position outside the 31-bit range returns to it in one step.
\<close>

definition drain_lag :: "Group \<Rightarrow> nat" where
  "drain_lag g =
     (if valid_seq (g_deliverNext g) then seq_lag (Add (g_deliverNext g) groupReorderWindow) (g_maxSeen g)
      else Suc (seq_lag (Add 0 groupReorderWindow) (g_maxSeen g)))"

lemma Inc_Add: "valid_seq a \<Longrightarrow> Add (Inc a) n = Inc (Add a n)"
  by (simp add: Add_eq_nth Inc_eq_nth add.commute)

lemma Inc_invalid: "\<not> valid_seq a \<Longrightarrow> Inc a = 0"
  by (simp add: valid_seq_le_Max Inc_def less_imp_le not_le)

lemma drain_lag_less:
  "LessThan (Add (g_deliverNext g) groupReorderWindow) (g_maxSeen g) \<Longrightarrow>
   drain_lag (g\<lparr>g_deliverNext := Inc (g_deliverNext g)\<rparr>) < drain_lag g"
  by (cases "valid_seq (g_deliverNext g)")
    (simp_all add: drain_lag_def Inc_Add seq_lag_less Inc_invalid, simp add: valid_seq_def)

lemma length_delete_less: "map_of xs k = Some v \<Longrightarrow> length (AList.delete k xs) < length xs"
  by (induction xs) (auto simp: AList.delete_eq intro: le_imp_less_Suc split: if_splits)

termination drainPending
  by (relation "measures [\<lambda>g. length (g_pending g), drain_lag]")
    (auto simp: length_delete_less drain_lag_less)

declare drainPending.simps [simp del]

definition filterDelivery :: "Group \<Rightarrow> Number \<Rightarrow> bytes \<Rightarrow> Group" where
  "filterDelivery g s payload =
     (let g = (if g_dnInit g then g else g\<lparr>g_deliverNext := s, g_dnInit := True\<rparr>) in
      if LessThan s (g_deliverNext g) then g\<lparr>g_dedups := g_dedups g + 1\<rparr>
      else if map_of (g_pending g) (Value s) \<noteq> None then g\<lparr>g_dedups := g_dedups g + 1\<rparr>
      else
        let g = g\<lparr>g_pending := AList.update (Value s) payload (g_pending g)\<rparr>;
            g = (if \<not> g_maxSeenSet g \<or> GreaterThan s (g_maxSeen g)
                 then g\<lparr>g_maxSeen := s, g_maxSeenSet := True\<rparr> else g) in
        drainPending g)"

definition PollDelivery :: "Group \<Rightarrow> Group \<times> bytes option" where
  "PollDelivery g = (case fifo_pop (g_delivered g) of (q, v) \<Rightarrow> (g\<lparr>g_delivered := q\<rparr>, v))"

section \<open>Routing\<close>

definition anchored :: "groupMember \<Rightarrow> bool" where
  "anchored mc \<longleftrightarrow> c_tsbpdTimer (gm_conn mc) \<noteq> None \<and> c_tsbpdBaseSet (gm_conn mc)"

definition capture_timebase :: "Group \<Rightarrow> Group" where
  "capture_timebase g =
     (case find (\<lambda>i. anchored (g_members g ! i)) [0..<length (g_members g)] of
        None \<Rightarrow> g
      | Some i \<Rightarrow>
          on_member (g\<lparr>g_groupTB := GetInternalTimeBase (the (c_tsbpdTimer (gm_conn (g_members g ! i)))),
                      g_tbSet := True\<rparr>) i (\<lambda>mc. mc\<lparr>gm_tbSynced := True\<rparr>))"

definition adopt_timebase :: "GroupTimeBase \<Rightarrow> groupMember \<Rightarrow> groupMember" where
  "adopt_timebase tb mc =
     (if gm_tbSynced mc then mc
      else case c_tsbpdTimer (gm_conn mc) of
             None \<Rightarrow> mc
           | Some t \<Rightarrow>
               mc\<lparr>gm_conn := (gm_conn mc)\<lparr>c_tsbpdTimer := Some (ApplyGroupTime t tb (Delay t)), c_tsbpdBaseSet := True\<rparr>,
                  gm_tbSynced := True\<rparr>)"

definition syncTimebases :: "Group \<Rightarrow> Group" where
  "syncTimebases g =
     (let g = (if g_tbSet g then g else capture_timebase g) in
      if \<not> g_tbSet g then g else g\<lparr>g_members := map (adopt_timebase (g_groupTB g)) (g_members g)\<rparr>)"

definition advance_idle :: "Number \<Rightarrow> groupMember \<Rightarrow> groupMember" where
  "advance_idle ackSeq mc =
     (if c_closed (gm_conn mc) then mc
      else if IsEmpty (c_recvBuf (gm_conn mc)) \<and> GreaterThan ackSeq (StartSeq (c_recvBuf (gm_conn mc)))
      then mc\<lparr>gm_conn := resetRecvTo (gm_conn mc) ackSeq\<rparr> else mc)"

definition advance_others :: "Group \<Rightarrow> nat \<Rightarrow> Group" where
  "advance_others g i =
     (let ackSeq = ACKSequence (c_recvBuf (gm_conn (g_members g ! i))) in
      g\<lparr>g_members := map (\<lambda>j. if j = i then g_members g ! j else advance_idle ackSeq (g_members g ! j))
                         [0..<length (g_members g)]\<rparr>)"

text \<open>Each pass takes one event of the member; the queue does not grow meanwhile.\<close>

primrec route_loop :: "nat \<Rightarrow> Group \<Rightarrow> nat \<Rightarrow> Group" where
  "route_loop 0 g i = g"
| "route_loop (Suc n) g i =
     (case PollEvent (gm_conn (g_members g ! i)) of
        (c, ev) \<Rightarrow>
          let g = on_member g i (\<lambda>mc. mc\<lparr>gm_conn := c\<rparr>) in
          case ev of
            None \<Rightarrow> g
          | Some (DataReceived d) \<Rightarrow> route_loop n (filterDelivery g (ev_Seq d) (ev_Data d)) i
          | Some _ \<Rightarrow> route_loop n g i)"

definition RouteMember :: "Group \<Rightarrow> nat \<Rightarrow> Group" where
  "RouteMember g i =
     (let g = syncTimebases g;
          g = (if g_mode g = GroupBackup then advance_others g i else g) in
      route_loop (Suc (fifo_len (c_events (gm_conn (g_members g ! i))))) g i)"

section \<open>The merge\<close>

text \<open>
  The state of the merge in offsets from a base number \<open>b\<close>: \<open>A\<close> are the offsets that arrived, \<open>D\<close> those
  delivered, \<open>n\<close> the next one to deliver. \<open>merge_span\<close> bounds the offsets of a run, so that the
  comparisons of numbers are those of their offsets.
\<close>

abbreviation merge_span :: nat where "merge_span \<equiv> H31 - 257"

definition merge_inv :: "Number \<Rightarrow> (Number \<Rightarrow> bytes) \<Rightarrow> nat set \<Rightarrow> Group \<Rightarrow> nat list \<Rightarrow> nat \<Rightarrow> bool" where
  "merge_inv b pay A g D n \<longleftrightarrow>
     g_dnInit g \<and> fifo_ok (g_delivered g) \<and> queued (g_delivered g) = map (\<lambda>k. pay (seq_nth b k)) D \<and>
     sorted_wrt (<) D \<and> set D \<subseteq> A \<inter> {..<n} \<and> g_deliverNext g = seq_nth b n \<and> n \<le> merge_span \<and>
     (\<forall>(k, v)\<in>set (g_pending g). v = pay k \<and> (\<exists>j\<in>A. k = seq_nth b j \<and> n \<le> j)) \<and>
     g_maxSeenSet g \<and> (\<exists>m\<in>A. g_maxSeen g = seq_nth b m) \<and> A \<subseteq> {..<merge_span}"

definition merge_complete :: "Number \<Rightarrow> nat set \<Rightarrow> Group \<Rightarrow> nat list \<Rightarrow> nat \<Rightarrow> bool" where
  "merge_complete b A g D n \<longleftrightarrow>
     D = [0..<n] \<and> (\<forall>j\<in>A. j < n \<or> seq_nth b j \<in> fst ` set (g_pending g)) \<and>
     (\<forall>m\<in>A. \<forall>k. k + 256 < m \<longrightarrow> k \<in> A)"

lemma merge_deliver:
  assumes b: "valid_seq b" and I: "merge_inv b pay A g D n" and m: "map_of (g_pending g) (g_deliverNext g) = Some d"
  defines "g' \<equiv> g\<lparr>g_pending := AList.delete (g_deliverNext g) (g_pending g),
                    g_delivered := fifo_push (g_delivered g) d, g_deliverNext := Inc (g_deliverNext g)\<rparr>"
  shows "merge_inv b pay A g' (D @ [n]) (Suc n)"
    and "merge_complete b A g D n \<Longrightarrow> merge_complete b A g' (D @ [n]) (Suc n)"
proof -
  note I' = I [unfolded merge_inv_def]
  have dn: "g_deliverNext g = seq_nth b n" using I' by blast
  have "(seq_nth b n, d) \<in> set (g_pending g)" using m by (simp add: dn map_of_SomeD)
  then obtain j where j: "j \<in> A" "seq_nth b n = seq_nth b j" and d: "d = pay (seq_nth b n)"
    using I' by blast
  then have nA: "n \<in> A" "n < merge_span"
    using I' b seq_nth_eq_iff [of b n j] by auto
  have step: "Suc n \<le> i" if "i \<in> A" "n \<le> i" "seq_nth b i \<noteq> seq_nth b n" for i
    using that by (metis Suc_leI le_neq_implies_less)
  have P: "v = pay k \<and> (\<exists>j\<in>A. k = seq_nth b j \<and> Suc n \<le> j)"
    if "(k, v) \<in> set (AList.delete (seq_nth b n) (g_pending g))" for k v
  proof -
    have kv: "(k, v) \<in> set (g_pending g)" "k \<noteq> seq_nth b n" using that by (auto simp: AList.delete_eq)
    then obtain j where "v = pay k" "j \<in> A" "k = seq_nth b j" "n \<le> j" using I' by blast
    with step [of j] kv(2) show ?thesis by blast
  qed
  show "merge_inv b pay A g' (D @ [n]) (Suc n)"
    using I' nA d P by (auto simp: merge_inv_def g'_def ff.ok_push ff.contents_push sorted_wrt_append Inc_eq_nth dn)
  show "merge_complete b A g' (D @ [n]) (Suc n)" if C: "merge_complete b A g D n"
  proof -
    have "j < Suc n \<or> seq_nth b j \<in> fst ` set (AList.delete (seq_nth b n) (g_pending g))" if "j \<in> A" for j
    proof -
      have "j < n \<or> seq_nth b j \<in> fst ` set (g_pending g)" using C that by (simp add: merge_complete_def)
      moreover have "j < merge_span" using that I' by blast
      then have "seq_nth b j = seq_nth b n \<longleftrightarrow> j = n" using nA b by (simp add: seq_nth_eq_iff)
      ultimately show ?thesis by (auto simp: AList.delete_eq image_iff)
    qed
    then show ?thesis using C by (simp add: merge_complete_def g'_def dn)
  qed
qed

lemma merge_skip:
  assumes b: "valid_seq b" and I: "merge_inv b pay A g D n" and m: "map_of (g_pending g) (g_deliverNext g) = None"
    and w: "LessThan (Add (g_deliverNext g) groupReorderWindow) (g_maxSeen g)"
  shows "merge_inv b pay A (g\<lparr>g_deliverNext := Inc (g_deliverNext g)\<rparr>) D (Suc n)"
    and "\<not> merge_complete b A g D n"
proof -
  note I' = I [unfolded merge_inv_def]
  have dn: "g_deliverNext g = seq_nth b n" using I' by blast
  obtain t where t: "t \<in> A" "g_maxSeen g = seq_nth b t" "t < merge_span" using I' by blast
  have "n \<le> merge_span" using I' by blast
  then have nt: "n + 256 < t"
    using w t(2,3) b LessThan_window [of b "n + 256" t] by (simp add: dn Add_eq_nth groupReorderWindow_def)
  have out: "seq_nth b n \<notin> fst ` set (g_pending g)" using m unfolding dn map_of_eq_None_iff .
  have P: "v = pay k \<and> (\<exists>j\<in>A. k = seq_nth b j \<and> Suc n \<le> j)" if kv: "(k, v) \<in> set (g_pending g)" for k v
  proof -
    obtain j where j: "v = pay k" "j \<in> A" "k = seq_nth b j" "n \<le> j" using I' kv by blast
    moreover from kv have "k \<in> fst ` set (g_pending g)" by (rule image_eqI [rotated]) simp
    with out j(3) have "n \<noteq> j" by metis
    ultimately show ?thesis by (metis Suc_leI le_neq_implies_less)
  qed
  show "merge_inv b pay A (g\<lparr>g_deliverNext := Inc (g_deliverNext g)\<rparr>) D (Suc n)"
    unfolding merge_inv_def
  proof (intro conjI)
    show "set D \<subseteq> A \<inter> {..<Suc n}" using I' by (blast intro: less_SucI)
    show "Suc n \<le> merge_span" using nt t(3) by linarith
    show "\<forall>(k, v)\<in>set (g_pending (g\<lparr>g_deliverNext := Inc (g_deliverNext g)\<rparr>)).
            v = pay k \<and> (\<exists>j\<in>A. k = seq_nth b j \<and> Suc n \<le> j)" by (auto dest: P)
  qed (use I' in \<open>simp_all add: Inc_eq_nth\<close>)
  show "\<not> merge_complete b A g D n"
  proof
    assume C: "merge_complete b A g D n"
    then have "n \<in> A" using nt t(1) unfolding merge_complete_def by blast
    with C have "n < n \<or> seq_nth b n \<in> fst ` set (g_pending g)" unfolding merge_complete_def by blast
    with out show False by simp
  qed
qed

lemma drain_deliver:
  "map_of (g_pending g) (g_deliverNext g) = Some d \<Longrightarrow>
   drainPending g = drainPending (g\<lparr>g_pending := AList.delete (g_deliverNext g) (g_pending g),
      g_delivered := fifo_push (g_delivered g) d, g_deliverNext := Inc (g_deliverNext g)\<rparr>)"
  by (subst drainPending.simps) (simp add: Value_def)

lemma drain_skip:
  "map_of (g_pending g) (g_deliverNext g) = None \<Longrightarrow> g_maxSeenSet g \<Longrightarrow>
   LessThan (Add (g_deliverNext g) groupReorderWindow) (g_maxSeen g) \<Longrightarrow>
   drainPending g = drainPending (g\<lparr>g_deliverNext := Inc (g_deliverNext g)\<rparr>)"
  by (subst drainPending.simps) (simp add: Value_def)

lemma drain_stop:
  "map_of (g_pending g) (g_deliverNext g) = None \<Longrightarrow>
   \<not> LessThan (Add (g_deliverNext g) groupReorderWindow) (g_maxSeen g) \<Longrightarrow> drainPending g = g"
  by (subst drainPending.simps) (simp add: Value_def)

lemma merge_drain:
  assumes "valid_seq b" "merge_inv b pay A g D n"
  shows "\<exists>D' n'. merge_inv b pay A (drainPending g) D' n' \<and>
           (merge_complete b A g D n \<longrightarrow> merge_complete b A (drainPending g) D' n')"
  using assms
proof (induction g arbitrary: D n rule: drainPending.induct)
  case (1 g)
  show ?case
  proof (cases "map_of (g_pending g) (g_deliverNext g)")
    case (Some d)
    have "\<exists>D' n'. merge_inv b pay A (drainPending g) D' n' \<and>
       (merge_complete b A (g\<lparr>g_pending := AList.delete (g_deliverNext g) (g_pending g),
          g_delivered := fifo_push (g_delivered g) d, g_deliverNext := Inc (g_deliverNext g)\<rparr>) (D @ [n]) (Suc n)
        \<longrightarrow> merge_complete b A (drainPending g) D' n')"
      using "1.IH"(2) [unfolded Value_def, OF Some "1.prems"(1) merge_deliver(1) [OF "1.prems" Some]]
      by (simp only: drain_deliver [OF Some])
    with merge_deliver(2) [OF "1.prems" Some] show ?thesis by blast
  next
    case None
    have set: "g_maxSeenSet g" using "1.prems" by (simp add: merge_inv_def)
    show ?thesis
    proof (cases "LessThan (Add (g_deliverNext g) groupReorderWindow) (g_maxSeen g)")
      case True
      then have c: "g_maxSeenSet g \<and> GreaterThan (g_maxSeen g) (Add (g_deliverNext g) groupReorderWindow)"
        using set by simp
      have "\<exists>D' n'. merge_inv b pay A (drainPending g) D' n'"
        using "1.IH"(1) [unfolded Value_def, OF None c "1.prems"(1) merge_skip(1) [OF "1.prems" None True]]
        unfolding drain_skip [OF None set True] by blast
      with merge_skip(2) [OF "1.prems" None True] show ?thesis by blast
    next
      case False
      show ?thesis unfolding drain_stop [OF None False] using "1.prems" by blast
    qed
  qed
qed

definition settled :: "Group \<Rightarrow> bool" where
  "settled g \<longleftrightarrow> map_of (g_pending g) (g_deliverNext g) = None \<and>
     \<not> (g_maxSeenSet g \<and> LessThan (Add (g_deliverNext g) groupReorderWindow) (g_maxSeen g))"

lemma drain_settled: "settled (drainPending g)"
proof (induction g rule: drainPending.induct)
  case (1 g)
  then show ?case
    by (subst drainPending.simps) (auto simp: settled_def Value_def split: option.split)
qed

definition merge_run :: "(Number \<Rightarrow> bytes) \<Rightarrow> Number list \<Rightarrow> Group \<Rightarrow> Group" where
  "merge_run pay ss g = fold (\<lambda>s g. filterDelivery g s (pay s)) ss g"

lemma merge_inv_insert:
  "merge_inv b pay A g D n \<Longrightarrow> j < merge_span \<Longrightarrow> merge_inv b pay (insert j A) g D n"
  unfolding merge_inv_def by blast

lemma merge_complete_insert:
  "merge_complete b A g D n \<Longrightarrow> \<forall>k. k + 256 < j \<longrightarrow> k \<in> A \<Longrightarrow>
   j < n \<or> seq_nth b j \<in> fst ` set (g_pending g) \<Longrightarrow> merge_complete b (insert j A) g D n"
  unfolding merge_complete_def by blast

lemma merge_inv_dedups [simp]:
  "merge_inv b pay A (g\<lparr>g_dedups := x\<rparr>) D n = merge_inv b pay A g D n"
  "merge_complete b A (g\<lparr>g_dedups := x\<rparr>) D n = merge_complete b A g D n"
  "settled (g\<lparr>g_dedups := x\<rparr>) = settled g"
  by (simp_all add: merge_inv_def merge_complete_def settled_def)

text \<open>A number that is neither behind the position nor buffered is stored, and the loop runs.\<close>

definition store :: "Group \<Rightarrow> Number \<Rightarrow> bytes \<Rightarrow> Group" where
  "store g s v =
     (let g = g\<lparr>g_pending := AList.update s v (g_pending g)\<rparr> in
      if \<not> g_maxSeenSet g \<or> LessThan (g_maxSeen g) s then g\<lparr>g_maxSeen := s, g_maxSeenSet := True\<rparr> else g)"

lemma filterDelivery_cases:
  "g_dnInit g \<Longrightarrow> filterDelivery g s v =
     (if LessThan s (g_deliverNext g) \<or> map_of (g_pending g) s \<noteq> None then g\<lparr>g_dedups := g_dedups g + 1\<rparr>
      else drainPending (store g s v))"
  by (simp add: filterDelivery_def store_def Let_def Value_def)

lemma set_update_new:
  "map_of xs k = None \<Longrightarrow> set (AList.update k v xs) = insert (k, v) (set xs)"
  by (induction xs) (auto split: if_splits)

lemma merge_store:
  assumes I: "merge_inv b pay A g D n" and j: "j < merge_span" "n \<le> j"
    and new: "map_of (g_pending g) (seq_nth b j) = None"
  shows "merge_inv b pay (insert j A) (store g (seq_nth b j) (pay (seq_nth b j))) D n"
    and "merge_complete b A g D n \<Longrightarrow> \<forall>k. k + 256 < j \<longrightarrow> k \<in> A \<Longrightarrow>
         merge_complete b (insert j A) (store g (seq_nth b j) (pay (seq_nth b j))) D n"
proof -
  note I' = merge_inv_insert [OF I j(1), unfolded merge_inv_def]
  let ?s = "seq_nth b j"
  have max: "\<exists>m\<in>insert j A. g_maxSeen (store g ?s v) = seq_nth b m" for v
    using I' by (auto simp: store_def Let_def)
  have pend: "set (g_pending (store g ?s v)) = insert (?s, v) (set (g_pending g))" for v
    using set_update_new [OF new] by (simp add: store_def Let_def)
  have keep: "g_dnInit (store g ?s v) = g_dnInit g" "g_delivered (store g ?s v) = g_delivered g"
    "g_deliverNext (store g ?s v) = g_deliverNext g" "g_maxSeenSet (store g ?s v)" for v
    by (simp_all add: store_def Let_def)
  show "merge_inv b pay (insert j A) (store g ?s (pay ?s)) D n"
    unfolding merge_inv_def keep pend
    by (intro conjI max keep(4)) (use I' j(2) in \<open>auto\<close>)
  assume "merge_complete b A g D n" "\<forall>k. k + 256 < j \<longrightarrow> k \<in> A"
  then show "merge_complete b (insert j A) (store g ?s (pay ?s)) D n"
    unfolding merge_complete_def pend by auto
qed

lemma merge_arrival:
  assumes b: "valid_seq b" and I: "merge_inv b pay A g D n" and S: "settled g" and j: "j < merge_span"
  shows "\<exists>D' n'. merge_inv b pay (insert j A) (filterDelivery g (seq_nth b j) (pay (seq_nth b j))) D' n' \<and>
           settled (filterDelivery g (seq_nth b j) (pay (seq_nth b j))) \<and>
           (merge_complete b A g D n \<longrightarrow> (\<forall>k. k + 256 < j \<longrightarrow> k \<in> A) \<longrightarrow>
            merge_complete b (insert j A) (filterDelivery g (seq_nth b j) (pay (seq_nth b j))) D' n')"
proof -
  let ?s = "seq_nth b j"
  have i: "g_dnInit g" "g_deliverNext g = seq_nth b n" "n \<le> merge_span" using I unfolding merge_inv_def by blast+
  have L: "LessThan ?s (g_deliverNext g) \<longleftrightarrow> j < n" using LessThan_window [OF b, of j n] i(2,3) j by simp
  show ?thesis
  proof (cases "j < n \<or> map_of (g_pending g) ?s \<noteq> None")
    case True
    then have in_buf: "j < n \<or> ?s \<in> fst ` set (g_pending g)" by (auto simp: map_of_eq_None_iff)
    have f: "filterDelivery g ?s (pay ?s) = g\<lparr>g_dedups := g_dedups g + 1\<rparr>"
      using True i(1) L by (simp add: filterDelivery_cases)
    show ?thesis unfolding f merge_inv_dedups
      using merge_inv_insert [OF I j] S merge_complete_insert [OF _ _ in_buf] by blast
  next
    case False
    then have n: "n \<le> j" "map_of (g_pending g) ?s = None" by auto
    have f: "filterDelivery g ?s (pay ?s) = drainPending (store g ?s (pay ?s))"
      using n i(1) L by (simp add: filterDelivery_cases)
    show ?thesis unfolding f
      using merge_drain [OF b merge_store(1) [OF I j n]] merge_store(2) [OF I j n] drain_settled by blast
  qed
qed

text \<open>The first number fixes the position of the merge.\<close>

lemma merge_first:
  assumes b: "valid_seq b" and j: "j < merge_span"
  defines "s \<equiv> seq_nth b j"
  shows "\<exists>D n. merge_inv b pay {j} (filterDelivery (NewGroup mode) s (pay s)) D n \<and>
           settled (filterDelivery (NewGroup mode) s (pay s)) \<and>
           (j = 0 \<longrightarrow> merge_complete b {j} (filterDelivery (NewGroup mode) s (pay s)) D n)"
proof -
  define g where "g = (NewGroup mode)\<lparr>g_deliverNext := s, g_dnInit := True, g_pending := [(s, pay s)],
    g_maxSeen := s, g_maxSeenSet := True\<rparr>"
  have f: "filterDelivery (NewGroup mode) s (pay s) = drainPending g"
    by (simp add: filterDelivery_def NewGroup_def g_def Value_def)
  have I: "merge_inv b pay {j} g [] j" using j by (simp add: merge_inv_def g_def s_def NewGroup_def)
  have C: "j = 0 \<Longrightarrow> merge_complete b {j} g [] j" by (simp add: merge_complete_def g_def s_def)
  show ?thesis unfolding f using merge_drain [OF b I] C drain_settled by blast
qed

text \<open>
  \<open>in_step b ss\<close>: the first arrival is \<open>b\<close>, and nothing arrives more than the reorder window ahead of a
  number that has not arrived yet.
\<close>

definition in_step :: "Number \<Rightarrow> Number list \<Rightarrow> bool" where
  "in_step b ss \<longleftrightarrow> ss ! 0 = b \<and>
     (\<forall>i<length ss. \<forall>k. k + 256 < seq_off b (ss ! i) \<longrightarrow> seq_nth b k \<in> set (take i ss))"

lemma in_step_snoc:
  assumes "in_step b (ss @ [s])" "ss \<noteq> []"
  shows "in_step b ss" and "k + 256 < seq_off b s \<Longrightarrow> seq_nth b k \<in> set ss"
proof -
  have "\<forall>i<length (ss @ [s]). \<forall>k. k + 256 < seq_off b ((ss @ [s]) ! i) \<longrightarrow> seq_nth b k \<in> set (take i (ss @ [s]))"
    using assms by (simp add: in_step_def)
  note h = this [rule_format]
  show "k + 256 < seq_off b s \<Longrightarrow> seq_nth b k \<in> set ss" using h [of "length ss" k] by simp
  show "in_step b ss" using assms h by (auto simp: in_step_def nth_append less_Suc_eq)
qed

lemma merge_run_inv:
  assumes b: "valid_seq b" and "ss \<noteq> []" and "\<forall>s\<in>set ss. valid_seq s \<and> seq_off b s < merge_span"
  shows "\<exists>D n. merge_inv b pay (seq_off b ` set ss) (merge_run pay ss (NewGroup mode)) D n \<and>
           settled (merge_run pay ss (NewGroup mode)) \<and>
           (in_step b ss \<longrightarrow> merge_complete b (seq_off b ` set ss) (merge_run pay ss (NewGroup mode)) D n)"
  using assms(2-)
proof (induction ss rule: rev_induct)
  case (snoc s ss)
  then have s: "valid_seq s" "seq_off b s < merge_span" "seq_nth b (seq_off b s) = s" using b by simp_all
  show ?case
  proof (cases "ss = []")
    case True
    have "in_step b [s] \<Longrightarrow> seq_off b s = 0" by (simp add: in_step_def)
    moreover have "merge_run pay (ss @ [s]) (NewGroup mode) = filterDelivery (NewGroup mode) s (pay s)"
      "seq_off b ` set (ss @ [s]) = {seq_off b s}" "ss @ [s] = [s]" using True by (simp_all add: merge_run_def)
    ultimately show ?thesis using merge_first [OF b s(2), of pay mode] unfolding s(3) by metis
  next
    case False
    define g where "g = merge_run pay ss (NewGroup mode)"
    obtain D n where I: "merge_inv b pay (seq_off b ` set ss) g D n" "settled g"
      and C: "in_step b ss \<longrightarrow> merge_complete b (seq_off b ` set ss) g D n"
      using snoc False unfolding g_def by auto
    have r: "merge_run pay (ss @ [s]) (NewGroup mode) = filterDelivery g s (pay s)"
      by (simp add: merge_run_def g_def)
    have A: "seq_off b ` set (ss @ [s]) = insert (seq_off b s) (seq_off b ` set ss)" by simp
    have "k \<in> seq_off b ` set ss" if "in_step b (ss @ [s])" "k + 256 < seq_off b s" for k
    proof -
      have "k < M31" using that(2) s(2) by simp
      then show ?thesis using in_step_snoc(2) [OF that(1) False that(2)] seq_off_nth_lt [OF b] by (metis image_eqI)
    qed
    with merge_arrival [OF b I s(2)] C in_step_snoc(1) [OF _ False] show ?thesis
      unfolding r A s(3) by blast
  qed
qed simp

section \<open>Properties\<close>



text \<open>
  C35. The loop of the merge ends in every state of the group, also for positions and numbers outside the
  31-bit range: it leaves a group whose next number is not buffered and whose gap, if any, is still
  within the reorder window.
\<close>

theorem drainPending_ends:
  "let g' = drainPending g in
     map_of (g_pending g') (Value (g_deliverNext g')) = None \<and>
     \<not> (g_maxSeenSet g' \<and> GreaterThan (g_maxSeen g') (Add (g_deliverNext g') groupReorderWindow))"
  using drain_settled [of g] by (simp add: settled_def Value_def Let_def)

end
