(* ===== verification/Spec2Isabelle.thy ===== *)
theory Spec2Isabelle
  imports Stream_Id Listener Core_Group
begin

text \<open>
  A verification development for srtgo, an implementation of the SRT transport protocol in Go.
\<close>

end
